(* ===== verification/Py_IO.thy ===== *)
theory Py_IO
  imports Prelude
begin

text \<open>
  The harness is straight-line Python that talks to the operating system: it spawns broker
  processes, opens TCP connections, sends and receives bytes, sleeps and prints. A piece of it
  is a finite tree of such calls (type \<open>prog\<close>): a value, a raised exception, or a call with a
  continuation for each answer. The operating system, the network and the broker process are
  not modelled; they are the answers, restricted only by what the Python library documents
  (\<open>answers\<close>: \<open>recv(n)\<close> returns at most \<open>n\<close> bytes, a socket call raises
  subclasses of \<open>OSError\<close> only, \<open>Popen.wait\<close> raises \<open>TimeoutExpired\<close> only, and so on).
  One simplification: \<open>close\<close>, \<open>settimeout\<close>, \<open>getsockname\<close> and \<open>print\<close> never raise here,
  although Python allows an \<open>OSError\<close> of any socket operation.

  \<open>exec m t r\<close> says that some environment makes \<open>m\<close> end with the outcome \<open>r\<close>
  and that the transcript of this run is \<open>t\<close>: bytes one by one (so a transcript does not
  depend on how TCP cuts the stream), and one entry for each other call. Everything the harness
  decides is a statement about \<open>exec\<close>, and holds for every environment.
\<close>

type_synonym sock = nat
type_synonym proc = nat

datatype exn =
    AssertionError string
  | RuntimeError string
  | ValueError
  | IndexError
  | UnicodeDecodeError
  | TimeoutExpired
  | SocketTimeout
  | ConnectionResetError
  | BrokenPipeError
  | OSError string
  | NoAnswer

fun is_os_error :: "exn \<Rightarrow> bool" where
  "is_os_error SocketTimeout = True"
| "is_os_error ConnectionResetError = True"
| "is_os_error BrokenPipeError = True"
| "is_os_error (OSError _) = True"
| "is_os_error _ = False"

section \<open>Calls, answers and transcripts\<close>

text \<open>Durations are in milliseconds: the source uses 5 s, 50 ms and whole seconds.\<close>

datatype op =
    NewSocket
  | Bind sock string nat
  | GetSockPort sock
  | CreateConnection string nat nat
  | SetTimeout sock nat
  | SendAll sock bytes
  | Recv sock nat
  | Close sock
  | Popen "string list"
  | ReadLine proc
  | ReadOutput proc
  | Wait proc nat
  | Terminate proc
  | Sleep nat
  | Print string

datatype answer =
    AOk
  | ASock sock
  | APort nat
  | AProc proc
  | AText string
  | ACode int
  | ABytes bytes
  | ARaise exn

primrec answers :: "op \<Rightarrow> answer \<Rightarrow> bool" where
  "answers NewSocket = (\<lambda>a. case a of ASock s \<Rightarrow> True | ARaise e \<Rightarrow> is_os_error e | _ \<Rightarrow> False)"
| "answers (Bind s h p) = (\<lambda>a. case a of AOk \<Rightarrow> True | ARaise e \<Rightarrow> is_os_error e | _ \<Rightarrow> False)"
| "answers (GetSockPort s) = (\<lambda>a. case a of APort p \<Rightarrow> True | _ \<Rightarrow> False)"
| "answers (CreateConnection h p ms) =
     (\<lambda>a. case a of ASock s \<Rightarrow> True | ARaise e \<Rightarrow> is_os_error e | _ \<Rightarrow> False)"
| "answers (SetTimeout s ms) = (\<lambda>a. case a of AOk \<Rightarrow> True | _ \<Rightarrow> False)"
| "answers (SendAll s bs) = (\<lambda>a. case a of AOk \<Rightarrow> True | ARaise e \<Rightarrow> is_os_error e | _ \<Rightarrow> False)"
| "answers (Recv s n) =
     (\<lambda>a. case a of ABytes bs \<Rightarrow> length bs \<le> n | ARaise e \<Rightarrow> is_os_error e | _ \<Rightarrow> False)"
| "answers (Close s) = (\<lambda>a. case a of AOk \<Rightarrow> True | _ \<Rightarrow> False)"
| "answers (Popen cmd) = (\<lambda>a. case a of AProc p \<Rightarrow> True | ARaise e \<Rightarrow> is_os_error e | _ \<Rightarrow> False)"
| "answers (ReadLine p) = (\<lambda>a. case a of AText l \<Rightarrow> True | _ \<Rightarrow> False)"
| "answers (ReadOutput p) = (\<lambda>a. case a of AText l \<Rightarrow> True | _ \<Rightarrow> False)"
| "answers (Wait p ms) =
     (\<lambda>a. case a of ACode c \<Rightarrow> True | ARaise e \<Rightarrow> e = TimeoutExpired | _ \<Rightarrow> False)"
| "answers (Terminate p) = (\<lambda>a. case a of AOk \<Rightarrow> True | _ \<Rightarrow> False)"
| "answers (Sleep ms) = (\<lambda>a. case a of AOk \<Rightarrow> True | _ \<Rightarrow> False)"
| "answers (Print s) = (\<lambda>a. case a of AOk \<Rightarrow> True | _ \<Rightarrow> False)"

datatype obs =
    Created sock
  | Bound sock string nat
  | Port sock nat
  | Connected sock nat
  | TimeoutSet sock nat
  | Tx sock byte
  | Rx sock byte
  | Eof sock
  | Closed sock
  | Spawned proc "string list"
  | Line proc string
  | Output proc string
  | Exited proc int
  | Terminated proc
  | Slept nat
  | Printed string
  | Failed op exn

text \<open>What an answer adds to the transcript; \<open>log_call p a w\<close> is \<open>w\<close> for a normal
  answer and the failed call itself for an exception.\<close>

definition log_call :: "op \<Rightarrow> answer \<Rightarrow> obs list \<Rightarrow> obs list" where
  "log_call p a w = (case a of ARaise e \<Rightarrow> [Failed p e] | _ \<Rightarrow> w)"

primrec observe :: "op \<Rightarrow> answer \<Rightarrow> obs list" where
  "observe NewSocket = (\<lambda>a. log_call NewSocket a (case a of ASock s \<Rightarrow> [Created s] | _ \<Rightarrow> []))"
| "observe (Bind s h p) = (\<lambda>a. log_call (Bind s h p) a [Bound s h p])"
| "observe (GetSockPort s) =
     (\<lambda>a. log_call (GetSockPort s) a (case a of APort p \<Rightarrow> [Port s p] | _ \<Rightarrow> []))"
| "observe (CreateConnection h p ms) =
     (\<lambda>a. log_call (CreateConnection h p ms) a (case a of ASock s \<Rightarrow> [Connected s p] | _ \<Rightarrow> []))"
| "observe (SetTimeout s ms) = (\<lambda>a. log_call (SetTimeout s ms) a [TimeoutSet s ms])"
| "observe (SendAll s bs) = (\<lambda>a. log_call (SendAll s bs) a (map (Tx s) bs))"
| "observe (Recv s n) =
     (\<lambda>a. log_call (Recv s n) a
        (case a of ABytes bs \<Rightarrow> (if bs = [] then [Eof s] else map (Rx s) bs) | _ \<Rightarrow> []))"
| "observe (Close s) = (\<lambda>a. log_call (Close s) a [Closed s])"
| "observe (Popen cmd) = (\<lambda>a. log_call (Popen cmd) a (case a of AProc p \<Rightarrow> [Spawned p cmd] | _ \<Rightarrow> []))"
| "observe (ReadLine p) = (\<lambda>a. log_call (ReadLine p) a (case a of AText l \<Rightarrow> [Line p l] | _ \<Rightarrow> []))"
| "observe (ReadOutput p) = (\<lambda>a. log_call (ReadOutput p) a (case a of AText l \<Rightarrow> [Output p l] | _ \<Rightarrow> []))"
| "observe (Wait p ms) = (\<lambda>a. log_call (Wait p ms) a (case a of ACode c \<Rightarrow> [Exited p c] | _ \<Rightarrow> []))"
| "observe (Terminate p) = (\<lambda>a. log_call (Terminate p) a [Terminated p])"
| "observe (Sleep ms) = (\<lambda>a. log_call (Sleep ms) a [Slept ms])"
| "observe (Print s) = (\<lambda>a. log_call (Print s) a [Printed s])"

section \<open>Programs\<close>

datatype 'a prog = Ret 'a | Raise exn | Call op "answer \<Rightarrow> 'a prog"

primrec bind :: "'a prog \<Rightarrow> ('a \<Rightarrow> 'b prog) \<Rightarrow> 'b prog" where
  "bind (Ret x) f = f x"
| "bind (Raise e) f = Raise e"
| "bind (Call p k) f = Call p (\<lambda>a. bind (k a) f)"

text \<open>\<open>attempt m\<close> runs \<open>m\<close> and hands its outcome on as a value: the base of
  \<^verbatim>\<open>try\<close> and \<^verbatim>\<open>with\<close>.\<close>

primrec attempt :: "'a prog \<Rightarrow> (exn + 'a) prog" where
  "attempt (Ret x) = Ret (Inr x)"
| "attempt (Raise e) = Ret (Inl e)"
| "attempt (Call p k) = Call p (\<lambda>a. attempt (k a))"

fun reraise :: "exn + 'a \<Rightarrow> 'a prog" where
  "reraise (Inl e) = Raise e"
| "reraise (Inr x) = Ret x"

primrec seq :: "unit prog list \<Rightarrow> unit prog" where
  "seq [] = Ret ()"
| "seq (m # ms) = bind m (\<lambda>_. seq ms)"

definition for_each :: "'a list \<Rightarrow> ('a \<Rightarrow> unit prog) \<Rightarrow> unit prog" where
  "for_each xs body = seq (map body xs)"

primrec collect :: "'a list \<Rightarrow> ('a \<Rightarrow> 'b prog) \<Rightarrow> 'b list prog" where
  "collect [] f = Ret []"
| "collect (x # xs) f = bind (f x) (\<lambda>y. bind (collect xs f) (\<lambda>ys. Ret (y # ys)))"

primrec fold_each :: "'a list \<Rightarrow> ('a \<Rightarrow> 's \<Rightarrow> 's prog) \<Rightarrow> 's \<Rightarrow> 's prog" where
  "fold_each [] body st = Ret st"
| "fold_each (x # xs) body st = bind (body x st) (fold_each xs body)"

definition skip :: "unit prog" where
  "skip = Ret ()"

text \<open>\<^verbatim>\<open>if c: m\<close>, \<^verbatim>\<open>try: m finally: f\<close>, \<^verbatim>\<open>try: m except <p>: h\<close>.\<close>

definition whenever :: "bool \<Rightarrow> unit prog \<Rightarrow> unit prog" where
  "whenever c m = (if c then m else skip)"

definition try_finally :: "'a prog \<Rightarrow> unit prog \<Rightarrow> 'a prog" where
  "try_finally m f = bind (attempt m) (\<lambda>r. bind f (\<lambda>_. reraise r))"

definition try_except :: "'a prog \<Rightarrow> (exn \<Rightarrow> bool) \<Rightarrow> (exn \<Rightarrow> 'a prog) \<Rightarrow> 'a prog" where
  "try_except m p h = bind (attempt m) (\<lambda>r.
     case r of Inl e \<Rightarrow> (if p e then h e else Raise e) | Inr x \<Rightarrow> Ret x)"

text \<open>
  \<^verbatim>\<open>with enter() as v: body\<close> for a context manager whose \<^verbatim>\<open>__exit__\<close> returns
  \<^verbatim>\<open>None\<close>: an exception of the body is raised again after \<^verbatim>\<open>__exit__\<close>, unless
  \<^verbatim>\<open>__exit__\<close> raises one itself.
\<close>

definition with_mgr ::
  "'c prog \<Rightarrow> ('c \<Rightarrow> exn option \<Rightarrow> unit prog) \<Rightarrow> ('c \<Rightarrow> 'a prog) \<Rightarrow> 'a prog" where
  "with_mgr enter exit body = bind enter (\<lambda>c. bind (attempt (body c)) (\<lambda>r.
     bind (exit c (case r of Inl e \<Rightarrow> Some e | Inr _ \<Rightarrow> None)) (\<lambda>_. reraise r)))"

section \<open>The library calls\<close>

definition unit_call :: "op \<Rightarrow> unit prog" where
  "unit_call p = Call p (\<lambda>a. case a of AOk \<Rightarrow> Ret () | ARaise e \<Rightarrow> Raise e | _ \<Rightarrow> Raise NoAnswer)"

definition sock_call :: "op \<Rightarrow> sock prog" where
  "sock_call p = Call p (\<lambda>a. case a of ASock s \<Rightarrow> Ret s | ARaise e \<Rightarrow> Raise e | _ \<Rightarrow> Raise NoAnswer)"

definition port_call :: "op \<Rightarrow> nat prog" where
  "port_call p = Call p (\<lambda>a. case a of APort n \<Rightarrow> Ret n | ARaise e \<Rightarrow> Raise e | _ \<Rightarrow> Raise NoAnswer)"

definition proc_call :: "op \<Rightarrow> proc prog" where
  "proc_call p = Call p (\<lambda>a. case a of AProc q \<Rightarrow> Ret q | ARaise e \<Rightarrow> Raise e | _ \<Rightarrow> Raise NoAnswer)"

definition text_call :: "op \<Rightarrow> string prog" where
  "text_call p = Call p (\<lambda>a. case a of AText l \<Rightarrow> Ret l | ARaise e \<Rightarrow> Raise e | _ \<Rightarrow> Raise NoAnswer)"

definition code_call :: "op \<Rightarrow> int prog" where
  "code_call p = Call p (\<lambda>a. case a of ACode c \<Rightarrow> Ret c | ARaise e \<Rightarrow> Raise e | _ \<Rightarrow> Raise NoAnswer)"

definition bytes_call :: "op \<Rightarrow> bytes prog" where
  "bytes_call p = Call p (\<lambda>a. case a of ABytes bs \<Rightarrow> Ret bs | ARaise e \<Rightarrow> Raise e | _ \<Rightarrow> Raise NoAnswer)"

definition sendall :: "sock \<Rightarrow> bytes \<Rightarrow> unit prog" where
  "sendall s bs = unit_call (SendAll s bs)"

definition recv :: "sock \<Rightarrow> nat \<Rightarrow> bytes prog" where
  "recv s n = bytes_call (Recv s n)"

definition settimeout :: "sock \<Rightarrow> nat \<Rightarrow> unit prog" where
  "settimeout s ms = unit_call (SetTimeout s ms)"

definition close :: "sock \<Rightarrow> unit prog" where
  "close s = unit_call (Close s)"

definition sleep :: "nat \<Rightarrow> unit prog" where
  "sleep ms = unit_call (Sleep ms)"

text \<open>Subscripting a sequence raises \<open>IndexError\<close> out of range; \<^verbatim>\<open>list.remove\<close> raises
  \<open>ValueError\<close> for a missing element.\<close>

definition item :: "'a list \<Rightarrow> nat \<Rightarrow> 'a prog" where
  "item xs i = (if i < length xs then Ret (xs ! i) else Raise IndexError)"

definition list_remove :: "'a \<Rightarrow> 'a list \<Rightarrow> 'a list prog" where
  "list_remove x xs = (if x \<in> set xs then Ret (remove1 x xs) else Raise ValueError)"

section \<open>Runs\<close>

inductive exec :: "'a prog \<Rightarrow> obs list \<Rightarrow> exn + 'a \<Rightarrow> bool" where
  exec_ret: "exec (Ret x) [] (Inr x)"
| exec_raise: "exec (Raise e) [] (Inl e)"
| exec_call: "answers p a \<Longrightarrow> exec (k a) t r \<Longrightarrow> exec (Call p k) (observe p a @ t) r"

inductive_simps exec_Ret_iff [simp]: "exec (Ret x) t r"
inductive_simps exec_Raise_iff [simp]: "exec (Raise e) t r"
inductive_simps exec_Call_iff: "exec (Call p k) t r"

text \<open>An operating system with a state is a function that answers each call; \<open>run\<close> is the
  program run against it.\<close>

type_synonym 'e os = "op \<Rightarrow> 'e \<Rightarrow> answer \<times> 'e"

primrec run :: "'e os \<Rightarrow> 'a prog \<Rightarrow> 'e \<Rightarrow> (exn + 'a) \<times> obs list \<times> 'e" where
  "run os (Ret x) = (\<lambda>e. (Inr x, [], e))"
| "run os (Raise x) = (\<lambda>e. (Inl x, [], e))"
| "run os (Call p k) = (\<lambda>e.
     case os p e of (a, e') \<Rightarrow>
       (case run os (k a) e' of (r, t, e'') \<Rightarrow> (r, observe p a @ t, e'')))"


section \<open>Languages of transcripts\<close>

type_synonym lang = "obs list \<Rightarrow> bool"

definition ok :: "'a prog \<Rightarrow> 'a \<Rightarrow> lang" where
  "ok m x = (\<lambda>t. exec m t (Inr x))"

definition eps :: lang where
  "eps = (\<lambda>t. t = [])"

definition exactly :: "obs list \<Rightarrow> lang" where
  "exactly w = (\<lambda>t. t = w)"

definition cat :: "lang \<Rightarrow> lang \<Rightarrow> lang" where
  "cat A B = (\<lambda>t. \<exists>u v. t = u @ v \<and> A u \<and> B v)"

definition onlyif :: "bool \<Rightarrow> lang \<Rightarrow> lang" where
  "onlyif c A = (\<lambda>t. c \<and> A t)"

definition some :: "('x \<Rightarrow> lang) \<Rightarrow> lang" where
  "some A = (\<lambda>t. \<exists>x. A x t)"

definition tx :: "sock \<Rightarrow> bytes \<Rightarrow> lang" where
  "tx s bs = exactly (map (Tx s) bs)"

section \<open>Laws of runs\<close>

lemma exec_bind_iff:
  "exec (bind m f) t r \<longleftrightarrow>
     (\<exists>u v x. t = u @ v \<and> exec m u (Inr x) \<and> exec (f x) v r) \<or> (\<exists>e. r = Inl e \<and> exec m t (Inl e))"
proof (induction m arbitrary: t)
  case (Call p k)
  show ?case
    by (simp add: exec_Call_iff Call.IH [OF rangeI]) (safe; metis append.assoc)
qed auto

lemma exec_bindI: "exec m u (Inr x) \<Longrightarrow> exec (f x) v r \<Longrightarrow> exec (bind m f) (u @ v) r"
  unfolding exec_bind_iff by blast

lemma exec_bind_errI: "exec m t (Inl e) \<Longrightarrow> exec (bind m f) t (Inl e)"
  unfolding exec_bind_iff by blast

lemma bind_assoc: "bind (bind m f) g = bind m (\<lambda>x. bind (f x) g)"
  by (induction m) auto

lemma exec_attempt_iff:
  "exec (attempt m) t r \<longleftrightarrow> (\<exists>r'. r = Inr r' \<and> exec m t r')"
  by (induction m arbitrary: t) (auto simp: exec_Call_iff)

lemma exec_reraise_iff [simp]: "exec (reraise r) t r' \<longleftrightarrow> t = [] \<and> r' = r"
  by (cases r) auto

lemma ex_answer:
  "(\<exists>a. P a) \<longleftrightarrow> P AOk \<or> (\<exists>s. P (ASock s)) \<or> (\<exists>n. P (APort n)) \<or> (\<exists>p. P (AProc p)) \<or>
     (\<exists>l. P (AText l)) \<or> (\<exists>c. P (ACode c)) \<or> (\<exists>bs. P (ABytes bs)) \<or> (\<exists>e. P (ARaise e))"
  by (metis answer.exhaust)

lemmas call_defs = unit_call_def sock_call_def port_call_def proc_call_def text_call_def
  code_call_def bytes_call_def exec_Call_iff ex_answer log_call_def

lemma exec_sendall [exec_simps]:
  "exec (sendall s bs) t r \<longleftrightarrow>
     t = map (Tx s) bs \<and> r = Inr () \<or>
     (\<exists>e. is_os_error e \<and> t = [Failed (SendAll s bs) e] \<and> r = Inl e)"
  by (auto simp: sendall_def call_defs)

lemma exec_recv [exec_simps]:
  "exec (recv s n) t r \<longleftrightarrow>
     (\<exists>bs. length bs \<le> n \<and> t = (if bs = [] then [Eof s] else map (Rx s) bs) \<and> r = Inr bs) \<or>
     (\<exists>e. is_os_error e \<and> t = [Failed (Recv s n) e] \<and> r = Inl e)"
  by (auto simp: recv_def call_defs)

lemma exec_settimeout [exec_simps]:
  "exec (settimeout s ms) t r \<longleftrightarrow> t = [TimeoutSet s ms] \<and> r = Inr ()"
  by (auto simp: settimeout_def call_defs)

lemma exec_close [exec_simps]: "exec (close s) t r \<longleftrightarrow> t = [Closed s] \<and> r = Inr ()"
  by (auto simp: close_def call_defs)

lemma exec_sleep [exec_simps]: "exec (sleep ms) t r \<longleftrightarrow> t = [Slept ms] \<and> r = Inr ()"
  by (auto simp: sleep_def call_defs)

lemma exec_skip [exec_simps]: "exec skip t r \<longleftrightarrow> t = [] \<and> r = Inr ()"
  by (simp add: skip_def)

lemma exec_item [exec_simps]:
  "exec (item xs i) t r \<longleftrightarrow> t = [] \<and> r = (if i < length xs then Inr (xs ! i) else Inl IndexError)"
  by (simp add: item_def)

lemma exec_try_finally [exec_simps]:
  "exec (try_finally m f) t r \<longleftrightarrow>
     (\<exists>u v. t = u @ v \<and> exec m u r \<and> exec f v (Inr ())) \<or>
     (\<exists>u v r' e. t = u @ v \<and> exec m u r' \<and> exec f v (Inl e) \<and> r = Inl e)"
  unfolding try_finally_def exec_bind_iff exec_attempt_iff by (simp, safe, simp_all, blast+)

lemma exec_try_except [exec_simps]:
  "exec (try_except m p h) t r \<longleftrightarrow>
     (\<exists>x. r = Inr x \<and> exec m t r) \<or> (\<exists>e. \<not> p e \<and> r = Inl e \<and> exec m t r) \<or>
     (\<exists>e u v. p e \<and> t = u @ v \<and> exec m u (Inl e) \<and> exec (h e) v r)"
proof -
  have "exec (try_except m p h) t r \<longleftrightarrow> (\<exists>u v r'. t = u @ v \<and> exec m u r' \<and>
      exec (case r' of Inl e \<Rightarrow> (if p e then h e else Raise e) | Inr x \<Rightarrow> Ret x) v r)"
    by (simp add: try_except_def exec_bind_iff exec_attempt_iff)
  also have "\<dots> \<longleftrightarrow>
      (\<exists>u v e. t = u @ v \<and> exec m u (Inl e) \<and> exec (if p e then h e else Raise e) v r) \<or>
      (\<exists>u v x. t = u @ v \<and> exec m u (Inr x) \<and> exec (Ret x) v r)"
    by (simp only: split_sum_ex sum.case ex_disj_distrib)
  also have "\<dots> \<longleftrightarrow> (\<exists>x. r = Inr x \<and> exec m t r) \<or> (\<exists>e. \<not> p e \<and> r = Inl e \<and> exec m t r) \<or>
     (\<exists>e u v. p e \<and> t = u @ v \<and> exec m u (Inl e) \<and> exec (h e) v r)"
    by (auto split: if_splits)
  finally show ?thesis .
qed

text \<open>Every run against an operating system that keeps to \<open>answers\<close> is a run in the sense of
  \<open>exec\<close>, and every outcome that \<open>exec\<close> admits is reached against one.\<close>

locale os_contract =
  fixes os :: "'e os"
  assumes keeps: "answers p (fst (os p e))"
begin

lemma run_exec: "run os m e = (r, t, e') \<Longrightarrow> exec m t r"
proof (induction m arbitrary: e t)
  case (Call p k)
  obtain a e1 where a: "os p e = (a, e1)" by (cases "os p e")
  obtain r' t' e2 where k: "run os (k a) e1 = (r', t', e2)" by (cases "run os (k a) e1") auto
  from Call.prems a k have "r' = r" "t = observe p a @ t'" "e2 = e'" by auto
  with Call.IH [OF rangeI] k have "exec (k a) t' r" by simp
  moreover from keeps [of p e] a have "answers p a" by simp
  ultimately show ?case using \<open>t = observe p a @ t'\<close> by (simp add: exec_call)
qed auto

end

lemma run_bind:
  "run os (bind m f) e = (case run os m e of
     (Inl x, t, e') \<Rightarrow> (Inl x, t, e')
   | (Inr x, t, e') \<Rightarrow> (case run os (f x) e' of (r, u, e'') \<Rightarrow> (r, t @ u, e'')))"
  by (induction m arbitrary: e) (auto split: prod.split sum.split)

text \<open>The operating system that replays a recorded list of answers. Where the list has no fitting
  answer it gives a default one.\<close>

primrec default_answer :: "op \<Rightarrow> answer" where
  "default_answer NewSocket = ASock 0"
| "default_answer (Bind s h p) = AOk"
| "default_answer (GetSockPort s) = APort 0"
| "default_answer (CreateConnection h p ms) = ASock 0"
| "default_answer (SetTimeout s ms) = AOk"
| "default_answer (SendAll s bs) = AOk"
| "default_answer (Recv s n) = ABytes []"
| "default_answer (Close s) = AOk"
| "default_answer (Popen cmd) = AProc 0"
| "default_answer (ReadLine p) = AText []"
| "default_answer (ReadOutput p) = AText []"
| "default_answer (Wait p ms) = ACode 0"
| "default_answer (Terminate p) = AOk"
| "default_answer (Sleep ms) = AOk"
| "default_answer (Print s) = AOk"

definition replayed :: "answer list os" where
  "replayed p as = (case as of
     a # as' \<Rightarrow> (if answers p a then a else default_answer p, as') | [] \<Rightarrow> (default_answer p, []))"

lemma answers_default: "answers p (default_answer p)"
  by (cases p) auto

interpretation replay: os_contract replayed
  by unfold_locales (auto simp: replayed_def answers_default split: list.split)

lemma exec_run_replayed: "exec m t r \<Longrightarrow> \<exists>as. run replayed m as = (r, t, [])"
proof (induction rule: exec.induct)
  case (exec_call p a k t r)
  then obtain as where "run replayed (k a) as = (r, t, [])" by blast
  with exec_call have "run replayed (Call p k) (a # as) = (r, observe p a @ t, [])"
    by (simp add: replayed_def)
  then show ?case by blast
qed auto

lemma exec_iff_replayed: "exec m t r \<longleftrightarrow> (\<exists>as e. run replayed m as = (r, t, e))"
  using replay.run_exec exec_run_replayed by blast

text \<open>A program is total: from every answer it goes on, and it always ends.\<close>

lemma exec_total: "\<exists>t r. exec m t r"
proof (induction m)
  case (Call p k)
  have "\<exists>bs :: bytes. length bs \<le> n" for n by (rule exI [of _ "[]"]) simp
  then have "\<exists>a. answers p a" by (cases p) (auto simp: ex_answer)
  then obtain a where "answers p a" by blast
  with Call.IH [OF rangeI] show ?case by (metis exec_call)
qed (auto)

section \<open>The language calculus\<close>

lemma eps_cat [lang_simps]: "cat eps A = A" "cat A eps = A"
  by (auto simp: cat_def eps_def)

lemma cat_assoc [lang_simps]: "cat (cat A B) C = cat A (cat B C)"
  unfolding cat_def by (intro ext) (metis append.assoc)

lemma exactly_Nil [lang_simps]: "exactly [] = eps"
  by (simp add: exactly_def eps_def)

lemma cat_exactly [lang_simps]:
  "cat (exactly u) (exactly v) = exactly (u @ v)"
  "cat (exactly u) (cat (exactly v) A) = cat (exactly (u @ v)) A"
  by (auto simp: cat_def exactly_def fun_eq_iff)

lemma cat_some_left [lang_simps]: "cat (some A) B = some (\<lambda>x. cat (A x) B)"
  by (auto simp: cat_def some_def fun_eq_iff)

lemma cat_some_right: "cat B (some A) = some (\<lambda>x. cat B (A x))"
  by (auto simp: cat_def some_def fun_eq_iff)

lemma cat_onlyif [lang_simps]:
  "cat (onlyif c A) B = onlyif c (cat A B)" "cat B (onlyif c A) = onlyif c (cat B A)"
  by (auto simp: cat_def onlyif_def fun_eq_iff)

lemma onlyif_onlyif [lang_simps]: "onlyif b (onlyif c A) = onlyif (b \<and> c) A"
  by (auto simp: onlyif_def)

lemma onlyif_True [lang_simps]: "onlyif True A = A"
  by (simp add: onlyif_def)

lemma some_onlyif_eq [lang_simps]:
  "some (\<lambda>x. onlyif (x = y) (A x)) = A y"
  "some (\<lambda>x. onlyif (y = x) (A x)) = A y"
  "some (\<lambda>x. onlyif (x = y \<and> c x) (A x)) = onlyif (c y) (A y)"
  "some (\<lambda>x. onlyif (y = x \<and> c x) (A x)) = onlyif (c y) (A y)"
  "some (\<lambda>x. onlyif (c x \<and> x = y) (A x)) = onlyif (c y) (A y)"
  "some (\<lambda>x. onlyif (c x \<and> y = x) (A x)) = onlyif (c y) (A y)"
  by (auto simp: some_def onlyif_def)

lemma some_False [lang_simps]: "some (\<lambda>x. onlyif False (A x)) = onlyif False eps"
  by (auto simp: some_def onlyif_def)

lemma some_onlyif_const [lang_simps]: "some (\<lambda>x. onlyif c (A x)) = onlyif c (some A)"
  by (auto simp: some_def onlyif_def)

lemma ok_Ret [lang_simps]: "ok (Ret x) y = onlyif (y = x) eps"
  by (auto simp: ok_def eps_def onlyif_def)

lemma ok_Raise [lang_simps]: "ok (Raise e) y = onlyif False eps"
  by (auto simp: ok_def onlyif_def)

lemma ok_bind [lang_simps]: "ok (bind m f) y = some (\<lambda>x. cat (ok m x) (ok (f x) y))"
  by (auto simp: ok_def cat_def some_def exec_bind_iff fun_eq_iff)

lemma ok_skip [lang_simps]: "ok skip u = eps"
  by (simp add: skip_def lang_simps)

lemma some_unit [lang_simps]: "some (A :: unit \<Rightarrow> lang) = A ()"
  by (auto simp: some_def)

lemma ok_item [lang_simps]: "ok (item xs i) x = onlyif (i < length xs \<and> x = xs ! i) eps"
  by (auto simp: ok_def onlyif_def eps_def exec_item)

lemma ok_seq [lang_simps]:
  "ok (seq []) u = eps" "ok (seq (m # ms)) u = cat (ok m ()) (ok (seq ms) u)"
  by (simp_all add: lang_simps)

lemma ok_for_each [lang_simps]:
  "ok (for_each [] f) u = eps"
  "ok (for_each (x # xs) f) u = cat (ok (f x) ()) (ok (for_each xs f) u)"
  by (simp_all add: for_each_def lang_simps)

lemma ok_whenever [lang_simps]: "ok (whenever c m) u = (if c then ok m u else eps)"
  by (simp add: whenever_def lang_simps)

lemma ok_sendall [lang_simps]: "ok (sendall s bs) u = tx s bs"
  by (auto simp: ok_def tx_def exactly_def exec_simps)

lemma ok_settimeout [lang_simps]: "ok (settimeout s ms) u = exactly [TimeoutSet s ms]"
  by (auto simp: ok_def exactly_def exec_simps)

lemma ok_close [lang_simps]: "ok (close s) u = exactly [Closed s]"
  by (auto simp: ok_def exactly_def exec_simps)

lemma ok_sleep [lang_simps]: "ok (sleep ms) u = exactly [Slept ms]"
  by (auto simp: ok_def exactly_def exec_simps)

lemma ok_with_mgr [lang_simps]:
  "ok (with_mgr enter exit body) x =
     some (\<lambda>c. cat (ok enter c) (cat (ok (body c) x) (ok (exit c None) ())))"
proof -
  have "exec (with_mgr enter exit body) t (Inr x) \<longleftrightarrow>
      (\<exists>c u v w. t = u @ v @ w \<and> exec enter u (Inr c) \<and> exec (body c) v (Inr x) \<and>
        exec (exit c None) w (Inr ()))" for t
    by (auto simp: with_mgr_def exec_bind_iff exec_attempt_iff) fastforce
  then show ?thesis
    by (auto simp: ok_def cat_def some_def fun_eq_iff) blast+
qed

lemma ok_try_finally [lang_simps]: "ok (try_finally m f) x = cat (ok m x) (ok f ())"
  by (auto simp: ok_def cat_def exec_try_finally)

lemma ok_list_remove [lang_simps]:
  "ok (list_remove x xs) ys = onlyif (x \<in> set xs \<and> ys = remove1 x xs) eps"
  by (simp add: list_remove_def lang_simps)

lemma bind_collect [lang_simps]:
  "bind (collect [] f) g = g []"
  "bind (collect (x # xs) f) g = bind (f x) (\<lambda>v. bind (collect xs f) (\<lambda>vs. g (v # vs)))"
  by (simp_all add: bind_assoc)

declare seq.simps [simp del] collect.simps [simp del]

end
