(* ===== verification/Wire.thy ===== *)
theory Wire
  imports Py_IO
begin

text \<open>
  The wire helpers of \<^verbatim>\<open>mqtt_mosquitto_vectors.py\<close>: \<^verbatim>\<open>recv_exact\<close>, \<^verbatim>\<open>read_packet\<close>,
  \<^verbatim>\<open>expect_packet\<close> and \<^verbatim>\<open>expect_packets_unordered\<close>. The reference notion is
  \<open>frame\<close>: a fixed-header byte, one to four Remaining Length bytes, and as many payload bytes as
  they say. The lemmas show that \<^verbatim>\<open>read_packet\<close> consumes exactly one frame however TCP cuts
  the stream, name each way it fails, and that the two \<^verbatim>\<open>expect\<close> helpers accept exactly the
  expected packet and exactly the permutations of the expected packets.
\<close>

section \<open>The helpers\<close>

function recv_loop :: "sock \<Rightarrow> nat \<Rightarrow> bytes \<Rightarrow> bytes prog" where
  "recv_loop sock wanted result =
     (if length result < wanted then
        bind (recv sock (wanted - length result)) (\<lambda>part.
          if part = [] then Raise (AssertionError ''broker closed before complete packet'')
          else recv_loop sock wanted (result @ part))
      else Ret result)"
  by pat_completeness auto
termination
  by (relation "measure (\<lambda>(sock, wanted, result). wanted - length result)")
     (auto simp: neq_Nil_conv)

declare recv_loop.simps [simp del]

definition recv_exact :: "sock \<Rightarrow> nat \<Rightarrow> bytes prog" where
  "recv_exact sock wanted = recv_loop sock wanted []"

lemma multiplier_bound: "128 ^ k \<le> (16384 :: nat) \<longleftrightarrow> k < 3"
proof -
  have "(128 :: nat) ^ k \<le> 128 ^ 2 \<longleftrightarrow> k \<le> 2" by (rule power_increasing_iff) simp
  then show ?thesis by auto
qed

text \<open>The \<^verbatim>\<open>while True\<close> loop of \<^verbatim>\<open>read_packet\<close>. The local \<^verbatim>\<open>multiplier\<close> is
  \<open>128 ^ k\<close>: it starts at 1 and is only ever multiplied by 128.\<close>

function read_remaining :: "sock \<Rightarrow> nat \<Rightarrow> bytes \<Rightarrow> nat \<Rightarrow> (bytes \<times> nat) prog" where
  "read_remaining sock k remaining_bytes remaining =
     bind (recv_exact sock 1) (\<lambda>b. bind (item b 0) (\<lambda>encoded.
       let remaining_bytes' = remaining_bytes @ [encoded];
           remaining' = remaining + unat (encoded AND 0x7F) * 128 ^ k
       in if encoded AND 0x80 = 0 then Ret (remaining_bytes', remaining')
          else if 128 ^ Suc k > (128 * 128 * 128 :: nat)
            then Raise (AssertionError ''malformed MQTT Remaining Length'')
          else read_remaining sock (Suc k) remaining_bytes' remaining'))"
  by pat_completeness auto
termination
  by (relation "measure (\<lambda>(sock, k, remaining_bytes, remaining). 4 - k)")
     (auto simp: not_less multiplier_bound)

declare read_remaining.simps [simp del]

definition read_packet :: "sock \<Rightarrow> bytes prog" where
  "read_packet sock =
     bind (recv_exact sock 1) (\<lambda>fixed.
     bind (read_remaining sock 0 [] 0) (\<lambda>(remaining_bytes, remaining).
     bind (recv_exact sock remaining) (\<lambda>payload.
       Ret (fixed @ remaining_bytes @ payload))))"

definition expect_packet :: "sock \<Rightarrow> bytes \<Rightarrow> string \<Rightarrow> unit prog" where
  "expect_packet sock expected label =
     bind (read_packet sock) (\<lambda>actual.
       if actual \<noteq> expected
       then Raise (AssertionError (label @ '': expected '' @ hex expected @ '', received '' @ hex actual))
       else Ret ())"

definition expect_packets_unordered :: "sock \<Rightarrow> bytes list \<Rightarrow> string \<Rightarrow> unit prog" where
  "expect_packets_unordered sock expected label =
     bind (fold_each expected (\<lambda>_ remaining.
       bind (read_packet sock) (\<lambda>actual.
         if actual \<in> set remaining then Ret (remove1 actual remaining)
         else Raise (AssertionError (label @ '': unexpected '' @ hex actual @ '', remaining '' @
                join '', '' (map hex remaining)))))
       expected) (\<lambda>_. Ret ())"

section \<open>Frames\<close>

fun split_rl :: "nat \<Rightarrow> bytes \<Rightarrow> (bytes \<times> bytes) option" where
  "split_rl 0 bs = None"
| "split_rl (Suc n) [] = None"
| "split_rl (Suc n) (b # bs) =
     (if b AND 0x80 = 0 then Some ([b], bs)
      else map_option (\<lambda>(rl, rest). (b # rl, rest)) (split_rl n bs))"

fun rl_val :: "bytes \<Rightarrow> nat" where
  "rl_val [] = 0"
| "rl_val (b # bs) = unat (b AND 0x7F) + 128 * rl_val bs"

definition frame :: "bytes \<Rightarrow> bool" where
  "frame p = (case p of [] \<Rightarrow> False | f # bs \<Rightarrow>
     (case split_rl 4 bs of None \<Rightarrow> False | Some (rl, pl) \<Rightarrow> length pl = rl_val rl))"

text \<open>\<open>rl_bytes n rl\<close>: \<open>rl\<close> is a complete Remaining Length of at most \<open>n\<close> bytes.\<close>

fun rl_bytes :: "nat \<Rightarrow> bytes \<Rightarrow> bool" where
  "rl_bytes 0 rl = False"
| "rl_bytes (Suc n) [] = False"
| "rl_bytes (Suc n) (b # bs) = (if b AND 0x80 = 0 then bs = [] else rl_bytes n bs)"

text \<open>\<open>incomplete q\<close>: \<open>q\<close> is a strict prefix of a frame; the reader then waits for
  \<open>want q\<close> bytes.\<close>

definition conts :: "bytes \<Rightarrow> bool" where
  "conts bs \<longleftrightarrow> (\<forall>b \<in> set bs. b AND 0x80 \<noteq> 0)"

definition incomplete :: "bytes \<Rightarrow> bool" where
  "incomplete q = (case q of [] \<Rightarrow> True | f # bs \<Rightarrow>
     (case split_rl 4 bs of None \<Rightarrow> conts bs \<and> length bs < 4 | Some (rl, pl) \<Rightarrow> length pl < rl_val rl))"

definition want :: "bytes \<Rightarrow> nat" where
  "want q = (case q of [] \<Rightarrow> 1 | f # bs \<Rightarrow>
     (case split_rl 4 bs of None \<Rightarrow> 1 | Some (rl, pl) \<Rightarrow> rl_val rl - length pl))"

text \<open>Receiving the frame \<open>bs\<close>; some frame with a property; frames in some order.\<close>

definition rx :: "sock \<Rightarrow> bytes \<Rightarrow> lang" where
  "rx s bs = onlyif (frame bs) (exactly (map (Rx s) bs))"

definition rx_where :: "sock \<Rightarrow> (bytes \<Rightarrow> bool) \<Rightarrow> lang" where
  "rx_where s P = some (\<lambda>bs. onlyif (P bs) (rx s bs))"

definition rx_perm :: "sock \<Rightarrow> bytes list \<Rightarrow> lang" where
  "rx_perm s es = (\<lambda>t. \<exists>ps. mset ps = mset es \<and> (\<forall>p \<in> set ps. frame p) \<and> t = map (Rx s) (concat ps))"

section \<open>Exact reads\<close>

lemma exec_recv_loop_ok:
  "length res \<le> wanted \<Longrightarrow>
   exec (recv_loop s wanted res) t (Inr bs) \<longleftrightarrow>
     (\<exists>ps. bs = res @ ps \<and> length bs = wanted \<and> t = map (Rx s) ps)"
proof (induction s wanted res arbitrary: t rule: recv_loop.induct)
  case (1 s wanted res)
  show ?case
  proof (cases "length res < wanted")
    case False
    with "1.prems" show ?thesis by (subst recv_loop.simps) auto
  next
    case True
    have step: "exec (recv_loop s wanted res) t (Inr bs) \<longleftrightarrow>
        (\<exists>part v. part \<noteq> [] \<and> length part \<le> wanted - length res \<and> t = map (Rx s) part @ v \<and>
          exec (recv_loop s wanted (res @ part)) v (Inr bs))"
      using True by (subst recv_loop.simps) (auto simp: exec_bind_iff exec_recv split: if_splits)
    have IH: "exec (recv_loop s wanted (res @ part)) v (Inr bs) \<longleftrightarrow>
        (\<exists>ps. bs = res @ part @ ps \<and> length bs = wanted \<and> v = map (Rx s) ps)"
      if "part \<noteq> []" "length part \<le> wanted - length res" for part v
      using "1.IH" [OF True that(1)] that True by simp
    note step
    also have "(\<exists>part v. part \<noteq> [] \<and> length part \<le> wanted - length res \<and> t = map (Rx s) part @ v \<and>
          exec (recv_loop s wanted (res @ part)) v (Inr bs)) \<longleftrightarrow>
        (\<exists>part ps. part \<noteq> [] \<and> length part \<le> wanted - length res \<and>
          bs = res @ part @ ps \<and> length bs = wanted \<and> t = map (Rx s) (part @ ps))"
      by (simp add: IH cong: conj_cong) blast
    also have "\<dots> \<longleftrightarrow> (\<exists>ps. bs = res @ ps \<and> length bs = wanted \<and> t = map (Rx s) ps)"
    proof (rule iffI; elim exE conjE)
      fix ps assume ps: "bs = res @ ps" "length bs = wanted" "t = map (Rx s) ps"
      with True show "\<exists>part ps. part \<noteq> [] \<and> length part \<le> wanted - length res \<and>
          bs = res @ part @ ps \<and> length bs = wanted \<and> t = map (Rx s) (part @ ps)"
        by (intro exI [of _ ps] exI [of _ "[]"]) auto
    qed auto
    finally show ?thesis .
  qed
qed

lemma exec_recv_exact_ok [exec_simps]:
  "exec (recv_exact s n) t (Inr bs) \<longleftrightarrow> length bs = n \<and> t = map (Rx s) bs"
  by (auto simp: recv_exact_def exec_recv_loop_ok)

abbreviation closed_early :: exn where
  "closed_early \<equiv> AssertionError ''broker closed before complete packet''"

abbreviation malformed_length :: exn where
  "malformed_length \<equiv> AssertionError ''malformed MQTT Remaining Length''"

text \<open>How a \<^verbatim>\<open>recv(n)\<close> ends an exact read: the stream ends, or the call raises.\<close>

definition read_fails :: "sock \<Rightarrow> nat \<Rightarrow> exn \<Rightarrow> obs \<Rightarrow> bool" where
  "read_fails s n e x \<longleftrightarrow> e = closed_early \<and> x = Eof s \<or> is_os_error e \<and> x = Failed (Recv s n) e"

lemma exec_recv_loop_err:
  "exec (recv_loop s wanted res) t (Inl e) \<longleftrightarrow>
     (\<exists>ps x. length res + length ps < wanted \<and> read_fails s (wanted - length res - length ps) e x \<and>
       t = map (Rx s) ps @ [x])"
proof (induction s wanted res arbitrary: t rule: recv_loop.induct)
  case (1 s wanted res)
  show ?case
  proof (cases "length res < wanted")
    case False
    then show ?thesis by (subst recv_loop.simps) auto
  next
    case True
    have step: "exec (recv_loop s wanted res) t (Inl e) \<longleftrightarrow>
        (\<exists>x. read_fails s (wanted - length res) e x \<and> t = [x]) \<or>
        (\<exists>part v. part \<noteq> [] \<and> length part \<le> wanted - length res \<and> t = map (Rx s) part @ v \<and>
          exec (recv_loop s wanted (res @ part)) v (Inl e))"
      using True
      by (subst recv_loop.simps) (auto simp: exec_bind_iff exec_recv read_fails_def split: if_splits)
    have IH: "exec (recv_loop s wanted (res @ part)) v (Inl e) \<longleftrightarrow>
        (\<exists>ps x. length res + length (part @ ps) < wanted \<and>
          read_fails s (wanted - length res - length (part @ ps)) e x \<and> v = map (Rx s) ps @ [x])"
      if "part \<noteq> []" for part v
      using "1.IH" [OF True that] by (simp add: add.assoc diff_diff_left)
    show ?thesis (is "_ = ?rhs")
    proof
      assume "exec (recv_loop s wanted res) t (Inl e)"
      with step consider x where "read_fails s (wanted - length res) e x" "t = [x]"
        | part v where "part \<noteq> []" "t = map (Rx s) part @ v"
            "exec (recv_loop s wanted (res @ part)) v (Inl e)" by blast
      then show ?rhs
      proof cases
        case 1
        with True show ?thesis by (intro exI [of _ "[]"] exI [of _ x]) simp
      next
        case 2
        with IH obtain ps x where ps: "length res + length (part @ ps) < wanted"
          "read_fails s (wanted - length res - length (part @ ps)) e x" "v = map (Rx s) ps @ [x]"
          by blast
        with 2 show ?thesis by (intro exI [of _ "part @ ps"] exI [of _ x]) simp
      qed
    next
      assume ?rhs
      then obtain ps x where ps: "length res + length ps < wanted"
        "read_fails s (wanted - length res - length ps) e x" "t = map (Rx s) ps @ [x]" by blast
      show "exec (recv_loop s wanted res) t (Inl e)"
      proof (cases "ps = []")
        case True
        with ps step show ?thesis by auto
      next
        case False
        with ps have "exec (recv_loop s wanted (res @ ps)) [x] (Inl e)"
          unfolding IH [OF False] by (intro exI [of _ "[]"] exI [of _ x]) simp
        with False ps step show ?thesis by auto
      qed
    qed
  qed
qed

lemma exec_recv_exact_err [exec_simps]:
  "exec (recv_exact s n) t (Inl e) \<longleftrightarrow>
     (\<exists>ps x. length ps < n \<and> read_fails s (n - length ps) e x \<and> t = map (Rx s) ps @ [x])"
  by (simp add: recv_exact_def exec_recv_loop_err)

section \<open>Reading one frame\<close>

lemma exec_recv_byte:
  "exec (bind (recv_exact s 1) (\<lambda>bs. bind (item bs 0) F)) t r \<longleftrightarrow>
     (\<exists>e x. read_fails s 1 e x \<and> t = [x] \<and> r = Inl e) \<or> (\<exists>b v. t = Rx s b # v \<and> exec (F b) v r)"
proof -
  have okay: "exec (recv_exact s 1) u (Inr bs) \<longleftrightarrow> (\<exists>b. bs = [b] \<and> u = [Rx s b])" for u bs
    by (auto simp: exec_recv_exact_ok length_Suc_conv)
  have err: "exec (recv_exact s 1) u (Inl e) \<longleftrightarrow> (\<exists>x. read_fails s 1 e x \<and> u = [x])" for u e
    by (auto simp: exec_recv_exact_err)
  have "(\<exists>u v x. t = u @ v \<and> (\<exists>b. x = [b] \<and> u = [Rx s b]) \<and> exec (bind (item x 0) F) v r) \<longleftrightarrow>
      (\<exists>b v. t = [Rx s b] @ v \<and> exec (bind (item [b] 0) F) v r)"
    by blast
  then show ?thesis
    unfolding exec_bind_iff [of "recv_exact s 1" _ t r] okay err by (auto simp: item_def)
qed

lemma exec_read_remaining_step:
  "exec (read_remaining s k rb rem) t r \<longleftrightarrow>
     (\<exists>e x. read_fails s 1 e x \<and> t = [x] \<and> r = Inl e) \<or>
     (\<exists>b v. t = Rx s b # v \<and>
       (if b AND 0x80 = 0 then v = [] \<and> r = Inr (rb @ [b], rem + unat (b AND 0x7F) * 128 ^ k)
        else if 3 \<le> k then v = [] \<and> r = Inl malformed_length
        else exec (read_remaining s (Suc k) (rb @ [b]) (rem + unat (b AND 0x7F) * 128 ^ k)) v r))"
proof -
  have bound: "(128 * 128 * 128 :: nat) < 128 ^ Suc k \<longleftrightarrow> 3 \<le> k"
    using multiplier_bound [of k] by auto
  show ?thesis
    unfolding read_remaining.simps [of s k rb rem] exec_recv_byte bound Let_def
    by (intro disj_cong refl ex_cong1 conj_cong) auto
qed

lemma rl_bytes_Cons:
  "k < 4 \<Longrightarrow> rl_bytes (4 - k) (b # bs) \<longleftrightarrow>
     (if b AND 0x80 = 0 then bs = [] else k < 3 \<and> rl_bytes (4 - Suc k) bs)"
proof -
  assume "k < 4"
  then have "4 - k = Suc (3 - k)" by simp
  then show ?thesis by (cases "k < 3") auto
qed

lemma rl_bytes_not_Nil [simp]: "\<not> rl_bytes n []"
  by (cases n) auto

lemma exec_read_remaining_ok:
  "k < 4 \<Longrightarrow> exec (read_remaining s k rb rem) t (Inr (rl, v)) \<longleftrightarrow>
     (\<exists>bs. rl_bytes (4 - k) bs \<and> rl = rb @ bs \<and> v = rem + 128 ^ k * rl_val bs \<and> t = map (Rx s) bs)"
proof (induction "4 - k" arbitrary: k rb rem t)
  case 0
  then show ?case by simp
next
  case (Suc n)
  have ex_Cons: "(\<exists>bs. rl_bytes (4 - k) bs \<and> Q bs) \<longleftrightarrow> (\<exists>b bs. rl_bytes (4 - k) (b # bs) \<and> Q (b # bs))"
    for Q by (metis neq_Nil_conv rl_bytes_not_Nil)
  have IH: "exec (read_remaining s (Suc k) (rb @ [b]) (rem + unat (b AND 127) * 128 ^ k)) w (Inr (rl, v)) \<longleftrightarrow>
      (\<exists>bs. rl_bytes (4 - Suc k) bs \<and> rl = rb @ b # bs \<and>
        v = rem + unat (b AND 127) * 128 ^ k + 128 ^ Suc k * rl_val bs \<and> w = map (Rx s) bs)"
    if "k < 3" for b w
    using Suc.hyps(1) [of "Suc k" "rb @ [b]" "rem + unat (b AND 127) * 128 ^ k" w] Suc.hyps(2) that
    by simp
  have byte: "(if b AND 128 = 0 then w = [] \<and> Inr (rl, v) = Inr (rb @ [b], rem + unat (b AND 127) * 128 ^ k)
        else if 3 \<le> k then w = [] \<and> Inr (rl, v) = Inl malformed_length
        else exec (read_remaining s (Suc k) (rb @ [b]) (rem + unat (b AND 127) * 128 ^ k)) w (Inr (rl, v)))
      \<longleftrightarrow> (\<exists>bs. rl_bytes (4 - k) (b # bs) \<and> rl = rb @ b # bs \<and>
            v = rem + 128 ^ k * rl_val (b # bs) \<and> w = map (Rx s) bs)" for b w
  proof -
    have "rem + 128 ^ k * rl_val (b # bs) = rem + unat (b AND 127) * 128 ^ k + 128 ^ Suc k * rl_val bs"
      for bs by (simp add: algebra_simps)
    then show ?thesis
      by (cases "b AND 128 = 0"; cases "k < 3")
         (auto simp: rl_bytes_Cons [OF Suc.prems] IH simp del: rl_val.simps, auto)
  qed
  show ?case
    unfolding exec_read_remaining_step [of s k] byte ex_Cons by auto
qed

lemma split_rl_iff: "split_rl n bs = Some (rl, pl) \<longleftrightarrow> rl_bytes n rl \<and> bs = rl @ pl"
proof (induction n bs arbitrary: rl rule: split_rl.induct)
  case (3 n b bs)
  then show ?case by (cases rl) auto
qed auto

lemma split_rl_None: "split_rl n bs = None \<longleftrightarrow> conts (take n bs)"
  by (induction n bs rule: split_rl.induct) (auto simp: conts_def)

lemma frame_iff:
  "frame p \<longleftrightarrow> (\<exists>f rl pl. p = f # rl @ pl \<and> rl_bytes 4 rl \<and> length pl = rl_val rl)"
proof (cases p)
  case (Cons f bs)
  then have "frame p \<longleftrightarrow> (\<exists>rl pl. split_rl 4 bs = Some (rl, pl) \<and> length pl = rl_val rl)"
    by (auto simp: frame_def split: option.splits)
  with Cons show ?thesis by (simp add: split_rl_iff) blast
qed (simp add: frame_def)

lemma ok_recv_exact: "ok (recv_exact s n) bs = onlyif (length bs = n) (exactly (map (Rx s) bs))"
  by (auto simp: ok_def onlyif_def exactly_def exec_recv_exact_ok)

lemma ok_read_remaining:
  "ok (read_remaining s 0 [] 0) x =
     onlyif (rl_bytes 4 (fst x) \<and> snd x = rl_val (fst x)) (exactly (map (Rx s) (fst x)))"
  by (cases x) (auto simp: ok_def onlyif_def exactly_def exec_read_remaining_ok)

lemma exec_read_packet_ok [exec_simps]:
  "exec (read_packet s) t (Inr p) \<longleftrightarrow> frame p \<and> t = map (Rx s) p"
proof -
  have "exec (read_packet s) t (Inr p) \<longleftrightarrow> ok (read_packet s) p t"
    by (simp add: ok_def)
  also have "\<dots> \<longleftrightarrow> (\<exists>fx rl pl. length fx = 1 \<and> rl_bytes 4 rl \<and> length pl = rl_val rl \<and>
      p = fx @ rl @ pl \<and> t = map (Rx s) (fx @ rl @ pl))"
    by (simp add: read_packet_def lang_simps cat_some_right ok_recv_exact ok_read_remaining case_prod_unfold)
       (auto simp: some_def onlyif_def exactly_def)
  also have "\<dots> \<longleftrightarrow> (\<exists>f rl pl. rl_bytes 4 rl \<and> length pl = rl_val rl \<and>
      p = [f] @ rl @ pl \<and> t = map (Rx s) ([f] @ rl @ pl))"
    by (rule ex_length_1)
  also have "\<dots> \<longleftrightarrow> frame p \<and> t = map (Rx s) p"
    by (auto simp: frame_iff) blast
  finally show ?thesis .
qed

lemma exec_read_remaining_err:
  "k < 4 \<Longrightarrow> exec (read_remaining s k rb rem) t (Inl e) \<longleftrightarrow>
     (\<exists>bs x. conts bs \<and> length bs < 4 - k \<and> read_fails s 1 e x \<and> t = map (Rx s) bs @ [x]) \<or>
     (\<exists>bs. conts bs \<and> length bs = 4 - k \<and> e = malformed_length \<and> t = map (Rx s) bs)"
proof (induction "4 - k" arbitrary: k rb rem t)
  case 0
  then show ?case by simp
next
  case (Suc n)
  define A where "A k t \<longleftrightarrow>
    (\<exists>bs x. conts bs \<and> length bs < 4 - k \<and> read_fails s 1 e x \<and> t = map (Rx s) bs @ [x])" for k t
  define B where "B k t \<longleftrightarrow>
    (\<exists>bs. conts bs \<and> length bs = 4 - k \<and> e = malformed_length \<and> t = map (Rx s) bs)" for k t
  have ex_list: "(\<exists>bs. P bs) \<longleftrightarrow> P [] \<or> (\<exists>b bs. P (b # bs))" for P :: "bytes \<Rightarrow> bool"
    by (metis list.exhaust)
  have four: "4 - k = Suc (3 - k)" using Suc.prems by simp
  have A: "A k t \<longleftrightarrow> (\<exists>x. read_fails s 1 e x \<and> t = [x]) \<or>
      (\<exists>b v. t = Rx s b # v \<and> b AND 0x80 \<noteq> 0 \<and> k < 3 \<and> A (Suc k) v)"
    unfolding A_def four by (subst ex_list) (auto simp: conts_def, blast)
  have B: "B k t \<longleftrightarrow> (\<exists>b v. t = Rx s b # v \<and> b AND 0x80 \<noteq> 0 \<and>
      (if 3 \<le> k then v = [] \<and> e = malformed_length else B (Suc k) v))"
    unfolding B_def four by (subst ex_list) (cases "3 \<le> k", auto simp: conts_def)
  have IH: "exec (read_remaining s (Suc k) rb' rem') w (Inl e) \<longleftrightarrow> A (Suc k) w \<or> B (Suc k) w"
    if "k < 3" for rb' rem' w
    using Suc.hyps(1) [of "Suc k" rb' rem' w] Suc.hyps(2) that by (simp add: A_def B_def)
  have "exec (read_remaining s k rb rem) t (Inl e) \<longleftrightarrow> A k t \<or> B k t"
    unfolding exec_read_remaining_step [of s k] A B by (auto simp: IH not_le split: if_splits)
  then show ?case by (simp add: A_def B_def)
qed

text \<open>Errors of \<^verbatim>\<open>read_packet\<close>: four continuation bytes, or a read that ends inside a frame.\<close>

lemma incomplete_iff:
  "incomplete q \<longleftrightarrow> q = [] \<or> (\<exists>f bs. q = f # bs \<and> conts bs \<and> length bs < 4) \<or>
     (\<exists>f rl pl. q = f # rl @ pl \<and> rl_bytes 4 rl \<and> length pl < rl_val rl)"
proof (cases q)
  case (Cons f bs)
  then have "incomplete q \<longleftrightarrow> (split_rl 4 bs = None \<and> conts bs \<and> length bs < 4) \<or>
      (\<exists>rl pl. split_rl 4 bs = Some (rl, pl) \<and> length pl < rl_val rl)"
    by (auto simp: incomplete_def split: option.splits)
  also have "split_rl 4 bs = None \<and> conts bs \<and> length bs < 4 \<longleftrightarrow> conts bs \<and> length bs < 4"
    using split_rl_None [of 4 bs] by auto
  finally have "incomplete q \<longleftrightarrow> (conts bs \<and> length bs < 4) \<or>
      (\<exists>rl pl. (rl_bytes 4 rl \<and> bs = rl @ pl) \<and> length pl < rl_val rl)"
    by (simp only: split_rl_iff)
  with Cons show ?thesis by (simp, metis)
qed (simp add: incomplete_def)

lemma ex_incomplete:
  "(\<exists>q. incomplete q \<and> P q) \<longleftrightarrow> P [] \<or> (\<exists>f bs. conts bs \<and> length bs < 4 \<and> P (f # bs)) \<or>
     (\<exists>f rl pl. rl_bytes 4 rl \<and> length pl < rl_val rl \<and> P (f # rl @ pl))"
  unfolding incomplete_iff conj_disj_distribR ex_disj_distrib by (intro disj_cong; fast)

lemma want_simps:
  "want [] = 1"
  "conts bs \<Longrightarrow> length bs < 4 \<Longrightarrow> want (f # bs) = 1"
  "rl_bytes 4 rl \<Longrightarrow> want (f # rl @ pl) = rl_val rl - length pl"
proof -
  show "conts bs \<Longrightarrow> length bs < 4 \<Longrightarrow> want (f # bs) = 1"
    using split_rl_None [of 4 bs] by (simp add: want_def)
  assume "rl_bytes 4 rl"
  then have "split_rl 4 (rl @ pl) = Some (rl, pl)" by (simp add: split_rl_iff)
  then show "want (f # rl @ pl) = rl_val rl - length pl" by (simp add: want_def)
qed (simp add: want_def)

lemma exec_read_packet_err [exec_simps]:
  "exec (read_packet s) t (Inl e) \<longleftrightarrow>
     (\<exists>f bs. conts bs \<and> length bs = 4 \<and> e = malformed_length \<and> t = map (Rx s) (f # bs)) \<or>
     (\<exists>q x. incomplete q \<and> read_fails s (want q) e x \<and> t = map (Rx s) q @ [x])"
  (is "_ \<longleftrightarrow> ?bad \<or> ?cut")
proof -
  define rest where "rest = (\<lambda>fixed. bind (read_remaining s 0 [] 0) (\<lambda>(remaining_bytes, remaining).
     bind (recv_exact s remaining) (\<lambda>payload. Ret (fixed @ remaining_bytes @ payload))))"
  have payload: "exec (bind (recv_exact s n) (\<lambda>payload. Ret (g payload))) v (Inl e) \<longleftrightarrow>
      (\<exists>pl x. length pl < n \<and> read_fails s (n - length pl) e x \<and> v = map (Rx s) pl @ [x])" for n g v
    by (auto simp: exec_bind_iff exec_recv_exact_err)
  have rest: "exec (rest fixed) v (Inl e) \<longleftrightarrow>
      (\<exists>bs. conts bs \<and> length bs = 4 \<and> e = malformed_length \<and> v = map (Rx s) bs) \<or>
      (\<exists>bs x. conts bs \<and> length bs < 4 \<and> read_fails s 1 e x \<and> v = map (Rx s) bs @ [x]) \<or>
      (\<exists>rl pl x. rl_bytes 4 rl \<and> length pl < rl_val rl \<and> read_fails s (rl_val rl - length pl) e x \<and>
        v = map (Rx s) (rl @ pl) @ [x])" for fixed v
  proof -
    have "exec (rest fixed) v (Inl e) \<longleftrightarrow>
        (\<exists>u w rl n. v = u @ w \<and> exec (read_remaining s 0 [] 0) u (Inr (rl, n)) \<and>
          (\<exists>pl x. length pl < n \<and> read_fails s (n - length pl) e x \<and> w = map (Rx s) pl @ [x])) \<or>
        exec (read_remaining s 0 [] 0) v (Inl e)"
      unfolding rest_def exec_bind_iff [of "read_remaining s 0 [] 0"] by (simp add: payload)
    also have "(\<exists>u w rl n. v = u @ w \<and> exec (read_remaining s 0 [] 0) u (Inr (rl, n)) \<and>
          (\<exists>pl x. length pl < n \<and> read_fails s (n - length pl) e x \<and> w = map (Rx s) pl @ [x])) \<longleftrightarrow>
        (\<exists>rl pl x. rl_bytes 4 rl \<and> length pl < rl_val rl \<and> read_fails s (rl_val rl - length pl) e x \<and>
          v = map (Rx s) (rl @ pl) @ [x])"
      by (simp add: exec_read_remaining_ok) blast
    finally show ?thesis by (auto simp: exec_read_remaining_err)
  qed
  have first: "exec (recv_exact s 1) u (Inr fx) \<longleftrightarrow> (\<exists>f. fx = [f] \<and> u = [Rx s f])"
    "exec (recv_exact s 1) u (Inl e') \<longleftrightarrow> (\<exists>x. read_fails s 1 e' x \<and> u = [x])" for u fx e'
    by (auto simp: exec_recv_exact_ok exec_recv_exact_err length_Suc_conv)
  have "(\<exists>u v fx. t = u @ v \<and> (\<exists>f. fx = [f] \<and> u = [Rx s f]) \<and> exec (rest fx) v (Inl e)) \<longleftrightarrow>
      (\<exists>f v. t = [Rx s f] @ v \<and> exec (rest [f]) v (Inl e))"
    by blast
  then have "exec (read_packet s) t (Inl e) \<longleftrightarrow>
      (\<exists>x. read_fails s 1 e x \<and> t = [x]) \<or> (\<exists>f v. t = Rx s f # v \<and> exec (rest [f]) v (Inl e))"
    unfolding read_packet_def rest_def [symmetric] exec_bind_iff [of "recv_exact s 1"] first by auto
  also have "\<dots> \<longleftrightarrow> (\<exists>x. read_fails s 1 e x \<and> t = [x]) \<or> ?bad \<or>
      (\<exists>f bs x. conts bs \<and> length bs < 4 \<and> read_fails s 1 e x \<and> t = map (Rx s) (f # bs) @ [x]) \<or>
      (\<exists>f rl pl x. rl_bytes 4 rl \<and> length pl < rl_val rl \<and> read_fails s (rl_val rl - length pl) e x \<and>
        t = map (Rx s) (f # rl @ pl) @ [x])"
  proof -
    have "(\<exists>v. t = Rx s f # v \<and> exec (rest [f]) v (Inl e)) \<longleftrightarrow>
        (\<exists>bs. conts bs \<and> length bs = 4 \<and> e = malformed_length \<and> t = map (Rx s) (f # bs)) \<or>
        (\<exists>bs x. conts bs \<and> length bs < 4 \<and> read_fails s 1 e x \<and> t = map (Rx s) (f # bs) @ [x]) \<or>
        (\<exists>rl pl x. rl_bytes 4 rl \<and> length pl < rl_val rl \<and> read_fails s (rl_val rl - length pl) e x \<and>
          t = map (Rx s) (f # rl @ pl) @ [x])" for f
      unfolding rest by (simp only: list.map append_Cons) blast
    then show ?thesis by (simp only: ex_disj_distrib)
  qed
  also have "\<dots> \<longleftrightarrow> ?bad \<or> ?cut"
  proof -
    have "?cut \<longleftrightarrow> (\<exists>q. incomplete q \<and> (\<exists>x. read_fails s (want q) e x \<and> t = map (Rx s) q @ [x]))"
      by blast
    also have "\<dots> \<longleftrightarrow> (\<exists>x. read_fails s 1 e x \<and> t = [x]) \<or>
      (\<exists>f bs x. conts bs \<and> length bs < 4 \<and> read_fails s 1 e x \<and> t = map (Rx s) (f # bs) @ [x]) \<or>
      (\<exists>f rl pl x. rl_bytes 4 rl \<and> length pl < rl_val rl \<and> read_fails s (rl_val rl - length pl) e x \<and>
        t = map (Rx s) (f # rl @ pl) @ [x])"
      unfolding ex_incomplete by (simp add: want_simps cong: conj_cong)
    finally show ?thesis by blast
  qed
  finally show ?thesis .
qed

text \<open>Frames are prefix free, so a stream has at most one reading as a sequence of packets.\<close>

lemma rl_bytes_append: "rl_bytes n rl \<Longrightarrow> rl_bytes n rl' \<Longrightarrow> rl @ xs = rl' @ ys \<Longrightarrow> rl = rl' \<and> xs = ys"
  by (metis option.inject prod.inject split_rl_iff)

lemma frame_prefix_free:
  assumes "frame p" "frame q" "p @ xs = q @ ys"
  shows "p = q \<and> xs = ys"
proof -
  obtain f rl pl where p: "p = f # rl @ pl" "rl_bytes 4 rl" "length pl = rl_val rl"
    using assms(1) by (auto simp: frame_iff)
  obtain g rl' pl' where q: "q = g # rl' @ pl'" "rl_bytes 4 rl'" "length pl' = rl_val rl'"
    using assms(2) by (auto simp: frame_iff)
  from assms(3) p(1) q(1) have eq: "f = g" "rl @ pl @ xs = rl' @ pl' @ ys" by auto
  with p(2) q(2) have "rl = rl'" "pl @ xs = pl' @ ys" using rl_bytes_append by blast+
  with p(3) q(3) eq p(1) q(1) show ?thesis by auto
qed

lemma frames_unique:
  "\<forall>p \<in> set ps. frame p \<Longrightarrow> \<forall>q \<in> set qs. frame q \<Longrightarrow> concat ps = concat qs \<Longrightarrow> ps = qs"
proof (induction ps arbitrary: qs)
  case Nil
  then have "\<forall>q \<in> set qs. q = [] \<and> frame q" by auto
  then show ?case by (cases qs) (auto simp: frame_def)
next
  case (Cons p ps)
  then obtain q qs' where qs: "qs = q # qs'"
    by (cases qs) (auto simp: frame_def)
  with Cons.prems have "p = q \<and> concat ps = concat qs'"
    by (intro frame_prefix_free) auto
  moreover from this Cons.prems qs have "ps = qs'" by (intro Cons.IH) simp_all
  ultimately show ?case using qs by simp
qed

lemma frame_length: "frame p \<Longrightarrow> 2 \<le> length p"
proof -
  assume "frame p"
  then obtain f rl pl where "p = f # rl @ pl" "rl_bytes 4 rl" by (auto simp: frame_iff)
  then show ?thesis by (cases rl) auto
qed

section \<open>Expectations\<close>

lemma ok_read_packet [lang_simps]:
  "ok (read_packet s) p = rx s p"
  by (auto simp: ok_def rx_def onlyif_def exactly_def exec_read_packet_ok)

lemma exec_expect_packet_ok:
  "exec (expect_packet s ex label) t (Inr u) \<longleftrightarrow> frame ex \<and> t = map (Rx s) ex"
  by (auto simp: expect_packet_def exec_bind_iff exec_read_packet_ok split: if_splits)

lemma ok_expect_packet [lang_simps]:
  "ok (expect_packet s ex label) u = rx s ex"
  by (auto simp: ok_def rx_def onlyif_def exactly_def exec_expect_packet_ok)

lemma exec_expect_packet_err:
  "exec (expect_packet s ex label) t (Inl e) \<longleftrightarrow>
     (\<exists>p. frame p \<and> p \<noteq> ex \<and> t = map (Rx s) p \<and>
        e = AssertionError (label @ '': expected '' @ hex ex @ '', received '' @ hex p)) \<or>
     exec (read_packet s) t (Inl e)"
  by (auto simp: expect_packet_def exec_bind_iff exec_read_packet_ok split: if_splits)

lemma exec_expect_fold_ok:
  "exec (fold_each xs (\<lambda>_ remaining. bind (read_packet s) (\<lambda>actual.
       if actual \<in> set remaining then Ret (remove1 actual remaining) else Raise (err actual remaining)))
     rem) t (Inr rem') \<longleftrightarrow>
   (\<exists>ps. length ps = length xs \<and> (\<forall>p \<in> set ps. frame p) \<and> mset ps \<subseteq># mset rem \<and>
     rem' = fold remove1 ps rem \<and> t = map (Rx s) (concat ps))"
proof (induction xs arbitrary: rem t)
  case Nil
  then show ?case by auto
next
  case (Cons x xs)
  have sub: "p \<in> set rem \<and> mset ps \<subseteq># mset (remove1 p rem) \<longleftrightarrow> mset (p # ps) \<subseteq># mset rem" for p ps
    by (simp add: insert_subset_eq_iff)
  define body where "body = (\<lambda>remaining. bind (read_packet s) (\<lambda>actual.
     if actual \<in> set remaining then Ret (remove1 actual remaining) else Raise (err actual remaining)))"
  have body: "exec (body rem) u (Inr rem1) \<longleftrightarrow>
      (\<exists>p. frame p \<and> p \<in> set rem \<and> rem1 = remove1 p rem \<and> u = map (Rx s) p)" for u rem1
    by (auto simp: body_def exec_bind_iff exec_read_packet_ok split: if_splits)
  have "exec (fold_each (x # xs) (\<lambda>_. body) rem) t (Inr rem') \<longleftrightarrow>
      (\<exists>u v rem1. t = u @ v \<and> exec (body rem) u (Inr rem1) \<and> exec (fold_each xs (\<lambda>_. body) rem1) v (Inr rem'))"
    by (simp add: exec_bind_iff)
  also have "\<dots> \<longleftrightarrow> (\<exists>p ps. (frame p \<and> p \<in> set rem) \<and> length ps = length xs \<and> (\<forall>p \<in> set ps. frame p) \<and>
      mset ps \<subseteq># mset (remove1 p rem) \<and> rem' = fold remove1 ps (remove1 p rem) \<and>
      t = map (Rx s) p @ map (Rx s) (concat ps))"
    unfolding body Cons.IH [folded body_def] by fast
  also have "\<dots> \<longleftrightarrow> (\<exists>p ps. length (p # ps) = length (x # xs) \<and> (\<forall>p \<in> set (p # ps). frame p) \<and>
      mset (p # ps) \<subseteq># mset rem \<and> rem' = fold remove1 (p # ps) rem \<and> t = map (Rx s) (concat (p # ps)))"
    unfolding sub [symmetric] by (intro ex_cong1) auto
  also have "\<dots> \<longleftrightarrow> (\<exists>ps. length ps = length (x # xs) \<and> (\<forall>p \<in> set ps. frame p) \<and> mset ps \<subseteq># mset rem \<and>
      rem' = fold remove1 ps rem \<and> t = map (Rx s) (concat ps))"
  proof -
    have "(\<exists>ps. length ps = length (x # xs) \<and> Q ps) \<longleftrightarrow> (\<exists>p ps. length (p # ps) = length (x # xs) \<and> Q (p # ps))"
      for Q :: "bytes list \<Rightarrow> bool" by (metis length_Suc_conv length_Cons)
    then show ?thesis by simp
  qed
  finally show ?case by (simp only: body_def)
qed

lemma exec_expect_unordered_ok:
  "exec (expect_packets_unordered s es label) t (Inr u) \<longleftrightarrow>
     (\<exists>ps. mset ps = mset es \<and> (\<forall>p \<in> set ps. frame p) \<and> t = map (Rx s) (concat ps))"
proof -
  have "exec (expect_packets_unordered s es label) t (Inr u) \<longleftrightarrow>
      (\<exists>ps. length ps = length es \<and> (\<forall>p \<in> set ps. frame p) \<and> mset ps \<subseteq># mset es \<and>
        t = map (Rx s) (concat ps))"
    by (simp add: expect_packets_unordered_def exec_bind_iff exec_expect_fold_ok)
  moreover have "length ps = length es \<and> mset ps \<subseteq># mset es \<longleftrightarrow> mset ps = mset es" for ps
  proof
    assume sub: "length ps = length es \<and> mset ps \<subseteq># mset es"
    have "\<not> mset ps \<subset># mset es"
      using mset_subset_size [of "mset ps" "mset es"] sub by auto
    with sub show "mset ps = mset es" by (auto simp: subset_mset_def)
  qed (auto dest: mset_eq_length)
  ultimately show ?thesis by metis
qed

lemma ok_expect_unordered [lang_simps]: "ok (expect_packets_unordered s es label) u = rx_perm s es"
  by (auto simp: ok_def rx_perm_def exec_expect_unordered_ok)

end
