(* ===== verification/Mosquitto.thy ===== *)
theory Mosquitto
  imports Wire
begin

text \<open>
  The packet generators of Mosquitto's test suite (modules \<^verbatim>\<open>mqtt_packets\<close>,
  \<^verbatim>\<open>mqtt5_props\<close>, \<^verbatim>\<open>mqtt5_rc\<close>, \<^verbatim>\<open>mqtt5_opts\<close>) are imported at run time from
  \<^verbatim>\<open>--mosquitto-test-root\<close> and are not part of the repository. They are parameters of the
  model: one record per module, with a field per function or constant the harness uses. A
  generator is a function of the arguments it is called with; a keyword argument that a call
  leaves out is \<^const>\<open>None\<close> in \<open>kwargs\<close>, so no default of Mosquitto's is guessed.
\<close>

datatype reason = Code nat | Codes "nat list"

record kwargs =
  k_clean_session :: "bool option"
  k_keepalive :: "nat option"
  k_session_expiry :: "nat option"
  k_will_topic :: "string option"
  k_will_payload :: "bytes option"
  k_will_properties :: "bytes option"
  k_proto_ver :: "nat option"
  k_properties :: "bytes option"
  k_property_helper :: "bool option"
  k_flags :: "nat option"
  k_rc :: "nat option"
  k_qos :: "nat option"
  k_mid :: "nat option"
  k_payload :: "string option option"
  k_retain :: "bool option"
  k_dup :: "bool option"
  k_reason_code :: "reason option"

definition no_kwargs :: kwargs where
  "no_kwargs = \<lparr>k_clean_session = None, k_keepalive = None, k_session_expiry = None,
     k_will_topic = None, k_will_payload = None, k_will_properties = None, k_proto_ver = None,
     k_properties = None, k_property_helper = None, k_flags = None, k_rc = None, k_qos = None,
     k_mid = None, k_payload = None, k_retain = None, k_dup = None, k_reason_code = None\<rparr>"

text \<open>\<^verbatim>\<open>proto_ver=5\<close>, which nearly every call passes, and \<^verbatim>\<open>proto_ver=4\<close>.\<close>

abbreviation v5 :: kwargs where
  "v5 \<equiv> no_kwargs\<lparr>k_proto_ver := Some 5\<rparr>"

abbreviation v4 :: kwargs where
  "v4 \<equiv> no_kwargs\<lparr>k_proto_ver := Some 4\<rparr>"

record mqtt_packets =
  gen_connect :: "string option \<Rightarrow> kwargs \<Rightarrow> bytes"
  gen_connack :: "kwargs \<Rightarrow> bytes"
  gen_publish :: "string \<Rightarrow> kwargs \<Rightarrow> bytes"
  gen_puback :: "nat \<Rightarrow> kwargs \<Rightarrow> bytes"
  gen_pubrec :: "nat \<Rightarrow> kwargs \<Rightarrow> bytes"
  gen_pubrel :: "nat \<Rightarrow> kwargs \<Rightarrow> bytes"
  gen_pubcomp :: "nat \<Rightarrow> kwargs \<Rightarrow> bytes"
  gen_subscribe :: "nat \<Rightarrow> string \<Rightarrow> nat \<Rightarrow> kwargs \<Rightarrow> bytes"
  gen_suback :: "nat \<Rightarrow> nat \<Rightarrow> kwargs \<Rightarrow> bytes"
  gen_unsubscribe :: "nat \<Rightarrow> string \<Rightarrow> kwargs \<Rightarrow> bytes"
  gen_unsubscribe_multiple :: "nat \<Rightarrow> string list \<Rightarrow> kwargs \<Rightarrow> bytes"
  gen_unsuback :: "nat \<Rightarrow> kwargs \<Rightarrow> bytes"
  gen_pingreq :: bytes
  gen_pingresp :: bytes
  gen_disconnect :: "kwargs \<Rightarrow> bytes"

record mqtt5_props =
  gen_byte_prop :: "nat \<Rightarrow> nat \<Rightarrow> bytes"
  gen_uint16_prop :: "nat \<Rightarrow> nat \<Rightarrow> bytes"
  gen_uint32_prop :: "nat \<Rightarrow> nat \<Rightarrow> bytes"
  gen_varint_prop :: "nat \<Rightarrow> nat \<Rightarrow> bytes"
  gen_string_prop :: "nat \<Rightarrow> string \<Rightarrow> bytes"
  gen_string_pair_prop :: "nat \<Rightarrow> string \<Rightarrow> string \<Rightarrow> bytes"
  PAYLOAD_FORMAT_INDICATOR :: nat
  MESSAGE_EXPIRY_INTERVAL :: nat
  CONTENT_TYPE :: nat
  RESPONSE_TOPIC :: nat
  CORRELATION_DATA :: nat
  SUBSCRIPTION_IDENTIFIER :: nat
  SESSION_EXPIRY_INTERVAL :: nat
  ASSIGNED_CLIENT_IDENTIFIER :: nat
  SERVER_KEEP_ALIVE :: nat
  WILL_DELAY_INTERVAL :: nat
  RECEIVE_MAXIMUM :: nat
  TOPIC_ALIAS_MAXIMUM :: nat
  TOPIC_ALIAS :: nat
  MAXIMUM_QOS :: nat
  RETAIN_AVAILABLE :: nat
  USER_PROPERTY :: nat
  MAXIMUM_PACKET_SIZE :: nat
  WILDCARD_SUB_AVAILABLE :: nat
  SUBSCRIPTION_ID_AVAILABLE :: nat
  SHARED_SUB_AVAILABLE :: nat

record mqtt5_rc =
  NO_MATCHING_SUBSCRIBERS :: nat
  SESSION_TAKEN_OVER :: nat
  RECEIVE_MAXIMUM_EXCEEDED :: nat
  TOPIC_ALIAS_INVALID :: nat
  PACKET_TOO_LARGE :: nat
  RETAIN_NOT_SUPPORTED :: nat
  QOS_NOT_SUPPORTED :: nat
  SHARED_SUBS_NOT_SUPPORTED :: nat
  SUBSCRIPTION_IDS_NOT_SUPPORTED :: nat
  WILDCARD_SUBS_NOT_SUPPORTED :: nat

record mqtt5_opts =
  MQTT_SUB_OPT_RETAIN_AS_PUBLISHED :: nat
  MQTT_SUB_OPT_SEND_RETAIN_ALWAYS :: nat
  MQTT_SUB_OPT_SEND_RETAIN_NEW :: nat
  MQTT_SUB_OPT_SEND_RETAIN_NEVER :: nat

text \<open>The keyword arguments of \<^verbatim>\<open>expected_connack\<close> and their defaults.\<close>

record connack_args =
  session_present :: bool
  maximum_packet_size :: nat
  topic_alias_maximum :: nat
  extra_properties :: bytes

definition connack_defaults :: connack_args where
  "connack_defaults = \<lparr>session_present = False, maximum_packet_size = 16 * 1024 * 1024,
     topic_alias_maximum = 16, extra_properties = []\<rparr>"

definition expected_connack :: "mqtt_packets \<Rightarrow> mqtt5_props \<Rightarrow> connack_args \<Rightarrow> bytes" where
  "expected_connack mp pr a =
     (let properties =
            gen_uint16_prop pr (RECEIVE_MAXIMUM pr) 64
            @ gen_uint32_prop pr (MAXIMUM_PACKET_SIZE pr) (maximum_packet_size a)
            @ gen_uint16_prop pr (TOPIC_ALIAS_MAXIMUM pr) (topic_alias_maximum a)
            @ extra_properties a
      in gen_connack mp (v5\<lparr>k_flags := Some (if session_present a then 1 else 0), k_rc := Some 0,
           k_properties := Some properties, k_property_helper := Some False\<rparr>))"

end
