(* ===== verification/Broker_Process.thy ===== *)
theory Broker_Process
  imports Wire
begin

text \<open>
  \<^verbatim>\<open>free_port\<close> and the context manager \<^verbatim>\<open>NetzBroker\<close>: the command line it starts, the
  start-up line it waits for, the connections it opens, and the three ways \<^verbatim>\<open>__exit__\<close>
  ends (a clean exit, a broker that has to be terminated, a broker that exits with an error).
  The interface of context managers is the locale \<open>context_manager\<close>; the client lemma is that a
  \<^verbatim>\<open>with\<close> statement releases what it acquired on every path, exceptions included.
\<close>

section \<open>The code\<close>

definition free_port :: "nat prog" where
  "free_port = with_mgr (sock_call NewSocket) (\<lambda>probe _. close probe) (\<lambda>probe.
     bind (unit_call (Bind probe ''127.0.0.1'' 0)) (\<lambda>_. port_call (GetSockPort probe)))"

record netz_broker =
  executable :: string
  connections :: nat
  ignore_errors :: bool
  extra_args :: "string list"
  port :: nat
  process :: "proc option"

definition NetzBroker :: "string \<Rightarrow> nat \<Rightarrow> bool \<Rightarrow> string list \<Rightarrow> netz_broker prog" where
  "NetzBroker exe conns ignore args =
     bind free_port (\<lambda>p. Ret \<lparr>executable = exe, connections = conns, ignore_errors = ignore,
       extra_args = args, port = p, process = None\<rparr>)"

definition command :: "netz_broker \<Rightarrow> string list" where
  "command self =
     [executable self,
      ''--bind=127.0.0.1:'' @ decimal (port self),
      ''--connections='' @ decimal (connections self),
      ''--max-queued-deliveries=1024'',
      ''--max-outgoing-inflight=64'',
      ''--no-restore''] @ extra_args self @
     (if ignore_errors self then [''--ignore-connection-errors''] else [])"

definition broker_enter :: "netz_broker \<Rightarrow> netz_broker prog" where
  "broker_enter self =
     bind (proc_call (Popen (command self))) (\<lambda>p.
     bind (text_call (ReadLine p)) (\<lambda>line.
       if \<not> contains ''listening'' line
       then Raise (RuntimeError (''netz broker failed to start: '' @ strip line))
       else Ret (self\<lparr>process := Some p\<rparr>)))"

definition broker_connect :: "netz_broker \<Rightarrow> sock prog" where
  "broker_connect self =
     bind (sock_call (CreateConnection ''127.0.0.1'' (port self) 5000)) (\<lambda>sock.
     bind (settimeout sock 5000) (\<lambda>_. Ret sock))"

definition broker_exit :: "netz_broker \<Rightarrow> exn option \<Rightarrow> unit prog" where
  "broker_exit self exc_type =
     (case process self of None \<Rightarrow> Raise (AssertionError '''') | Some p \<Rightarrow>
       bind (try_except (code_call (Wait p 5000)) (\<lambda>e. e = TimeoutExpired) (\<lambda>_.
         bind (unit_call (Terminate p)) (\<lambda>_.
         bind (code_call (Wait p 5000)) (\<lambda>returncode.
           if exc_type = None
           then Raise (RuntimeError ''netz broker did not exit after DISCONNECT'')
           else Ret returncode)))) (\<lambda>returncode.
       if exc_type = None \<and> returncode \<noteq> 0
       then bind (text_call (ReadOutput p)) (\<lambda>output.
         Raise (RuntimeError (''netz broker exited '' @ decimal_int returncode @ '': '' @ output)))
       else Ret ()))"

text \<open>\<^verbatim>\<open>with NetzBroker(...) as broker:\<close> and \<^verbatim>\<open>with broker.connect() as sock:\<close>\<close>

definition with_broker ::
  "string \<Rightarrow> nat \<Rightarrow> bool \<Rightarrow> string list \<Rightarrow> (netz_broker \<Rightarrow> 'a prog) \<Rightarrow> 'a prog" where
  "with_broker exe conns ignore args body =
     with_mgr (bind (NetzBroker exe conns ignore args) broker_enter) broker_exit body"

definition with_connection :: "netz_broker \<Rightarrow> (sock \<Rightarrow> 'a prog) \<Rightarrow> 'a prog" where
  "with_connection broker body = with_mgr (broker_connect broker) (\<lambda>sock _. close sock) body"

section \<open>Passing runs\<close>

abbreviation started :: "string \<Rightarrow> nat \<Rightarrow> bool \<Rightarrow> string list \<Rightarrow> nat \<Rightarrow> proc \<Rightarrow> netz_broker" where
  "started exe conns ignore args prt p \<equiv> \<lparr>executable = exe, connections = conns,
     ignore_errors = ignore, extra_args = args, port = prt, process = Some p\<rparr>"

abbreviation configured :: "string \<Rightarrow> nat \<Rightarrow> bool \<Rightarrow> string list \<Rightarrow> nat \<Rightarrow> netz_broker" where
  "configured exe conns ignore args prt \<equiv> \<lparr>executable = exe, connections = conns,
     ignore_errors = ignore, extra_args = args, port = prt, process = None\<rparr>"

text \<open>The transcript of a successful start: a probe socket finds the port, the process starts and
  prints a line that contains \<^verbatim>\<open>listening\<close>.\<close>

definition broker_up :: "string \<Rightarrow> nat \<Rightarrow> bool \<Rightarrow> string list \<Rightarrow> nat \<Rightarrow> proc \<Rightarrow> lang" where
  "broker_up exe conns ignore args prt p = (\<lambda>t. \<exists>probe line. contains ''listening'' line \<and>
     t = [Created probe, Bound probe ''127.0.0.1'' 0, Port probe prt, Closed probe,
          Spawned p (command (started exe conns ignore args prt p)), Line p line])"

lemma ok_sock_call_new: "ok (sock_call NewSocket) s = exactly [Created s]"
  by (auto simp: ok_def exactly_def call_defs)

lemma ok_create_connection:
  "ok (sock_call (CreateConnection h p ms)) s = exactly [Connected s p]"
  by (auto simp: ok_def exactly_def call_defs)

lemma ok_bind_call: "ok (unit_call (Bind s h p)) u = exactly [Bound s h p]"
  by (auto simp: ok_def exactly_def call_defs)

lemma ok_getsockport: "ok (port_call (GetSockPort s)) p = exactly [Port s p]"
  by (auto simp: ok_def exactly_def call_defs)

lemma ok_popen: "ok (proc_call (Popen cmd)) p = exactly [Spawned p cmd]"
  by (auto simp: ok_def exactly_def call_defs)

lemma ok_readline: "ok (text_call (ReadLine p)) l = exactly [Line p l]"
  by (auto simp: ok_def exactly_def call_defs)

lemmas os_langs = ok_sock_call_new ok_create_connection ok_bind_call ok_getsockport ok_popen ok_readline

lemma ok_if [lang_simps]: "ok (if c then m else n) x = (if c then ok m x else ok n x)"
  by simp

lemma ok_broker_exit: "process b = Some p \<Longrightarrow> ok (broker_exit b None) u = exactly [Exited p 0]"
  by (auto simp: ok_def exactly_def broker_exit_def exec_bind_iff exec_try_except call_defs
      split: if_splits)

lemma ok_broker_connect [lang_simps]:
  "ok (broker_connect b) s = exactly [Connected s (port b), TimeoutSet s 5000]"
  by (simp add: broker_connect_def lang_simps os_langs)

lemma ok_with_connection [lang_simps]:
  "ok (with_connection b body) x =
     some (\<lambda>s. cat (exactly [Connected s (port b), TimeoutSet s 5000])
                 (cat (ok (body s) x) (exactly [Closed s])))"
  by (simp add: with_connection_def lang_simps os_langs)

lemma ok_free_port: "ok free_port p = some (\<lambda>probe.
    exactly [Created probe, Bound probe ''127.0.0.1'' 0, Port probe p, Closed probe])"
  by (simp add: free_port_def lang_simps os_langs)

lemma ok_NetzBroker_enter:
  "ok (bind (NetzBroker exe conns ignore args) broker_enter) b =
     some (\<lambda>prt. some (\<lambda>p. onlyif (b = started exe conns ignore args prt p)
       (broker_up exe conns ignore args prt p)))"
proof -
  define fresh where "fresh prt = \<lparr>executable = exe, connections = conns, ignore_errors = ignore,
       extra_args = args, port = prt, process = None\<rparr>" for prt
  have enter: "ok (broker_enter (fresh prt)) b = some (\<lambda>p. some (\<lambda>line.
      onlyif (contains ''listening'' line \<and> b = started exe conns ignore args prt p)
        (exactly [Spawned p (command (started exe conns ignore args prt p)), Line p line])))" for prt
    unfolding broker_enter_def command_def fresh_def
    by (intro ext) (auto simp: lang_simps os_langs some_def onlyif_def exactly_def cat_def eps_def
        split: if_splits)
  have "bind (NetzBroker exe conns ignore args) broker_enter =
      bind free_port (\<lambda>prt. broker_enter (fresh prt))"
    by (simp add: NetzBroker_def bind_assoc fresh_def)
  moreover have "broker_up exe conns ignore args prt p =
      some (\<lambda>line. onlyif (contains ''listening'' line) (some (\<lambda>probe.
       exactly [Created probe, Bound probe ''127.0.0.1'' 0, Port probe prt, Closed probe,
          Spawned p (command (started exe conns ignore args prt p)), Line p line])))" for prt p
    by (auto simp: broker_up_def some_def onlyif_def exactly_def)
  ultimately show ?thesis
    by (simp add: lang_simps cat_some_right enter ok_free_port) (auto simp: some_def onlyif_def fun_eq_iff)
qed

lemma ok_with_broker [lang_simps]:
  "ok (with_broker exe conns ignore args body) x =
     some (\<lambda>prt. some (\<lambda>p. cat (broker_up exe conns ignore args prt p)
       (cat (ok (body (started exe conns ignore args prt p)) x) (exactly [Exited p 0]))))"
proof -
  have "ok (with_broker exe conns ignore args body) x =
      some (\<lambda>b. cat (ok (bind (NetzBroker exe conns ignore args) broker_enter) b)
        (cat (ok (body b) x) (ok (broker_exit b None) ())))"
    by (simp add: with_broker_def ok_with_mgr)
  also have "\<dots> = some (\<lambda>b. some (\<lambda>prt. some (\<lambda>p. onlyif (b = started exe conns ignore args prt p)
       (cat (broker_up exe conns ignore args prt p)
         (cat (ok (body (started exe conns ignore args prt p)) x) (exactly [Exited p 0]))))))"
    unfolding ok_NetzBroker_enter cat_some_left cat_onlyif
    by (intro arg_cong [where f = some] ext) (auto simp: onlyif_def ok_broker_exit)
  finally show ?thesis
    by (auto simp: some_def onlyif_def)
qed

section \<open>Resources\<close>

text \<open>Sockets and processes a transcript acquires and releases.\<close>

fun socks_opened :: "obs list \<Rightarrow> sock multiset" where
  "socks_opened [] = {#}"
| "socks_opened (x # t) = (case x of Created s \<Rightarrow> {#s#} | Connected s _ \<Rightarrow> {#s#} | _ \<Rightarrow> {#}) + socks_opened t"

fun socks_closed :: "obs list \<Rightarrow> sock multiset" where
  "socks_closed [] = {#}"
| "socks_closed (x # t) = (case x of Closed s \<Rightarrow> {#s#} | _ \<Rightarrow> {#}) + socks_closed t"

fun procs_started :: "obs list \<Rightarrow> proc multiset" where
  "procs_started [] = {#}"
| "procs_started (x # t) = (case x of Spawned p _ \<Rightarrow> {#p#} | _ \<Rightarrow> {#}) + procs_started t"

fun procs_reaped :: "obs list \<Rightarrow> proc multiset" where
  "procs_reaped [] = {#}"
| "procs_reaped (x # t) = (case x of Exited p _ \<Rightarrow> {#p#} | _ \<Rightarrow> {#}) + procs_reaped t"

text \<open>Every socket that a run opens it closes again, whatever the outcome.\<close>

definition balanced :: "'a prog \<Rightarrow> bool" where
  "balanced m \<longleftrightarrow> (\<forall>t r. exec m t r \<longrightarrow> socks_opened t = socks_closed t)"

lemma socks_opened_append [simp]: "socks_opened (t @ u) = socks_opened t + socks_opened u"
  by (induction t) auto

lemma socks_closed_append [simp]: "socks_closed (t @ u) = socks_closed t + socks_closed u"
  by (induction t) auto

lemma procs_started_append [simp]: "procs_started (t @ u) = procs_started t + procs_started u"
  by (induction t) auto

lemma procs_reaped_append [simp]: "procs_reaped (t @ u) = procs_reaped t + procs_reaped u"
  by (induction t) auto

text \<open>What a \<^verbatim>\<open>with\<close> statement relies on: entering acquires the resource, or raises and
  acquires nothing; leaving releases it.\<close>

locale context_manager =
  fixes enter :: "'c prog" and exit :: "'c \<Rightarrow> exn option \<Rightarrow> unit prog" and res :: "'c \<Rightarrow> sock multiset"
  assumes enter_ok: "exec enter t (Inr c) \<Longrightarrow> socks_opened t = socks_closed t + res c"
    and enter_err: "exec enter t (Inl e) \<Longrightarrow> socks_opened t = socks_closed t"
    and exit_any: "exec (exit c x) t r \<Longrightarrow> socks_closed t = socks_opened t + res c"
begin

lemma with_balanced:
  assumes body: "\<And>c. balanced (body c)"
  shows "balanced (with_mgr enter exit body)"
proof -
  have "socks_opened t = socks_closed t" if "exec (with_mgr enter exit body) t r" for t r
  proof -
    from that consider (err) e where "exec enter t (Inl e)"
      | (okay) u v w c r' x r'' where "t = u @ v @ w" "exec enter u (Inr c)" "exec (body c) v r'"
          "exec (exit c x) w r''"
      unfolding with_mgr_def exec_bind_iff exec_attempt_iff exec_reraise_iff by auto
    then show ?thesis
    proof cases
      case err
      then show ?thesis by (rule enter_err)
    next
      case okay
      with body have "socks_opened v = socks_closed v" unfolding balanced_def by blast
      with okay enter_ok [of u c] exit_any [of c x w r''] show ?thesis by simp
    qed
  qed
  then show ?thesis unfolding balanced_def by blast
qed

end

text \<open>Balance, construct by construct.\<close>

lemma balanced_Ret [balanced_intros]: "balanced (Ret x)"
  by (simp add: balanced_def)

lemma balanced_Raise [balanced_intros]: "balanced (Raise e)"
  by (simp add: balanced_def)

lemma balanced_bind [balanced_intros]:
  "balanced m \<Longrightarrow> (\<And>x. balanced (f x)) \<Longrightarrow> balanced (bind m f)"
  unfolding balanced_def exec_bind_iff by (metis socks_opened_append socks_closed_append)

lemma balanced_attempt [balanced_intros]: "balanced m \<Longrightarrow> balanced (attempt m)"
  by (auto simp: balanced_def exec_attempt_iff)

lemma balanced_reraise [balanced_intros]: "balanced (reraise r)"
  by (simp add: balanced_def)

lemma balanced_if [balanced_intros]:
  "(c \<Longrightarrow> balanced m) \<Longrightarrow> (\<not> c \<Longrightarrow> balanced n) \<Longrightarrow> balanced (if c then m else n)"
  by simp

lemma balanced_skip [balanced_intros]: "balanced skip"
  by (simp add: skip_def balanced_Ret)

lemma balanced_whenever [balanced_intros]: "balanced m \<Longrightarrow> balanced (whenever c m)"
  by (simp add: whenever_def balanced_skip)

lemma balanced_seq [balanced_intros]:
  "balanced (seq [])" "balanced m \<Longrightarrow> balanced (seq ms) \<Longrightarrow> balanced (seq (m # ms))"
  by (auto simp: seq.simps intro: balanced_intros)

lemma balanced_for_each [balanced_intros]: "(\<And>x. balanced (f x)) \<Longrightarrow> balanced (for_each xs f)"
  unfolding for_each_def by (induction xs) (auto intro: balanced_intros)

lemma balanced_collect [balanced_intros]: "(\<And>x. balanced (f x)) \<Longrightarrow> balanced (collect xs f)"
  by (induction xs) (auto simp: collect.simps intro: balanced_intros)

lemma balanced_fold_each [balanced_intros]:
  "(\<And>x st. balanced (f x st)) \<Longrightarrow> balanced (fold_each xs f st)"
  by (induction xs arbitrary: st) (auto intro: balanced_intros)

lemma balanced_try_finally [balanced_intros]:
  "balanced m \<Longrightarrow> balanced f \<Longrightarrow> balanced (try_finally m f)"
  unfolding try_finally_def by (intro balanced_intros)

lemma balanced_try_except [balanced_intros]:
  "balanced m \<Longrightarrow> (\<And>e. balanced (h e)) \<Longrightarrow> balanced (try_except m p h)"
  unfolding try_except_def by (intro balanced_intros) (auto split: sum.splits intro: balanced_intros)

lemma balanced_item [balanced_intros]: "balanced (item xs i)"
  by (simp add: item_def balanced_intros)

lemma balanced_list_remove [balanced_intros]: "balanced (list_remove x xs)"
  by (simp add: list_remove_def balanced_intros)

lemma socks_map_Tx [simp]: "socks_opened (map (Tx s) bs) = {#}" "socks_closed (map (Tx s) bs) = {#}"
  by (induction bs) auto

lemma socks_map_Rx [simp]: "socks_opened (map (Rx s) bs) = {#}" "socks_closed (map (Rx s) bs) = {#}"
  by (induction bs) auto

lemma balanced_sendall [balanced_intros]: "balanced (sendall s bs)"
  by (auto simp: balanced_def exec_sendall)

lemma balanced_recv [balanced_intros]: "balanced (recv s n)"
  by (auto simp: balanced_def exec_recv)

lemma balanced_settimeout [balanced_intros]: "balanced (settimeout s ms)"
  by (auto simp: balanced_def exec_settimeout)

lemma balanced_sleep [balanced_intros]: "balanced (sleep ms)"
  by (auto simp: balanced_def exec_sleep)

lemma balanced_recv_exact [balanced_intros]: "balanced (recv_exact s n)"
proof -
  have "balanced (recv_loop s wanted res)" for wanted res
    by (induction s wanted res rule: recv_loop.induct)
       (subst recv_loop.simps, auto intro!: balanced_intros)
  then show ?thesis by (simp add: recv_exact_def)
qed

lemma balanced_read_remaining [balanced_intros]: "balanced (read_remaining s k rb rem)"
  by (induction s k rb rem rule: read_remaining.induct)
     (subst read_remaining.simps, auto intro!: balanced_intros simp: Let_def)

lemma balanced_read_packet [balanced_intros]: "balanced (read_packet s)"
  unfolding read_packet_def by (auto intro!: balanced_intros)

lemma balanced_expect_packet [balanced_intros]: "balanced (expect_packet s e l)"
  unfolding expect_packet_def by (intro balanced_intros)

lemma balanced_expect_unordered [balanced_intros]: "balanced (expect_packets_unordered s es l)"
  unfolding expect_packets_unordered_def by (intro balanced_intros)

text \<open>The two context managers of the harness and the probe socket of \<^verbatim>\<open>free_port\<close>.\<close>

interpretation probe: context_manager "sock_call NewSocket" "\<lambda>probe _. close probe" "\<lambda>s. {#s#}"
  by unfold_locales (auto simp: call_defs exec_close)

interpretation conn: context_manager "broker_connect b" "\<lambda>sock _. close sock" "\<lambda>s. {#s#}" for b
  by unfold_locales (auto simp: broker_connect_def exec_bind_iff call_defs exec_settimeout exec_close)

lemma balanced_os_calls:
  "balanced (unit_call (Bind s h p))" "balanced (port_call (GetSockPort s))"
  "balanced (proc_call (Popen cmd))" "balanced (text_call (ReadLine p))"
  "balanced (text_call (ReadOutput p))" "balanced (code_call (Wait p ms))"
  "balanced (unit_call (Terminate p))" "balanced (unit_call (Print l))"
  by (auto simp: balanced_def call_defs)

lemma balanced_free_port [balanced_intros]: "balanced free_port"
  unfolding free_port_def by (intro probe.with_balanced balanced_intros balanced_os_calls)

lemma balanced_broker_enter:
  "balanced (bind (NetzBroker exe conns ignore args) broker_enter)"
  unfolding NetzBroker_def broker_enter_def by (intro balanced_intros balanced_os_calls)

lemma balanced_broker_exit: "balanced (broker_exit b x)"
  unfolding broker_exit_def
  by (auto split: option.splits intro!: balanced_intros balanced_os_calls)

interpretation netz: context_manager "bind (NetzBroker exe conns ignore args) broker_enter"
    broker_exit "\<lambda>_. {#}" for exe conns ignore args
  using balanced_broker_enter [of exe conns ignore args] balanced_broker_exit
  by unfold_locales (auto simp: balanced_def, metis)

lemma balanced_with_broker [balanced_intros]:
  "(\<And>b. balanced (body b)) \<Longrightarrow> balanced (with_broker exe conns ignore args body)"
  unfolding with_broker_def by (rule netz.with_balanced)

lemma balanced_with_connection [balanced_intros]:
  "(\<And>s. balanced (body s)) \<Longrightarrow> balanced (with_connection b body)"
  unfolding with_connection_def by (rule conn.with_balanced)

section \<open>How a broker session ends\<close>

lemma exec_wait:
  "exec (code_call (Wait p ms)) t r \<longleftrightarrow>
     (\<exists>c. t = [Exited p c] \<and> r = Inr c) \<or> t = [Failed (Wait p ms) TimeoutExpired] \<and> r = Inl TimeoutExpired"
  by (auto simp: call_defs)

lemma exec_terminate: "exec (unit_call (Terminate p)) t r \<longleftrightarrow> t = [Terminated p] \<and> r = Inr ()"
  by (auto simp: call_defs)

lemma exec_read_output: "exec (text_call (ReadOutput p)) t r \<longleftrightarrow> (\<exists>l. t = [Output p l] \<and> r = Inr l)"
  by (auto simp: call_defs)

abbreviation wait_expired :: "proc \<Rightarrow> obs" where
  "wait_expired p \<equiv> Failed (Wait p 5000) TimeoutExpired"

lemma exec_broker_exit_None:
  "process b = Some p \<Longrightarrow> exec (broker_exit b None) t r \<longleftrightarrow>
     t = [Exited p 0] \<and> r = Inr () \<or>
     (\<exists>c out. c \<noteq> 0 \<and> t = [Exited p c, Output p out] \<and>
        r = Inl (RuntimeError (''netz broker exited '' @ decimal_int c @ '': '' @ out))) \<or>
     (\<exists>c. t = [wait_expired p, Terminated p, Exited p c] \<and>
        r = Inl (RuntimeError ''netz broker did not exit after DISCONNECT'')) \<or>
     t = [wait_expired p, Terminated p, wait_expired p] \<and> r = Inl TimeoutExpired"
proof -
  assume p: "process b = Some p"
  define report where "report c = bind (text_call (ReadOutput p)) (\<lambda>output.
      Raise (RuntimeError (''netz broker exited '' @ decimal_int c @ '': '' @ output)) :: unit prog)" for c
  have report: "exec (report c) v r \<longleftrightarrow> (\<exists>out. v = [Output p out] \<and>
      r = Inl (RuntimeError (''netz broker exited '' @ decimal_int c @ '': '' @ out)))" for c v
    unfolding report_def exec_bind_iff exec_read_output by auto
  define stop where "stop = try_except (code_call (Wait p 5000)) (\<lambda>e. e = TimeoutExpired) (\<lambda>_.
      bind (unit_call (Terminate p)) (\<lambda>_. bind (code_call (Wait p 5000)) (\<lambda>_.
        Raise (RuntimeError ''netz broker did not exit after DISCONNECT'') :: int prog)))"
  have stop: "exec stop u r' \<longleftrightarrow> (\<exists>c. u = [Exited p c] \<and> r' = Inr c) \<or>
      (\<exists>c. u = [wait_expired p, Terminated p, Exited p c] \<and>
        r' = Inl (RuntimeError ''netz broker did not exit after DISCONNECT'')) \<or>
      u = [wait_expired p, Terminated p, wait_expired p] \<and> r' = Inl TimeoutExpired" for u r'
    unfolding stop_def by (auto simp: exec_bind_iff exec_try_except exec_wait exec_terminate)
  have exit: "broker_exit b None = bind stop (\<lambda>c. if c \<noteq> 0 then report c else Ret ())"
    by (simp add: broker_exit_def p stop_def report_def cong: if_cong)
  have stop_ok: "exec stop u (Inr c) \<longleftrightarrow> u = [Exited p c]" for u c
    by (auto simp: stop)
  have "(\<exists>u v c. t = u @ v \<and> exec stop u (Inr c) \<and> exec (if c \<noteq> 0 then report c else Ret ()) v r) \<longleftrightarrow>
      (\<exists>c v. t = [Exited p c] @ v \<and> exec (if c \<noteq> 0 then report c else Ret ()) v r)"
    unfolding stop_ok by blast
  then have "exec (broker_exit b None) t r \<longleftrightarrow>
      (\<exists>c v. t = [Exited p c] @ v \<and> exec (if c \<noteq> 0 then report c else Ret ()) v r) \<or>
      (\<exists>e. r = Inl e \<and> exec stop t (Inl e))"
    unfolding exit exec_bind_iff by simp
  also have "(\<exists>c v. t = [Exited p c] @ v \<and> exec (if c \<noteq> 0 then report c else Ret ()) v r) \<longleftrightarrow>
      t = [Exited p 0] \<and> r = Inr () \<or> (\<exists>c v. c \<noteq> 0 \<and> t = [Exited p c] @ v \<and> exec (report c) v r)"
    by (auto split: if_splits)
  also have "(\<exists>e. r = Inl e \<and> exec stop t (Inl e)) \<longleftrightarrow>
      (\<exists>c. t = [wait_expired p, Terminated p, Exited p c] \<and>
        r = Inl (RuntimeError ''netz broker did not exit after DISCONNECT'')) \<or>
      t = [wait_expired p, Terminated p, wait_expired p] \<and> r = Inl TimeoutExpired"
    unfolding stop by auto
  also have "(\<exists>c v. c \<noteq> 0 \<and> t = [Exited p c] @ v \<and> exec (report c) v r) \<longleftrightarrow>
      (\<exists>c out. c \<noteq> 0 \<and> t = [Exited p c, Output p out] \<and>
        r = Inl (RuntimeError (''netz broker exited '' @ decimal_int c @ '': '' @ out)))"
    unfolding report by auto
  finally show ?thesis by simp
qed

lemma exec_broker_exit_Some:
  "process b = Some p \<Longrightarrow> exec (broker_exit b (Some e)) t r \<longleftrightarrow>
     (\<exists>c. (t = [Exited p c] \<or> t = [wait_expired p, Terminated p, Exited p c]) \<and> r = Inr ()) \<or>
     t = [wait_expired p, Terminated p, wait_expired p] \<and> r = Inl TimeoutExpired"
  unfolding broker_exit_def
  by (auto simp: exec_bind_iff exec_try_except exec_wait exec_terminate exec_read_output split: if_splits)

section \<open>How a broker session starts\<close>

definition probed :: "sock \<Rightarrow> nat \<Rightarrow> obs list" where
  "probed s prt = [Created s, Bound s ''127.0.0.1'' 0, Port s prt, Closed s]"

lemma exec_free_port_err:
  "exec free_port t (Inl e) \<longleftrightarrow> is_os_error e \<and>
     (t = [Failed NewSocket e] \<or> (\<exists>s. t = [Created s, Failed (Bind s ''127.0.0.1'' 0) e, Closed s]))"
  unfolding free_port_def with_mgr_def
  by (auto simp: exec_bind_iff exec_attempt_iff exec_close call_defs)

lemma exec_broker_enter_err:
  "exec (broker_enter b) t (Inl e) \<longleftrightarrow>
     is_os_error e \<and> t = [Failed (Popen (command b)) e] \<or>
     (\<exists>p line. \<not> contains ''listening'' line \<and> t = [Spawned p (command b), Line p line] \<and>
        e = RuntimeError (''netz broker failed to start: '' @ strip line))"
  unfolding broker_enter_def by (auto simp: exec_bind_iff call_defs split: if_splits)

lemma exec_start_err:
  "exec (bind (NetzBroker exe conns ignore args) broker_enter) t (Inl e) \<longleftrightarrow>
     is_os_error e \<and>
       (t = [Failed NewSocket e] \<or> (\<exists>s. t = [Created s, Failed (Bind s ''127.0.0.1'' 0) e, Closed s]) \<or>
        (\<exists>s prt. t = probed s prt @ [Failed (Popen (command (configured exe conns ignore args prt))) e])) \<or>
     (\<exists>s prt p line. \<not> contains ''listening'' line \<and>
        t = probed s prt @ [Spawned p (command (configured exe conns ignore args prt)), Line p line] \<and>
        e = RuntimeError (''netz broker failed to start: '' @ strip line))"
proof -
  have port: "exec free_port u (Inr prt) \<longleftrightarrow> (\<exists>s. u = probed s prt)" for u prt
    using ok_free_port [of prt] by (simp add: ok_def some_def exactly_def probed_def fun_eq_iff)
  have "exec (bind (NetzBroker exe conns ignore args) broker_enter) t (Inl e) \<longleftrightarrow>
      exec (bind free_port (\<lambda>prt. broker_enter (configured exe conns ignore args prt))) t (Inl e)"
    by (simp add: NetzBroker_def bind_assoc)
  also have "\<dots> \<longleftrightarrow> (\<exists>s prt v. t = probed s prt @ v \<and>
        exec (broker_enter (configured exe conns ignore args prt)) v (Inl e)) \<or> exec free_port t (Inl e)"
    unfolding exec_bind_iff port by auto
  finally show ?thesis
    unfolding exec_free_port_err exec_broker_enter_err by blast
qed

text \<open>The outcomes of a \<^verbatim>\<open>with NetzBroker(...)\<close> statement: it fails to start, or the body runs and
  its outcome is passed on, unless \<^verbatim>\<open>__exit__\<close> replaces it.\<close>

definition after_error :: "proc \<Rightarrow> exn \<Rightarrow> obs list \<Rightarrow> exn + 'a \<Rightarrow> bool" where
  "after_error p e w r \<longleftrightarrow>
     (\<exists>c. (w = [Exited p c] \<or> w = [wait_expired p, Terminated p, Exited p c]) \<and> r = Inl e) \<or>
     w = [wait_expired p, Terminated p, wait_expired p] \<and> r = Inl TimeoutExpired"

definition after_success :: "proc \<Rightarrow> 'a \<Rightarrow> obs list \<Rightarrow> exn + 'a \<Rightarrow> bool" where
  "after_success p x w r \<longleftrightarrow>
     w = [Exited p 0] \<and> r = Inr x \<or>
     (\<exists>c out. c \<noteq> 0 \<and> w = [Exited p c, Output p out] \<and>
        r = Inl (RuntimeError (''netz broker exited '' @ decimal_int c @ '': '' @ out))) \<or>
     (\<exists>c. w = [wait_expired p, Terminated p, Exited p c] \<and>
        r = Inl (RuntimeError ''netz broker did not exit after DISCONNECT'')) \<or>
     w = [wait_expired p, Terminated p, wait_expired p] \<and> r = Inl TimeoutExpired"

lemma exec_with_mgr:
  "exec (with_mgr enter exit body) t r \<longleftrightarrow>
     (\<exists>e. r = Inl e \<and> exec enter t (Inl e)) \<or>
     (\<exists>c u v w r'. t = u @ v @ w \<and> exec enter u (Inr c) \<and> exec (body c) v r' \<and>
        exec (bind (exit c (case r' of Inl e \<Rightarrow> Some e | Inr _ \<Rightarrow> None)) (\<lambda>_. reraise r')) w r)"
  unfolding with_mgr_def exec_bind_iff [of enter] exec_bind_iff [of "attempt _"] exec_attempt_iff
  by simp blast

lemma exec_exit_error:
  "process b = Some p \<Longrightarrow> exec (bind (broker_exit b (Some e)) (\<lambda>_. Raise e)) w r \<longleftrightarrow> after_error p e w r"
  unfolding exec_bind_iff exec_broker_exit_Some after_error_def by auto

lemma exec_exit_success:
  "process b = Some p \<Longrightarrow> exec (bind (broker_exit b None) (\<lambda>_. Ret x)) w r \<longleftrightarrow> after_success p x w r"
  unfolding exec_bind_iff exec_broker_exit_None after_success_def by auto

lemma exec_with_broker:
  "exec (with_broker exe conns ignore args body) t r \<longleftrightarrow>
     (\<exists>e. r = Inl e \<and> exec (bind (NetzBroker exe conns ignore args) broker_enter) t (Inl e)) \<or>
     (\<exists>prt p u v w r'. t = u @ v @ w \<and> broker_up exe conns ignore args prt p u \<and>
        exec (body (started exe conns ignore args prt p)) v r' \<and>
        (case r' of Inl e \<Rightarrow> after_error p e w r | Inr x \<Rightarrow> after_success p x w r))"
proof -
  have enter: "exec (bind (NetzBroker exe conns ignore args) broker_enter) u (Inr b) \<longleftrightarrow>
      (\<exists>prt p. b = started exe conns ignore args prt p \<and> broker_up exe conns ignore args prt p u)" for u b
    using ok_NetzBroker_enter [of exe conns ignore args b]
    by (simp add: ok_def some_def onlyif_def fun_eq_iff)
  have exit: "exec (bind (broker_exit (started exe conns ignore args prt p)
        (case r' of Inl e \<Rightarrow> Some e | Inr _ \<Rightarrow> None)) (\<lambda>_. reraise r')) w r \<longleftrightarrow>
      (case r' of Inl e \<Rightarrow> after_error p e w r | Inr x \<Rightarrow> after_success p x w r)" for prt p r' w
    by (cases r') (simp_all add: exec_exit_error exec_exit_success)
  have shift: "(\<exists>c u v w r'. t = u @ v @ w \<and> (\<exists>prt p. c = S prt p \<and> A prt p u) \<and> B c v r' \<and> C c r' w) \<longleftrightarrow>
      (\<exists>prt p u v w r'. t = u @ v @ w \<and> A prt p u \<and> B (S prt p) v r' \<and> C (S prt p) r' w)"
    for S :: "nat \<Rightarrow> proc \<Rightarrow> netz_broker" and A and B :: "_ \<Rightarrow> _ \<Rightarrow> exn + 'a \<Rightarrow> bool" and C
    by blast
  show ?thesis
    unfolding with_broker_def exec_with_mgr enter shift exit ..
qed

end
