(* ===== verification/Clients.thy ===== *)
theory Clients
  imports Mosquitto Broker_Process
begin

text \<open>
  The client helpers \<^verbatim>\<open>connect_client\<close>, \<^verbatim>\<open>connect_v5\<close> and
  \<^verbatim>\<open>connect_persistent_v5\<close>, and two idioms that the scenarios write out inline: the 50 ms
  silence window around a \<^verbatim>\<open>recv(1)\<close>, and the check that the broker drops a connection; and
  the CONNECT with explicit properties whose CONNACK is checked at bytes 0 and 3 only.
\<close>

section \<open>The code\<close>

text \<open>A chain of \<^verbatim>\<open>or\<close> conditions stops at the first that holds; \<^verbatim>\<open>raise_if\<close> is
  \<^verbatim>\<open>if c1 or c2 ...: raise AssertionError(msg)\<close>.\<close>

primrec any_of :: "bool prog list \<Rightarrow> bool prog" where
  "any_of [] = Ret False"
| "any_of (c # cs) = bind c (\<lambda>b. if b then Ret True else any_of cs)"

definition raise_if :: "bool prog list \<Rightarrow> string \<Rightarrow> unit prog" where
  "raise_if conds msg = bind (any_of conds) (\<lambda>b. if b then Raise (AssertionError msg) else Ret ())"

text \<open>\<^verbatim>\<open>packet[i] != v\<close> and \<^verbatim>\<open>packet[i] >= v\<close> (an \<^verbatim>\<open>IndexError\<close> out of range).\<close>

definition byte_ne :: "bytes \<Rightarrow> nat \<Rightarrow> byte \<Rightarrow> bool prog" where
  "byte_ne packet i v = bind (item packet i) (\<lambda>b. Ret (b \<noteq> v))"

definition byte_ge :: "bytes \<Rightarrow> nat \<Rightarrow> byte \<Rightarrow> bool prog" where
  "byte_ge packet i v = bind (item packet i) (\<lambda>b. Ret (v \<le> b))"

definition connect_client :: "sock \<Rightarrow> mqtt_packets \<Rightarrow> string \<Rightarrow> nat \<Rightarrow> unit prog" where
  "connect_client sock mp client_id proto_ver =
     bind (sendall sock (gen_connect mp (Some client_id) (no_kwargs\<lparr>k_proto_ver := Some proto_ver\<rparr>))) (\<lambda>_.
     bind (read_packet sock) (\<lambda>connack.
       let minimum_len = (if proto_ver = 5 then 5 else 4) in
       raise_if [byte_ne connack 0 0x20, Ret (length connack < minimum_len), byte_ge connack 3 0x80]
         (''invalid successful CONNACK: '' @ hex connack)))"

definition connect_v5 :: "sock \<Rightarrow> mqtt_packets \<Rightarrow> string \<Rightarrow> unit prog" where
  "connect_v5 sock mp client_id = connect_client sock mp client_id 5"

definition connect_persistent_v5 :: "sock \<Rightarrow> mqtt_packets \<Rightarrow> string \<Rightarrow> bool \<Rightarrow> unit prog" where
  "connect_persistent_v5 sock mp client_id present =
     bind (sendall sock (gen_connect mp (Some client_id)
       (v5\<lparr>k_clean_session := Some False, k_session_expiry := Some 60\<rparr>))) (\<lambda>_.
     bind (read_packet sock) (\<lambda>connack.
       raise_if [byte_ne connack 0 0x20, Ret (length connack < 5),
                 byte_ne connack 2 (if present then 1 else 0), byte_ne connack 3 0]
         (''invalid persistent CONNACK (present='' @ bool_str present @ ''): '' @ hex connack)))"

definition expect_quiet :: "sock \<Rightarrow> string \<Rightarrow> unit prog" where
  "expect_quiet sock msg = seq [
     settimeout sock 50,
     try_finally
       (try_except
         (bind (recv sock 1) (\<lambda>data. whenever (data \<noteq> []) (Raise (AssertionError (msg @ hex data)))))
         (\<lambda>e. e = SocketTimeout) (\<lambda>_. skip))
       (settimeout sock 5000)]"

definition expect_dropped :: "sock \<Rightarrow> string \<Rightarrow> unit prog" where
  "expect_dropped sock msg =
     try_except
       (bind (recv sock 1) (\<lambda>data. whenever (data \<noteq> []) (Raise (AssertionError (msg @ hex data)))))
       (\<lambda>e. e = ConnectionResetError \<or> e = BrokenPipeError) (\<lambda>_. skip)"

definition connect_with :: "sock \<Rightarrow> bytes \<Rightarrow> string \<Rightarrow> unit prog" where
  "connect_with sock packet msg =
     bind (sendall sock packet) (\<lambda>_.
     bind (read_packet sock) (\<lambda>connack.
       raise_if [byte_ne connack 0 0x20, byte_ne connack 3 0] (msg @ hex connack)))"

section \<open>Passing runs\<close>

definition connack_ok :: "nat \<Rightarrow> bytes \<Rightarrow> bool" where
  "connack_ok proto_ver p \<longleftrightarrow>
     p ! 0 = 0x20 \<and> (if proto_ver = 5 then 5 else 4) \<le> length p \<and> p ! 3 < 0x80"

definition persistent_ok :: "bool \<Rightarrow> bytes \<Rightarrow> bool" where
  "persistent_ok present p \<longleftrightarrow>
     p ! 0 = 0x20 \<and> 5 \<le> length p \<and> p ! 2 = (if present then 1 else 0) \<and> p ! 3 = 0"

definition accepted_ok :: "bytes \<Rightarrow> bool" where
  "accepted_ok p \<longleftrightarrow> 4 \<le> length p \<and> p ! 0 = 0x20 \<and> p ! 3 = 0"

definition fresh_ok :: "bytes \<Rightarrow> bool" where
  "fresh_ok p \<longleftrightarrow> p \<noteq> [] \<and> p ! 0 = 0x20 \<and> slice 2 4 p = [0, 0]"

definition quiet :: "sock \<Rightarrow> lang" where
  "quiet s = (\<lambda>t. \<exists>x \<in> {Eof s, Failed (Recv s 1) SocketTimeout}.
     t = [TimeoutSet s 50, x, TimeoutSet s 5000])"

definition dropped :: "sock \<Rightarrow> lang" where
  "dropped s = (\<lambda>t. \<exists>x \<in> {Eof s, Failed (Recv s 1) ConnectionResetError,
     Failed (Recv s 1) BrokenPipeError}. t = [x])"

lemma exec_raise_if_ok:
  "exec (raise_if conds msg) t (Inr u) \<longleftrightarrow> exec (any_of conds) t (Inr False)"
  by (auto simp: raise_if_def exec_bind_iff)

lemma exec_any_of_False:
  "exec (any_of []) t (Inr False) \<longleftrightarrow> t = []"
  "exec (any_of (c # cs)) t (Inr False) \<longleftrightarrow>
     (\<exists>v w. t = v @ w \<and> exec c v (Inr False) \<and> exec (any_of cs) w (Inr False))"
  by (auto simp: exec_bind_iff split: if_splits)

lemma exec_byte_ne_False:
  "exec (byte_ne p i v) t (Inr False) \<longleftrightarrow> t = [] \<and> i < length p \<and> p ! i = v"
  by (auto simp: byte_ne_def exec_bind_iff exec_item)

lemma exec_byte_ge_False:
  "exec (byte_ge p i v) t (Inr False) \<longleftrightarrow> t = [] \<and> i < length p \<and> p ! i < v"
  by (auto simp: byte_ge_def exec_bind_iff exec_item not_le)

lemmas check_simps = exec_raise_if_ok exec_any_of_False exec_byte_ne_False exec_byte_ge_False

declare any_of.simps [simp del]

lemma ok_raise_if: "ok (raise_if conds msg) u = ok (any_of conds) False"
  by (simp add: ok_def exec_raise_if_ok)

lemma ok_any_of:
  "ok (any_of []) False = eps"
  "ok (any_of (c # cs)) False = cat (ok c False) (ok (any_of cs) False)"
  by (auto simp: ok_def eps_def cat_def exec_any_of_False)

lemma ok_byte_ne: "ok (byte_ne p i v) False = onlyif (i < length p \<and> p ! i = v) eps"
  by (auto simp: ok_def onlyif_def eps_def exec_byte_ne_False)

lemma ok_byte_ge: "ok (byte_ge p i v) False = onlyif (i < length p \<and> p ! i < v) eps"
  by (auto simp: ok_def onlyif_def eps_def exec_byte_ge_False)

lemmas check_langs = ok_raise_if ok_any_of ok_byte_ne ok_byte_ge

lemma ok_connect_client [lang_simps]:
  "ok (connect_client s mp cid ver) u =
     cat (tx s (gen_connect mp (Some cid) (no_kwargs\<lparr>k_proto_ver := Some ver\<rparr>)))
       (rx_where s (connack_ok ver))"
proof -
  have check: "ok (raise_if [byte_ne p 0 0x20, Ret (length p < ml), byte_ge p 3 0x80] msg) v =
      onlyif (p ! 0 = 0x20 \<and> ml \<le> length p \<and> p ! 3 < 0x80) eps" if "4 \<le> ml" for p ml msg v
    using that by (auto simp: ok_def check_simps onlyif_def eps_def fun_eq_iff)
  show ?thesis
    unfolding connect_client_def Let_def
    by (simp add: lang_simps check rx_where_def connack_ok_def)
qed

lemma exec_connect_client_ok:
  "exec (connect_client s mp cid ver) t (Inr ()) \<longleftrightarrow> (\<exists>p. frame p \<and> connack_ok ver p \<and>
     t = map (Tx s) (gen_connect mp (Some cid) (no_kwargs\<lparr>k_proto_ver := Some ver\<rparr>)) @ map (Rx s) p)"
  using ok_connect_client [of s mp cid ver "()"]
  by (auto simp: ok_def fun_eq_iff cat_def tx_def rx_where_def rx_def some_def onlyif_def exactly_def)

lemma ok_connect_v5 [lang_simps]:
  "ok (connect_v5 s mp cid) u = cat (tx s (gen_connect mp (Some cid) v5)) (rx_where s (connack_ok 5))"
  by (simp add: connect_v5_def lang_simps)

lemma ok_connect_persistent_v5 [lang_simps]:
  "ok (connect_persistent_v5 s mp cid present) u =
     cat (tx s (gen_connect mp (Some cid) (v5\<lparr>k_clean_session := Some False, k_session_expiry := Some 60\<rparr>)))
       (rx_where s (persistent_ok present))"
proof -
  have check: "ok (raise_if [byte_ne p 0 0x20, Ret (length p < 5),
      byte_ne p 2 (if present then 1 else 0), byte_ne p 3 0] msg) v =
      onlyif (persistent_ok present p) eps" for p msg v
    by (auto simp: ok_def check_simps onlyif_def eps_def persistent_ok_def fun_eq_iff)
  show ?thesis
    unfolding connect_persistent_v5_def by (simp add: lang_simps check rx_where_def)
qed

lemma ok_connect_with [lang_simps]:
  "ok (connect_with s packet msg) u = cat (tx s packet) (rx_where s accepted_ok)"
proof -
  have check: "ok (raise_if [byte_ne p 0 0x20, byte_ne p 3 0] m) v = onlyif (accepted_ok p) eps" for p m v
    by (auto simp: ok_def check_simps onlyif_def eps_def accepted_ok_def fun_eq_iff)
  show ?thesis
    unfolding connect_with_def by (simp add: lang_simps check rx_where_def)
qed

lemma ok_expect_quiet [lang_simps]: "ok (expect_quiet s msg) u = quiet s"
  by (auto simp: ok_def expect_quiet_def quiet_def seq.simps exec_bind_iff exec_try_finally exec_try_except
      exec_simps whenever_def fun_eq_iff split: if_splits)

text \<open>Every outcome of the silence window.\<close>

lemma exec_expect_quiet:
  "exec (expect_quiet s msg) t r \<longleftrightarrow> (\<exists>x. t = [TimeoutSet s 50, x, TimeoutSet s 5000] \<and>
     (x = Failed (Recv s 1) SocketTimeout \<and> r = Inr () \<or> x = Eof s \<and> r = Inr () \<or>
      (\<exists>b. x = Rx s b \<and> r = Inl (AssertionError (msg @ hex [b]))) \<or>
      (\<exists>e. is_os_error e \<and> e \<noteq> SocketTimeout \<and> x = Failed (Recv s 1) e \<and> r = Inl e)))"
proof -
  define probe where "probe = bind (recv s 1) (\<lambda>data.
    whenever (data \<noteq> []) (Raise (AssertionError (msg @ hex data))))"
  have short: "length bs \<le> 1 \<longleftrightarrow> bs = [] \<or> (\<exists>b. bs = [b])" for bs :: bytes
    by (cases bs) auto
  have probe: "exec probe u r' \<longleftrightarrow> u = [Eof s] \<and> r' = Inr () \<or>
      (\<exists>b. u = [Rx s b] \<and> r' = Inl (AssertionError (msg @ hex [b]))) \<or>
      (\<exists>e. is_os_error e \<and> u = [Failed (Recv s 1) e] \<and> r' = Inl e)" for u r'
  proof -
    have "exec (recv s 1) w q \<longleftrightarrow> w = [Eof s] \<and> q = Inr [] \<or> (\<exists>b. w = [Rx s b] \<and> q = Inr [b]) \<or>
        (\<exists>e. is_os_error e \<and> w = [Failed (Recv s 1) e] \<and> q = Inl e)" for w q
      unfolding exec_recv short by auto
    then show ?thesis unfolding probe_def exec_bind_iff by (auto simp: whenever_def exec_skip)
  qed
  have window: "exec (try_except probe (\<lambda>e. e = SocketTimeout) (\<lambda>_. skip)) u r' \<longleftrightarrow> (\<exists>x. u = [x] \<and>
     (x = Failed (Recv s 1) SocketTimeout \<and> r' = Inr () \<or> x = Eof s \<and> r' = Inr () \<or>
      (\<exists>b. x = Rx s b \<and> r' = Inl (AssertionError (msg @ hex [b]))) \<or>
      (\<exists>e. is_os_error e \<and> e \<noteq> SocketTimeout \<and> x = Failed (Recv s 1) e \<and> r' = Inl e)))" for u r'
    unfolding exec_try_except probe exec_skip by auto
  have "exec (expect_quiet s msg) t r \<longleftrightarrow> (\<exists>u. t = [TimeoutSet s 50] @ u @ [TimeoutSet s 5000] \<and>
      exec (try_except probe (\<lambda>e. e = SocketTimeout) (\<lambda>_. skip)) u r)"
    unfolding expect_quiet_def probe_def [symmetric] seq.simps exec_bind_iff exec_try_finally exec_settimeout
    by (cases r) auto
  then show ?thesis unfolding window by auto
qed

lemma ok_expect_dropped [lang_simps]: "ok (expect_dropped s msg) u = dropped s"
  by (auto simp: ok_def expect_dropped_def dropped_def exec_bind_iff exec_try_except
      exec_simps whenever_def fun_eq_iff split: if_splits)

section \<open>Resources\<close>

lemma balanced_any_of [balanced_intros]: "(\<And>c. c \<in> set cs \<Longrightarrow> balanced c) \<Longrightarrow> balanced (any_of cs)"
  by (induction cs) (auto simp: any_of.simps intro!: balanced_intros)

lemma balanced_byte_checks [balanced_intros]: "balanced (byte_ne p i v)" "balanced (byte_ge p i v)"
  unfolding byte_ne_def byte_ge_def by (intro balanced_intros)+

lemma balanced_raise_if:
  "(\<And>c. c \<in> set cs \<Longrightarrow> balanced c) \<Longrightarrow> balanced (raise_if cs msg)"
  unfolding raise_if_def by (intro balanced_intros)

lemma balanced_connect_client [balanced_intros]: "balanced (connect_client s mp cid ver)"
  unfolding connect_client_def Let_def
  by (intro balanced_intros balanced_raise_if) (auto intro: balanced_intros)

lemma balanced_connect_v5 [balanced_intros]: "balanced (connect_v5 s mp cid)"
  unfolding connect_v5_def by (rule balanced_connect_client)

lemma balanced_connect_persistent_v5 [balanced_intros]:
  "balanced (connect_persistent_v5 s mp cid present)"
  unfolding connect_persistent_v5_def
  by (intro balanced_intros balanced_raise_if) (auto intro: balanced_intros)

lemma balanced_connect_with [balanced_intros]: "balanced (connect_with s packet msg)"
  unfolding connect_with_def
  by (intro balanced_intros balanced_raise_if) (auto intro: balanced_intros)

lemma balanced_expect_quiet [balanced_intros]: "balanced (expect_quiet s msg)"
  unfolding expect_quiet_def by (intro balanced_intros)

lemma balanced_expect_dropped [balanced_intros]: "balanced (expect_dropped s msg)"
  unfolding expect_dropped_def by (intro balanced_intros)

end
