(* ===== verification/Conversation.thy ===== *)
theory Conversation
  imports Clients
begin

text \<open>
  The abstract specification of a scenario: a \<^emph>\<open>conversation\<close>, the list of what happens on the
  wire between one broker process and its numbered client connections. \<open>script\<close> gives a list of
  steps its meaning as a language of transcripts, \<open>conversation\<close> adds the start and the clean exit
  of the broker process. The scenario theories prove that a scenario passes on exactly the
  transcripts of its conversation.
\<close>

section \<open>Conversations\<close>

text \<open>Connections are numbered in the order they are opened. \<open>Open\<close> opens the next one;
  \<open>Await i P\<close> receives one packet with the property \<open>P\<close>; \<open>Silent i\<close> is the 50 ms silence
  window, \<open>Ended i\<close> an orderly end of stream, \<open>Gone i\<close> an end of stream or a reset.\<close>

datatype step =
    Open
  | Shut nat
  | Send nat bytes
  | Expect nat bytes
  | Await nat "bytes \<Rightarrow> bool"
  | ExpectPerm nat "bytes list"
  | Silent nat
  | Ended nat
  | Gone nat
  | Pause nat

fun script :: "nat \<Rightarrow> sock list \<Rightarrow> step list \<Rightarrow> lang" where
  "script prt env [] = eps"
| "script prt env (Open # sts) =
     some (\<lambda>s. cat (exactly [Connected s prt, TimeoutSet s 5000]) (script prt (env @ [s]) sts))"
| "script prt env (Shut i # sts) = cat (exactly [Closed (env ! i)]) (script prt env sts)"
| "script prt env (Send i bs # sts) = cat (tx (env ! i) bs) (script prt env sts)"
| "script prt env (Expect i bs # sts) = cat (rx (env ! i) bs) (script prt env sts)"
| "script prt env (Await i P # sts) = cat (rx_where (env ! i) P) (script prt env sts)"
| "script prt env (ExpectPerm i ps # sts) = cat (rx_perm (env ! i) ps) (script prt env sts)"
| "script prt env (Silent i # sts) = cat (quiet (env ! i)) (script prt env sts)"
| "script prt env (Ended i # sts) = cat (exactly [Eof (env ! i)]) (script prt env sts)"
| "script prt env (Gone i # sts) = cat (dropped (env ! i)) (script prt env sts)"
| "script prt env (Pause ms # sts) = cat (exactly [Slept ms]) (script prt env sts)"

definition conversation :: "string \<Rightarrow> nat \<Rightarrow> bool \<Rightarrow> string list \<Rightarrow> step list \<Rightarrow> lang" where
  "conversation exe conns ignore args sts =
     some (\<lambda>prt. some (\<lambda>p. cat (broker_up exe conns ignore args prt p)
       (cat (script prt [] sts) (exactly [Exited p 0]))))"

text \<open>The two steps of an MQTT 5 connection by \<^verbatim>\<open>connect_v5\<close>.\<close>

definition Hello :: "mqtt_packets \<Rightarrow> nat \<Rightarrow> string \<Rightarrow> step list" where
  "Hello mp i cid = [Send i (gen_connect mp (Some cid) v5), Await i (connack_ok 5)]"

text \<open>A SUBSCRIBE answered by its SUBACK; the DISCONNECT a client ends with; and the two QoS 2
  handshakes, from a client to the broker (the PUBLISH excepted) and from the broker to a client.\<close>

definition Subscribe :: "mqtt_packets \<Rightarrow> nat \<Rightarrow> nat \<Rightarrow> string \<Rightarrow> nat \<Rightarrow> nat \<Rightarrow> step list" where
  "Subscribe mp i mid topic options granted =
     [Send i (gen_subscribe mp mid topic options v5), Expect i (gen_suback mp mid granted v5)]"

definition Bye :: "mqtt_packets \<Rightarrow> nat \<Rightarrow> step" where
  "Bye mp i = Send i (gen_disconnect mp v5)"

definition Release :: "mqtt_packets \<Rightarrow> nat \<Rightarrow> nat \<Rightarrow> step list" where
  "Release mp i mid = [Send i (gen_pubrel mp mid v5), Expect i (gen_pubcomp mp mid v5)]"

definition Complete :: "mqtt_packets \<Rightarrow> nat \<Rightarrow> nat \<Rightarrow> step list" where
  "Complete mp i mid =
     [Send i (gen_pubrec mp mid v5), Expect i (gen_pubrel mp mid v5), Send i (gen_pubcomp mp mid v5)]"

definition message :: "nat \<Rightarrow> nat \<Rightarrow> string \<Rightarrow> kwargs" where
  "message qos mid payload = v5\<lparr>k_qos := Some qos, k_mid := Some mid, k_payload := Some (Some payload)\<rparr>"

definition Ping :: "mqtt_packets \<Rightarrow> nat \<Rightarrow> step list" where
  "Ping mp i = [Send i (gen_pingreq mp), Expect i (gen_pingresp mp)]"

definition message0 :: "string \<Rightarrow> kwargs" where
  "message0 payload = v5\<lparr>k_qos := Some 0, k_payload := Some (Some payload)\<rparr>"

lemmas conversation_simps = Ping_def message0_def conversation_def Hello_def Subscribe_def Bye_def Release_def Complete_def
  message_def lang_simps Let_def numeral_2_eq_2 [symmetric]

section \<open>Well-formed conversations\<close>

text \<open>A static discipline: a step uses a connection that has been opened and not yet shut, every
  connection is shut at the end, and exactly \<open>conns\<close> connections are opened. The broker is
  started for that number and leaves once it has served them.\<close>

fun valid :: "nat \<Rightarrow> nat \<Rightarrow> nat list \<Rightarrow> step list \<Rightarrow> bool" where
  "valid conns n live [] \<longleftrightarrow> live = [] \<and> n = conns"
| "valid conns n live (Open # sts) \<longleftrightarrow> valid conns (Suc n) (n # live) sts"
| "valid conns n live (Shut i # sts) \<longleftrightarrow> i \<in> set live \<and> valid conns n (remove1 i live) sts"
| "valid conns n live (Send i bs # sts) \<longleftrightarrow> i \<in> set live \<and> valid conns n live sts"
| "valid conns n live (Expect i bs # sts) \<longleftrightarrow> i \<in> set live \<and> valid conns n live sts"
| "valid conns n live (Await i P # sts) \<longleftrightarrow> i \<in> set live \<and> valid conns n live sts"
| "valid conns n live (ExpectPerm i ps # sts) \<longleftrightarrow> i \<in> set live \<and> valid conns n live sts"
| "valid conns n live (Silent i # sts) \<longleftrightarrow> i \<in> set live \<and> valid conns n live sts"
| "valid conns n live (Ended i # sts) \<longleftrightarrow> i \<in> set live \<and> valid conns n live sts"
| "valid conns n live (Gone i # sts) \<longleftrightarrow> i \<in> set live \<and> valid conns n live sts"
| "valid conns n live (Pause ms # sts) \<longleftrightarrow> valid conns n live sts"

definition well_formed :: "nat \<Rightarrow> step list \<Rightarrow> bool" where
  "well_formed conns sts = valid conns 0 [] sts"

text \<open>The entries of a transcript that acquire and release nothing.\<close>

fun chatter :: "obs \<Rightarrow> bool" where
  "chatter (Tx _ _) = True"
| "chatter (Rx _ _) = True"
| "chatter (Eof _) = True"
| "chatter (TimeoutSet _ _) = True"
| "chatter (Failed _ _) = True"
| "chatter (Slept _) = True"
| "chatter _ = False"

fun is_connected :: "obs \<Rightarrow> bool" where
  "is_connected (Connected _ _) = True"
| "is_connected _ = False"

definition connects :: "obs list \<Rightarrow> nat" where
  "connects t = length (filter is_connected t)"

lemma connects_simps [simp]:
  "connects [] = 0" "connects (x # t) = (if is_connected x then 1 else 0) + connects t"
  "connects (t @ u) = connects t + connects u"
  by (auto simp: connects_def)

text \<open>What a transcript does to connections, sockets and processes.\<close>

definition effect :: "obs list \<Rightarrow> nat \<times> sock multiset \<times> sock multiset \<times> proc multiset \<times> proc multiset" where
  "effect t = (connects t, socks_opened t, socks_closed t, procs_started t, procs_reaped t)"

lemma chatter_effect: "list_all chatter t \<Longrightarrow> effect t = (0, {#}, {#}, {#}, {#})"
proof (induction t)
  case (Cons x t)
  then show ?case by (cases x) (auto simp: effect_def)
qed (simp add: effect_def)

lemma effect_append:
  "effect (t @ u) = (case (effect t, effect u) of ((a, b, c, d, e), (a', b', c', d', e')) \<Rightarrow>
     (a + a', b + b', c + c', d + d', e + e'))"
  by (simp add: effect_def)

definition quiet_lang :: "lang \<Rightarrow> bool" where
  "quiet_lang L \<longleftrightarrow> (\<forall>t. L t \<longrightarrow> list_all chatter t)"

lemma quiet_langs:
  "quiet_lang (tx s bs)" "quiet_lang (rx s bs)" "quiet_lang (rx_where s P)" "quiet_lang (rx_perm s ps)"
  "quiet_lang (quiet s)" "quiet_lang (dropped s)" "quiet_lang (exactly [Eof s])"
  "quiet_lang (exactly [Slept ms])"
  by (auto simp: quiet_lang_def tx_def rx_def rx_where_def rx_perm_def quiet_def dropped_def exactly_def
      onlyif_def some_def list_all_iff)

lemma cat_quiet_effect:
  "quiet_lang A \<Longrightarrow> cat A B t \<Longrightarrow> \<exists>v. B v \<and> effect t = effect v"
  unfolding cat_def quiet_lang_def by (fastforce simp: effect_append chatter_effect split: prod.split)

lemma mset_map_remove1:
  "i \<in> set live \<Longrightarrow> mset (map f live) = add_mset (f i) (mset (map f (remove1 i live)))"
  by (metis image_mset_add_mset mset_map mset_remove1 set_mset_mset insert_DiffM)

lemma script_effect:
  "valid conns n live sts \<Longrightarrow> length env = n \<Longrightarrow> \<forall>i \<in> set live. i < n \<Longrightarrow> script prt env sts t \<Longrightarrow>
     n \<le> conns \<and> (\<exists>S. effect t = (conns - n, S, S + mset (map ((!) env) live), {#}, {#}))"
proof (induction conns n live sts arbitrary: env t rule: valid.induct)
  case (1 conns n live)
  then show ?case by (simp add: eps_def effect_def)
next
  case (2 conns n live sts)
  from 2(5) obtain s v where t: "t = [Connected s prt, TimeoutSet s 5000] @ v"
    and v: "script prt (env @ [s]) sts v"
    by (auto simp: some_def cat_def exactly_def)
  from 2(2,3,4) have "valid conns (Suc n) (n # live) sts" "length (env @ [s]) = Suc n"
    "\<forall>i \<in> set (n # live). i < Suc n" by auto
  from 2(1) [OF this v] obtain S where n: "Suc n \<le> conns"
    and S: "effect v = (conns - Suc n, S, S + mset (map ((!) (env @ [s])) (n # live)), {#}, {#})" by blast
  have "map ((!) (env @ [s])) (n # live) = s # map ((!) env) live"
    using 2(3,4) by (auto simp: nth_append)
  with S have "effect v = (conns - Suc n, S, S + mset (s # map ((!) env) live), {#}, {#})"
    by (simp only:)
  with n have "effect t = (conns - n, S + {#s#}, S + {#s#} + mset (map ((!) env) live), {#}, {#})"
    by (simp add: t effect_def)
  with n show ?case by fastforce
next
  case (3 conns n live i sts)
  from 3(5) obtain v where t: "t = Closed (env ! i) # v" and v: "script prt env sts v"
    by (auto simp: cat_def exactly_def)
  from 3(2,4) have "valid conns n (remove1 i live) sts" "\<forall>i \<in> set (remove1 i live). i < n" and i: "i \<in> set live"
    by (auto dest: notin_set_remove1)
  from 3(1) [OF this(1) 3(3) this(2) v] obtain S where n: "n \<le> conns"
    and S: "effect v = (conns - n, S, S + mset (map ((!) env) (remove1 i live)), {#}, {#})" by blast
  have "effect t = (conns - n, S, S + mset (map ((!) env) live), {#}, {#})"
    using S unfolding mset_map_remove1 [OF i, of "(!) env"] by (simp add: t effect_def)
  with n show ?case by blast
qed (simp_all, (metis cat_quiet_effect quiet_langs)+)

lemma conversation_effect:
  assumes "conversation exe conns ignore args sts t" "well_formed conns sts"
  shows "\<exists>S p. effect t = (conns, S, S, {#p#}, {#p#})"
proof -
  from assms(1) obtain prt p u v where t: "t = u @ v @ [Exited p 0]"
    and u: "broker_up exe conns ignore args prt p u" and v: "script prt [] sts v"
    unfolding conversation_def some_def cat_def exactly_def by blast
  from script_effect [OF assms(2) [unfolded well_formed_def] _ _ v] obtain S
    where "effect v = (conns, S, S, {#}, {#})" by auto
  moreover from u obtain x where "effect u = (0, {#x#}, {#x#}, {#p#}, {#})"
    by (auto simp: broker_up_def effect_def)
  ultimately have "effect t = (conns, S + {#x#}, S + {#x#}, {#p#}, {#p#})"
    by (simp add: t effect_def)
  then show ?thesis by blast
qed

section \<open>Sessions in a row\<close>

text \<open>\<open>sessions exe cs\<close> is one broker process after the other, each with its own conversation.
  \<open>served exe n L\<close>: every transcript of \<open>L\<close> is that of \<open>n\<close> well-formed conversations.\<close>

type_synonym session = "nat \<times> bool \<times> string list \<times> step list"

fun sessions :: "string \<Rightarrow> session list \<Rightarrow> lang" where
  "sessions exe [] = eps"
| "sessions exe ((conns, ignore, args, sts) # cs) = cat (conversation exe conns ignore args sts) (sessions exe cs)"

definition served :: "string \<Rightarrow> nat \<Rightarrow> lang \<Rightarrow> bool" where
  "served exe n L \<longleftrightarrow> (\<forall>t. L t \<longrightarrow> (\<exists>cs. length cs = n \<and>
     (\<forall>(conns, ignore, args, sts) \<in> set cs. well_formed conns sts) \<and> sessions exe cs t))"

lemma sessions_append: "sessions exe (cs @ ds) = cat (sessions exe cs) (sessions exe ds)"
  by (induction exe cs rule: sessions.induct) (simp_all add: lang_simps)

lemma served_conversation:
  "well_formed conns sts \<Longrightarrow> served exe 1 (conversation exe conns ignore args sts)"
  unfolding served_def
  by (intro allI impI exI [of _ "[(conns, ignore, args, sts)]"]) (simp add: lang_simps)

lemma served_cat: "served exe m A \<Longrightarrow> served exe n B \<Longrightarrow> served exe (m + n) (cat A B)"
proof -
  assume A: "served exe m A" and B: "served exe n B"
  have "\<exists>cs. length cs = m + n \<and> (\<forall>(conns, ignore, args, sts) \<in> set cs. well_formed conns sts) \<and>
      sessions exe cs t" if t: "cat A B t" for t
  proof -
    from t obtain u v where "t = u @ v" "A u" "B v" unfolding cat_def by blast
    with A B obtain cs ds where "length cs = m" "\<forall>(conns, ignore, args, sts) \<in> set cs. well_formed conns sts"
      "sessions exe cs u" "length ds = n" "\<forall>(conns, ignore, args, sts) \<in> set ds. well_formed conns sts"
      "sessions exe ds v" unfolding served_def by blast
    with \<open>t = u @ v\<close> have "length (cs @ ds) = m + n \<and>
        (\<forall>(conns, ignore, args, sts) \<in> set (cs @ ds). well_formed conns sts) \<and> sessions exe (cs @ ds) t"
      by (auto simp: sessions_append cat_def)
    then show ?thesis by blast
  qed
  then show ?thesis unfolding served_def by blast
qed

lemma served_eps: "served exe 0 eps"
  by (simp add: served_def eps_def)

lemma served_some: "(\<And>x. served exe n (A x)) \<Longrightarrow> served exe n (some A)"
  by (auto simp: served_def some_def)

lemma served_onlyif: "served exe n A \<Longrightarrow> served exe n (onlyif c A)"
  by (auto simp: served_def onlyif_def)

text \<open>\<open>n\<close> sessions start \<open>n\<close> processes, reap each of them, and close every socket they open.\<close>

lemma sessions_effect:
  "\<forall>(conns, ignore, args, sts) \<in> set cs. well_formed conns sts \<Longrightarrow> sessions exe cs t \<Longrightarrow>
     \<exists>S P. effect t = (sum_list (map fst cs), S, S, P, P) \<and> size P = length cs"
proof (induction exe cs arbitrary: t rule: sessions.induct)
  case (1 exe)
  then show ?case by (simp add: eps_def effect_def)
next
  case (2 exe conns ignore args sts cs)
  from 2(3) obtain u v where t: "t = u @ v" and u: "conversation exe conns ignore args sts u"
    and v: "sessions exe cs v" by (auto simp: cat_def)
  from 2(2) have "well_formed conns sts" by simp
  with conversation_effect [OF u] obtain S p where 1: "effect u = (conns, S, S, {#p#}, {#p#})" by blast
  from 2(1) [OF _ v] 2(2) obtain S' P where 2: "effect v = (sum_list (map fst cs), S', S', P, P)"
    "size P = length cs" by auto
  from 1 2 have "effect t = (conns + sum_list (map fst cs), S + S', S + S', {#p#} + P, {#p#} + P)"
    by (simp add: t effect_def)
  with 2(2) show ?case by fastforce
qed

end
