(* ===== verification/Scenarios_Basic.thy ===== *)
theory Scenarios_Basic
  imports Conversation
begin

text \<open>
  Scenarios on publishing and subscribing over a single connection, and on hostile first
  packets: \<^verbatim>\<open>no_matching_subscribers\<close>, \<^verbatim>\<open>subscription_identifiers\<close>,
  \<^verbatim>\<open>multiple_subscription_identifiers\<close>, \<^verbatim>\<open>hostile_initial_packets\<close>.
\<close>

section \<open>The code\<close>

definition no_matching_subscribers :: "string \<Rightarrow> mqtt_packets \<Rightarrow> mqtt5_rc \<Rightarrow> unit prog" where
  "no_matching_subscribers exe mp rc =
     with_broker exe 1 False [] (\<lambda>broker.
     with_connection broker (\<lambda>sock.
       let topics = [''03B/no/subs/pub'', ''03B/no/subs/pub/qos1'', ''03B/no/subs/pub/qos1/test''];
           mid_after = 1 + length topics
       in seq [
         connect_v5 sock mp ''03-pub-qos1-no-subs'',
         for_each (enumerate_from 1 topics) (\<lambda>(mid, topic). seq [
           sendall sock (gen_publish mp topic
             (v5\<lparr>k_qos := Some 1, k_mid := Some mid, k_payload := Some (Some ''message'')\<rparr>)),
           expect_packet sock
             (gen_puback mp mid (v5\<lparr>k_reason_code := Some (Code (NO_MATCHING_SUBSCRIBERS rc))\<rparr>))
             (''no-match PUBACK '' @ decimal mid)]),
         sendall sock (gen_publish mp (last topics)
           (v5\<lparr>k_qos := Some 1, k_mid := Some mid_after, k_payload := Some (Some ''message''),
              k_retain := Some True\<rparr>)),
         expect_packet sock
           (gen_puback mp mid_after (v5\<lparr>k_reason_code := Some (Code (NO_MATCHING_SUBSCRIBERS rc))\<rparr>))
           ''retained no-match PUBACK'',
         sendall sock (gen_disconnect mp v5)]))"

definition subid_prop :: "mqtt5_props \<Rightarrow> nat option \<Rightarrow> bytes" where
  "subid_prop pr identifier = (case identifier of
     Some i \<Rightarrow> gen_varint_prop pr (SUBSCRIPTION_IDENTIFIER pr) i | None \<Rightarrow> [])"

definition subscription_identifiers :: "string \<Rightarrow> mqtt_packets \<Rightarrow> mqtt5_props \<Rightarrow> unit prog" where
  "subscription_identifiers exe mp pr =
     with_broker exe 1 False [] (\<lambda>broker.
     with_connection broker (\<lambda>sock. seq [
       connect_v5 sock mp ''02-subpub-subid'',
       for_each [(1, ''02/subpub/subid/id1'', Some 1),
                 (2, ''02/subpub/subid/+/id2'', Some 14),
                 (3, ''02/subpub/subid/noid'', None),
                 (4, ''02/subpub/subid/id1'', None),
                 (5, ''02/subpub/subid/+/id2'', Some 19),
                 (6, ''02/subpub/subid/noid'', Some 21)] (\<lambda>(mid, topic, identifier). seq [
         sendall sock (gen_subscribe mp mid topic 0 (v5\<lparr>k_properties := Some (subid_prop pr identifier)\<rparr>)),
         expect_packet sock (gen_suback mp mid 0 v5) (''SUBACK '' @ decimal mid)]),
       for_each [(''02/subpub/subid/test/id2'', ''message2'', Some 19),
                 (''02/subpub/subid/noid'', ''message3'', Some 21),
                 (''02/subpub/subid/id1'', ''message1'', None)] (\<lambda>(topic, payload, identifier). seq [
         sendall sock (gen_publish mp topic (v5\<lparr>k_qos := Some 0, k_payload := Some (Some payload)\<rparr>)),
         expect_packet sock (gen_publish mp topic
             (v5\<lparr>k_qos := Some 0, k_payload := Some (Some payload),
                k_properties := Some (subid_prop pr identifier)\<rparr>))
           (''forwarded PUBLISH '' @ topic)]),
       sendall sock (gen_disconnect mp v5)]))"

definition multiple_subscription_identifiers ::
  "string \<Rightarrow> mqtt_packets \<Rightarrow> mqtt5_props \<Rightarrow> mqtt5_opts \<Rightarrow> unit prog" where
  "multiple_subscription_identifiers exe mp pr op =
     (let topic = ''multi/subid/value'' in
      with_broker exe 1 False [] (\<lambda>broker.
      with_connection broker (\<lambda>sock. seq [
        connect_v5 sock mp ''multi-subscription-id'',
        for_each [(1, ''multi/subid/value'', 3, 0),
                  (2, ''multi/subid/+'', 9, 1 OR MQTT_SUB_OPT_RETAIN_AS_PUBLISHED op)]
          (\<lambda>(mid, topic_filter, identifier, options).
            let properties = gen_varint_prop pr (SUBSCRIPTION_IDENTIFIER pr) identifier in seq [
            sendall sock (gen_subscribe mp mid topic_filter options (v5\<lparr>k_properties := Some properties\<rparr>)),
            expect_packet sock (gen_suback mp mid (options AND 0x03) v5)
              (''multi-subid SUBACK '' @ decimal mid)]),
        sendall sock (gen_publish mp topic
          (v5\<lparr>k_qos := Some 1, k_mid := Some 10, k_payload := Some (Some ''both''), k_retain := Some True\<rparr>)),
        expect_packet sock (gen_puback mp 10 v5) ''multi-subid publisher PUBACK'',
        (let properties = gen_varint_prop pr (SUBSCRIPTION_IDENTIFIER pr) 3
                          @ gen_varint_prop pr (SUBSCRIPTION_IDENTIFIER pr) 9 in
         expect_packet sock (gen_publish mp topic
           (v5\<lparr>k_qos := Some 1, k_mid := Some 1, k_payload := Some (Some ''both''),
              k_retain := Some True, k_properties := Some properties\<rparr>))
           ''multi-subid forwarded PUBLISH''),
        sendall sock (gen_puback mp 1 v5),
        sendall sock (gen_disconnect mp v5)])))"

definition hostile_initial_packets :: "string \<Rightarrow> mqtt_packets \<Rightarrow> unit prog" where
  "hostile_initial_packets exe mp =
     (let packet_types = [2..<16] in
      with_broker exe (length packet_types + 1) True [] (\<lambda>broker. seq [
        for_each packet_types (\<lambda>packet_type.
          with_connection broker (\<lambda>sock. seq [
            sendall sock [push_bit 4 (of_nat packet_type), 0x80, 0x80, 0x80, 0x74],
            expect_dropped sock (''initial packet type '' @ decimal packet_type @ '' received '')])),
        with_connection broker (\<lambda>sock. seq [
          connect_v5 sock mp ''after-hostile-initial'',
          sendall sock (gen_disconnect mp v5)])]))"

section \<open>Conversations\<close>

definition no_matching_subscribers_steps :: "mqtt_packets \<Rightarrow> mqtt5_rc \<Rightarrow> step list" where
  "no_matching_subscribers_steps mp rc =
     ([Open] @ Hello mp 0 ''03-pub-qos1-no-subs'' @
      [Send 0 (gen_publish mp ''03B/no/subs/pub''
         (v5\<lparr>k_qos := Some 1, k_mid := Some 1, k_payload := Some (Some ''message'')\<rparr>)),
       Expect 0 (gen_puback mp 1 (v5\<lparr>k_reason_code := Some (Code (NO_MATCHING_SUBSCRIBERS rc))\<rparr>)),
       Send 0 (gen_publish mp ''03B/no/subs/pub/qos1''
         (v5\<lparr>k_qos := Some 1, k_mid := Some 2, k_payload := Some (Some ''message'')\<rparr>)),
       Expect 0 (gen_puback mp 2 (v5\<lparr>k_reason_code := Some (Code (NO_MATCHING_SUBSCRIBERS rc))\<rparr>)),
       Send 0 (gen_publish mp ''03B/no/subs/pub/qos1/test''
         (v5\<lparr>k_qos := Some 1, k_mid := Some 3, k_payload := Some (Some ''message'')\<rparr>)),
       Expect 0 (gen_puback mp 3 (v5\<lparr>k_reason_code := Some (Code (NO_MATCHING_SUBSCRIBERS rc))\<rparr>)),
       Send 0 (gen_publish mp ''03B/no/subs/pub/qos1/test''
         (v5\<lparr>k_qos := Some 1, k_mid := Some 4, k_payload := Some (Some ''message''), k_retain := Some True\<rparr>)),
       Expect 0 (gen_puback mp 4 (v5\<lparr>k_reason_code := Some (Code (NO_MATCHING_SUBSCRIBERS rc))\<rparr>)),
       Send 0 (gen_disconnect mp v5), Shut 0])"

lemma no_matching_subscribers_conv:
  "ok (no_matching_subscribers exe mp rc) u = conversation exe 1 False [] (no_matching_subscribers_steps mp rc)"
  by (simp add: no_matching_subscribers_def no_matching_subscribers_steps_def conversation_simps)

definition subscription_identifiers_steps :: "mqtt_packets \<Rightarrow> mqtt5_props \<Rightarrow> step list" where
  "subscription_identifiers_steps mp pr =
     (let sub = (\<lambda>mid topic ident. [
            Send 0 (gen_subscribe mp mid topic 0 (v5\<lparr>k_properties := Some ident\<rparr>)),
            Expect 0 (gen_suback mp mid 0 v5)]);
          pub = (\<lambda>topic payload ident. [
            Send 0 (gen_publish mp topic (v5\<lparr>k_qos := Some 0, k_payload := Some (Some payload)\<rparr>)),
            Expect 0 (gen_publish mp topic
              (v5\<lparr>k_qos := Some 0, k_payload := Some (Some payload), k_properties := Some ident\<rparr>))]);
          subid = gen_varint_prop pr (SUBSCRIPTION_IDENTIFIER pr)
      in ([Open] @ Hello mp 0 ''02-subpub-subid'' @
        sub 1 ''02/subpub/subid/id1'' (subid 1) @ sub 2 ''02/subpub/subid/+/id2'' (subid 14) @
        sub 3 ''02/subpub/subid/noid'' [] @ sub 4 ''02/subpub/subid/id1'' [] @
        sub 5 ''02/subpub/subid/+/id2'' (subid 19) @ sub 6 ''02/subpub/subid/noid'' (subid 21) @
        pub ''02/subpub/subid/test/id2'' ''message2'' (subid 19) @
        pub ''02/subpub/subid/noid'' ''message3'' (subid 21) @
        pub ''02/subpub/subid/id1'' ''message1'' [] @
        [Send 0 (gen_disconnect mp v5), Shut 0]))"

lemma subscription_identifiers_conv:
  "ok (subscription_identifiers exe mp pr) u = conversation exe 1 False [] (subscription_identifiers_steps mp pr)"
  by (simp add: subscription_identifiers_def subscription_identifiers_steps_def subid_prop_def conversation_simps)

definition multiple_subscription_identifiers_steps :: "mqtt_packets \<Rightarrow> mqtt5_props \<Rightarrow> mqtt5_opts \<Rightarrow> step list" where
  "multiple_subscription_identifiers_steps mp pr op =
     (let subid = gen_varint_prop pr (SUBSCRIPTION_IDENTIFIER pr);
          rap = 1 OR MQTT_SUB_OPT_RETAIN_AS_PUBLISHED op;
          both = v5\<lparr>k_qos := Some 1, k_payload := Some (Some ''both''), k_retain := Some True\<rparr>
      in ([Open] @ Hello mp 0 ''multi-subscription-id'' @
        [Send 0 (gen_subscribe mp 1 ''multi/subid/value'' 0 (v5\<lparr>k_properties := Some (subid 3)\<rparr>)),
         Expect 0 (gen_suback mp 1 0 v5),
         Send 0 (gen_subscribe mp 2 ''multi/subid/+'' rap (v5\<lparr>k_properties := Some (subid 9)\<rparr>)),
         Expect 0 (gen_suback mp 2 (rap AND 3) v5),
         Send 0 (gen_publish mp ''multi/subid/value'' (both\<lparr>k_mid := Some 10\<rparr>)),
         Expect 0 (gen_puback mp 10 v5),
         Expect 0 (gen_publish mp ''multi/subid/value''
           (both\<lparr>k_mid := Some 1, k_properties := Some (subid 3 @ subid 9)\<rparr>)),
         Send 0 (gen_puback mp 1 v5), Send 0 (gen_disconnect mp v5), Shut 0]))"

lemma multiple_subscription_identifiers_conv:
  "ok (multiple_subscription_identifiers exe mp pr op) u = conversation exe 1 False [] (multiple_subscription_identifiers_steps mp pr op)"
  by (simp add: multiple_subscription_identifiers_def multiple_subscription_identifiers_steps_def conversation_simps no_kwargs_def)

text \<open>Fourteen connections are probed with the packet types 2 to 15 and dropped; the fifteenth works.\<close>

definition hostile_initial_packets_steps :: "mqtt_packets \<Rightarrow> step list" where
  "hostile_initial_packets_steps mp =
     (concat (map (\<lambda>i. [Open, Send i [push_bit 4 (of_nat (i + 2)), 0x80, 0x80, 0x80, 0x74], Gone i, Shut i])
          [0..<14]) @
        [Open] @ Hello mp 14 ''after-hostile-initial'' @ [Send 14 (gen_disconnect mp v5), Shut 14])"

lemma hostile_initial_packets_conv:
  "ok (hostile_initial_packets exe mp) u = conversation exe 15 True [] (hostile_initial_packets_steps mp)"
  by (simp add: hostile_initial_packets_def hostile_initial_packets_steps_def conversation_simps upt_rec)

lemmas basic_steps = no_matching_subscribers_steps_def subscription_identifiers_steps_def multiple_subscription_identifiers_steps_def hostile_initial_packets_steps_def

end
