(* ===== verification/Scenarios_Session.thy ===== *)
theory Scenarios_Session
  imports Conversation
begin

text \<open>
  Scenarios on CONNECT and the session: \<^verbatim>\<open>assigned_client_identifier\<close>,
  \<^verbatim>\<open>server_keep_alive\<close>, \<^verbatim>\<open>duplicate_client_takeover\<close>, \<^verbatim>\<open>disconnect_session_expiry\<close>.
\<close>

section \<open>The code\<close>

definition hex_digits :: string where
  "hex_digits = ''0123456789abcdef''"

text \<open>The body of the loop of \<^verbatim>\<open>assigned_client_identifier\<close>: connect without a client
  identifier, take the CONNACK apart, and return the identifier.\<close>

definition assigned_client :: "mqtt_packets \<Rightarrow> mqtt5_props \<Rightarrow> nat \<Rightarrow> sock \<Rightarrow> string prog" where
  "assigned_client mp pr index sock =
     bind (sendall sock (gen_connect mp None (v5\<lparr>k_clean_session := Some True\<rparr>))) (\<lambda>_.
     bind (read_packet sock) (\<lambda>connack.
     let failed = (\<lambda>what. ''assigned client '' @ decimal index @ what @ hex connack) in
     bind (raise_if [byte_ne connack 0 0x20, Ret (slice 2 4 connack \<noteq> [0, 0]), Ret (length connack < 5)]
       (failed '' invalid CONNACK: '')) (\<lambda>_.
     bind (item connack 4) (\<lambda>b4.
     let property_length = unat b4 in
     bind (raise_if [Ret (5 + property_length \<noteq> length connack)]
       (failed '' malformed property length: '')) (\<lambda>_.
     let properties = slice 5 (5 + property_length) connack in
     bind (raise_if [Ret (length properties < 3),
         bind (item properties 0) (\<lambda>b. Ret (unat b \<noteq> ASSIGNED_CLIENT_IDENTIFIER pr))]
       (failed '' missing property: '')) (\<lambda>_.
     let value_len = from_bytes_big (slice 1 3 properties);
         value = slice 3 (3 + value_len) properties in
     bind (raise_if [Ret (length value \<noteq> value_len)] (failed '' malformed property: '')) (\<lambda>_.
     bind (case decode_ascii value of None \<Rightarrow> Raise UnicodeDecodeError | Some s \<Rightarrow> Ret s) (\<lambda>client_id.
     let parts = split (CHR ''-'') (removeprefix client_id ''netz-'') in
     bind (raise_if [Ret (\<not> startswith client_id ''netz-''),
         Ret (map length parts \<noteq> [8, 4, 4, 4, 12]),
         Ret (\<exists>part \<in> set parts. \<exists>char \<in> set part. char \<notin> set hex_digits)]
       (''assigned client '' @ decimal index @ '' invalid identifier: '' @ repr_str client_id)) (\<lambda>_.
     let base_properties = drop 5 (expected_connack mp pr connack_defaults) in
     bind (raise_if [Ret (drop (3 + value_len) properties \<noteq> base_properties)]
       (failed '' invalid capabilities: '')) (\<lambda>_.
     Ret client_id))))))))))"

definition assigned_client_identifier :: "string \<Rightarrow> mqtt_packets \<Rightarrow> mqtt5_props \<Rightarrow> unit prog" where
  "assigned_client_identifier exe mp pr =
     with_broker exe 2 False [] (\<lambda>broker.
     with_connection broker (\<lambda>first. with_connection broker (\<lambda>second.
       bind (collect (enumerate_from 1 [first, second]) (\<lambda>(index, sock). assigned_client mp pr index sock))
       (\<lambda>assigned_ids.
       bind (item assigned_ids 0) (\<lambda>id0. bind (item assigned_ids 1) (\<lambda>id1. seq [
         whenever (id0 = id1) (Raise (AssertionError ''anonymous clients received duplicate identifiers'')),
         sendall first (gen_pingreq mp),
         expect_packet first (gen_pingresp mp) ''first anonymous client remains live'',
         sendall first (gen_disconnect mp v5),
         sendall second (gen_disconnect mp v5)]))))))"

definition server_keep_alive :: "string \<Rightarrow> mqtt_packets \<Rightarrow> mqtt5_props \<Rightarrow> unit prog" where
  "server_keep_alive exe mp pr =
     (let override_seconds = 60 in
      with_broker exe 1 False [''--server-keep-alive='' @ decimal override_seconds] (\<lambda>broker.
      with_connection broker (\<lambda>sock. seq [
        sendall sock (gen_connect mp (Some ''server-keep-alive'')
          (v5\<lparr>k_keepalive := Some (override_seconds + 1)\<rparr>)),
        (let expected = expected_connack mp pr (connack_defaults\<lparr>extra_properties :=
               gen_uint16_prop pr (SERVER_KEEP_ALIVE pr) override_seconds\<rparr>) in
         expect_packet sock expected ''Server Keep Alive CONNACK''),
        sendall sock (gen_pingreq mp),
        expect_packet sock (gen_pingresp mp) ''PINGRESP after Server Keep Alive'',
        sendall sock (gen_disconnect mp v5)])))"

definition duplicate_client_takeover ::
  "string \<Rightarrow> mqtt_packets \<Rightarrow> mqtt5_props \<Rightarrow> mqtt5_rc \<Rightarrow> unit prog" where
  "duplicate_client_takeover exe mp pr rc =
     (let client_id = ''take-over'';
          connect_packet = gen_connect mp (Some client_id) v5;
          connack_packet = expected_connack mp pr connack_defaults in
      with_broker exe 2 False [] (\<lambda>broker.
      with_connection broker (\<lambda>first. with_connection broker (\<lambda>replacement. seq [
        sendall first connect_packet,
        expect_packet first connack_packet ''initial takeover CONNACK'',
        sendall replacement connect_packet,
        expect_packet replacement connack_packet ''replacement takeover CONNACK'',
        expect_packet first
          (gen_disconnect mp (v5\<lparr>k_reason_code := Some (Code (SESSION_TAKEN_OVER rc))\<rparr>))
          ''displaced client DISCONNECT'',
        sendall replacement (gen_pingreq mp),
        expect_packet replacement (gen_pingresp mp) ''replacement PINGRESP'',
        sendall replacement (gen_disconnect mp v5)]))))"

text \<open>The local functions \<^verbatim>\<open>connect\<close> and \<^verbatim>\<open>disconnect\<close> of \<^verbatim>\<open>disconnect_session_expiry\<close>.\<close>

definition expiry_connect ::
  "mqtt_packets \<Rightarrow> mqtt5_props \<Rightarrow> bytes \<Rightarrow> sock \<Rightarrow> bool \<Rightarrow> string \<Rightarrow> unit prog" where
  "expiry_connect mp pr connect_packet sock present label = seq [
     sendall sock connect_packet,
     expect_packet sock (expected_connack mp pr (connack_defaults\<lparr>session_present := present\<rparr>)) label]"

definition expiry_disconnect :: "mqtt_packets \<Rightarrow> sock \<Rightarrow> bytes \<Rightarrow> unit prog" where
  "expiry_disconnect mp sock properties = seq [
     sendall sock (gen_disconnect mp (v5\<lparr>k_properties := Some properties\<rparr>)),
     bind (recv sock 1) (\<lambda>data.
       if data \<noteq> [] then Raise (AssertionError ''broker sent data after DISCONNECT'') else Ret ())]"

definition disconnect_session_expiry :: "string \<Rightarrow> mqtt_packets \<Rightarrow> mqtt5_props \<Rightarrow> unit prog" where
  "disconnect_session_expiry exe mp pr =
     (let client_id = ''session-expiry'';
          connect_packet = gen_connect mp (Some client_id)
            (v5\<lparr>k_clean_session := Some False, k_session_expiry := Some 1\<rparr>);
          expiry_three = gen_uint32_prop pr (SESSION_EXPIRY_INTERVAL pr) 3;
          expiry_zero = gen_uint32_prop pr (SESSION_EXPIRY_INTERVAL pr) 0;
          connect = expiry_connect mp pr connect_packet;
          disconnect = expiry_disconnect mp in
      with_broker exe 4 False [] (\<lambda>broker. seq [
        with_connection broker (\<lambda>first. seq [
          connect first False ''initial Session Expiry CONNACK'',
          disconnect first expiry_three]),
        sleep 2000,
        with_connection broker (\<lambda>extended. seq [
          connect extended True ''extended Session Expiry CONNACK'',
          disconnect extended expiry_three]),
        sleep 4000,
        with_connection broker (\<lambda>expired. seq [
          connect expired False ''expired Session CONNACK'',
          disconnect expired expiry_zero]),
        with_connection broker (\<lambda>removed. seq [
          connect removed False ''zero Session Expiry CONNACK'',
          sendall removed (gen_disconnect mp v5)])]))"

section \<open>Assigned client identifiers\<close>

text \<open>The identifiers the scenario accepts: \<^verbatim>\<open>netz-\<close> and five groups of 8, 4, 4, 4 and 12
  lower-case hexadecimal digits.\<close>

definition hex_group :: "nat \<Rightarrow> string \<Rightarrow> bool" where
  "hex_group n g \<longleftrightarrow> length g = n \<and> set g \<subseteq> set hex_digits"

definition netz_uuid :: "string \<Rightarrow> bool" where
  "netz_uuid cid \<longleftrightarrow> (\<exists>a b c d e. hex_group 8 a \<and> hex_group 4 b \<and> hex_group 4 c \<and> hex_group 4 d \<and>
     hex_group 12 e \<and> cid = ''netz-'' @ a @ ''-'' @ b @ ''-'' @ c @ ''-'' @ d @ ''-'' @ e)"

text \<open>The CONNACK that assigns \<open>cid\<close>: success without a session, the identifier first among
  the properties, then the properties of every other CONNACK and nothing else.\<close>

definition assigned_connack :: "mqtt_packets \<Rightarrow> mqtt5_props \<Rightarrow> string \<Rightarrow> bytes \<Rightarrow> bool" where
  "assigned_connack mp pr cid p \<longleftrightarrow> netz_uuid cid \<and>
     (\<exists>rl plen tag. p = [0x20, rl, 0, 0, plen, tag, 0, 41] @ encode_ascii cid @
          drop 5 (expected_connack mp pr connack_defaults) \<and>
        unat plen + 5 = length p \<and> unat tag = ASSIGNED_CLIENT_IDENTIFIER pr)"

lemma netz_uuid_iff:
  "netz_uuid cid \<longleftrightarrow> (let parts = split (CHR ''-'') (removeprefix cid ''netz-'') in
     startswith cid ''netz-'' \<and> map length parts = [8, 4, 4, 4, 12] \<and>
     (\<forall>part \<in> set parts. \<forall>char \<in> set part. char \<in> set hex_digits))" (is "?L \<longleftrightarrow> ?R")
proof
  assume ?L
  then obtain a b c d e where g: "hex_group 8 a" "hex_group 4 b" "hex_group 4 c" "hex_group 4 d"
      "hex_group 12 e" and cid: "cid = ''netz-'' @ a @ ''-'' @ b @ ''-'' @ c @ ''-'' @ d @ ''-'' @ e"
    unfolding netz_uuid_def by blast
  have no: "CHR ''-'' \<notin> set x" if "hex_group n x" for n x
    using that unfolding hex_group_def hex_digits_def by auto
  have "removeprefix cid ''netz-'' = a @ CHR ''-'' # b @ CHR ''-'' # c @ CHR ''-'' # d @ CHR ''-'' # e"
    by (simp add: cid removeprefix_def startswith_def)
  then have "split (CHR ''-'') (removeprefix cid ''netz-'') = [a, b, c, d, e]"
    using no g by (simp add: split_append split_single)
  with g cid show ?R by (auto simp: hex_group_def startswith_def)
next
  assume ?R
  define parts where "parts = split (CHR ''-'') (removeprefix cid ''netz-'')"
  with \<open>?R\<close> have sw: "startswith cid ''netz-''" and len: "map length parts = [8, 4, 4, 4, 12]"
    and hex: "\<And>part. part \<in> set parts \<Longrightarrow> set part \<subseteq> set hex_digits"
    by (simp_all add: Let_def subset_iff)
  from len obtain a b c d e where abcde: "parts = [a, b, c, d, e]"
    by (auto simp: map_eq_Cons_conv)
  from sw have "cid = ''netz-'' @ removeprefix cid ''netz-''"
    by (rule startswith_removeprefix)
  also have "removeprefix cid ''netz-'' = join ''-'' parts"
    by (simp add: parts_def join_split)
  finally have "cid = ''netz-'' @ a @ ''-'' @ b @ ''-'' @ c @ ''-'' @ d @ ''-'' @ e"
    by (simp add: abcde)
  moreover have "hex_group 8 a" "hex_group 4 b" "hex_group 4 c" "hex_group 4 d" "hex_group 12 e"
    using len hex by (auto simp: abcde hex_group_def)
  ultimately show ?L unfolding netz_uuid_def by blast
qed

lemma length_netz_uuid: "netz_uuid cid \<Longrightarrow> length cid = 41"
  by (auto simp: netz_uuid_def hex_group_def)

lemma decode_ascii_iff:
  "decode_ascii v = Some cid \<longleftrightarrow> v = encode_ascii cid \<and> (\<forall>c \<in> set cid. of_char c < (128 :: nat))"
proof -
  have byte: "of_char (char_of (unat b) :: char) = b" if "unat b < 128" for b :: byte
  proof -
    have "of_char (char_of (unat b) :: char) = (of_nat (of_char (char_of (unat b) :: char)) :: byte)"
      by (rule of_nat_of_char [symmetric])
    also have "of_char (char_of (unat b) :: char) = unat b mod 256" by (rule of_char_of)
    finally show ?thesis using that by simp
  qed
  have small: "unat b mod 256 = unat b" for b :: byte using unsigned_less [of b, where ?'a = nat] by simp
  have char: "unat (of_char c :: byte) = of_char c" "char_of (unat (of_char c :: byte)) = c" for c :: char
  proof -
    have "(of_char c :: byte) = of_nat (of_char c)" by (rule of_nat_of_char [symmetric])
    then show "unat (of_char c :: byte) = of_char c"
      by (simp add: unat_of_nat)
    then show "char_of (unat (of_char c :: byte)) = c" by simp
  qed
  show ?thesis
  proof
    assume "decode_ascii v = Some cid"
    then show "v = encode_ascii cid \<and> (\<forall>c \<in> set cid. of_char c < (128 :: nat))"
      by (auto simp: decode_ascii_def encode_ascii_def byte small map_idI split: if_splits)
  next
    assume "v = encode_ascii cid \<and> (\<forall>c \<in> set cid. of_char c < (128 :: nat))"
    then show "decode_ascii v = Some cid"
      by (auto simp: decode_ascii_def encode_ascii_def char map_idI)
  qed
qed

lemma netz_uuid_ascii: "netz_uuid cid \<Longrightarrow> \<forall>c \<in> set cid. of_char c < (128 :: nat)"
proof -
  have digit: "of_char c < (128 :: nat)" if "hex_group n x" "c \<in> set x" for n x c
  proof -
    have "\<forall>c \<in> set hex_digits. of_char c < (128 :: nat)" by (simp add: hex_digits_def)
    with that show ?thesis unfolding hex_group_def by blast
  qed
  assume "netz_uuid cid"
  then show ?thesis unfolding netz_uuid_def by (elim exE conjE) (auto dest: digit)
qed

text \<open>What the scenario checks step by step, and that this is the layout of \<^const>\<open>assigned_connack\<close>.\<close>

definition assigned_parse :: "mqtt_packets \<Rightarrow> mqtt5_props \<Rightarrow> string \<Rightarrow> bytes \<Rightarrow> bool" where
  "assigned_parse mp pr cid p \<longleftrightarrow>
     (let props = slice 5 (5 + unat (p ! 4)) p; n = from_bytes_big (slice 1 3 props) in
      5 \<le> length p \<and> p ! 0 = 0x20 \<and> slice 2 4 p = [0, 0] \<and> 5 + unat (p ! 4) = length p \<and>
      3 \<le> length props \<and> unat (props ! 0) = ASSIGNED_CLIENT_IDENTIFIER pr \<and>
      length (slice 3 (3 + n) props) = n \<and> decode_ascii (slice 3 (3 + n) props) = Some cid \<and>
      netz_uuid cid \<and> drop (3 + n) props = drop 5 (expected_connack mp pr connack_defaults))"

lemma ok_decoded:
  "ok (case d of None \<Rightarrow> Raise e | Some x \<Rightarrow> Ret x) y = onlyif (d = Some y) eps"
  by (cases d) (auto simp: lang_simps onlyif_def)

lemma ok_assigned_client_parse:
  "ok (assigned_client mp pr i s) cid =
     cat (tx s (gen_connect mp None (v5\<lparr>k_clean_session := Some True\<rparr>)))
       (rx_where s (assigned_parse mp pr cid))"
  unfolding assigned_client_def Let_def rx_where_def
  by (simp add: lang_simps check_langs ok_decoded del: length_map, rule arg_cong [where f = "cat _"])
     (auto simp: some_def onlyif_def eps_def cat_def fun_eq_iff assigned_parse_def netz_uuid_iff Let_def not_less)

lemma assigned_parse_iff: "assigned_parse mp pr cid p \<longleftrightarrow> assigned_connack mp pr cid p"
proof
  assume "assigned_parse mp pr cid p"
  define props where "props = slice 5 (5 + unat (p ! 4)) p"
  define n where "n = from_bytes_big (slice 1 3 props)"
  define base where "base = drop 5 (expected_connack mp pr connack_defaults)"
  from \<open>assigned_parse mp pr cid p\<close> have len: "5 \<le> length p" and p0: "p ! 0 = 0x20" and p23: "slice 2 4 p = [0, 0]"
    and plen: "5 + unat (p ! 4) = length p" and pl: "3 \<le> length props"
    and tag: "unat (props ! 0) = ASSIGNED_CLIENT_IDENTIFIER pr" and n: "length (slice 3 (3 + n) props) = n"
    and dec: "decode_ascii (slice 3 (3 + n) props) = Some cid" and uuid: "netz_uuid cid"
    and rest: "drop (3 + n) props = base"
    unfolding assigned_parse_def Let_def props_def [symmetric] n_def [symmetric] base_def [symmetric] by auto
  from dec have v: "slice 3 (3 + n) props = encode_ascii cid" by (simp add: decode_ascii_iff)
  with n length_netz_uuid [OF uuid] have n41: "n = 41" by (simp add: encode_ascii_def)
  from len obtain a b c d e ps where p: "p = a # b # c # d # e # ps"
    by (auto simp: Suc_le_length_iff numeral_eq_Suc)
  have props: "props = ps" using plen by (simp add: props_def p slice_def)
  from pl obtain t h l vs where ps: "ps = t # h # l # vs"
    unfolding props by (auto simp: Suc_le_length_iff numeral_eq_Suc)
  have "unat h * 256 + unat l = 41"
    using n41 unfolding n_def props ps by (simp add: slice_def from_bytes_big_def)
  moreover from this have h: "unat h = 0" by (cases "unat h") simp_all
  ultimately have "unat l = unat (41 :: byte)" by simp
  then have l: "l = 41" by (simp only: word_unat_eq_iff)
  from h have hl: "h = 0" "l = 41" by (simp_all add: unat_eq_0 l)
  have "vs = take 41 vs @ drop 41 vs" by simp
  also have "\<dots> = encode_ascii cid @ base"
    using v rest unfolding props ps n41 by (simp add: slice_def)
  finally show "assigned_connack mp pr cid p"
    using uuid p0 p23 plen tag
    unfolding assigned_connack_def props p ps hl base_def [symmetric] by (simp add: slice_def)
next
  assume "assigned_connack mp pr cid p"
  then obtain rl plen tag where uuid: "netz_uuid cid"
    and p: "p = [0x20, rl, 0, 0, plen, tag, 0, 41] @ encode_ascii cid @
          drop 5 (expected_connack mp pr connack_defaults)"
    and plen: "unat plen + 5 = length p" and tag: "unat tag = ASSIGNED_CLIENT_IDENTIFIER pr"
    unfolding assigned_connack_def by blast
  have props: "slice 5 (5 + unat (p ! 4)) p = [tag, 0, 41] @ encode_ascii cid @
          drop 5 (expected_connack mp pr connack_defaults)"
    using plen by (simp add: p slice_def)
  have enc: "length (encode_ascii cid) = 41" by (simp add: encode_ascii_def length_netz_uuid [OF uuid])
  have dec: "decode_ascii (encode_ascii cid) = Some cid"
    using netz_uuid_ascii [OF uuid] by (simp add: decode_ascii_iff)
  show "assigned_parse mp pr cid p"
    unfolding assigned_parse_def Let_def props
    using plen tag uuid enc dec by (simp add: p slice_def from_bytes_big_def)
qed

lemma ok_assigned_client [lang_simps]:
  "ok (assigned_client mp pr i s) cid =
     cat (tx s (gen_connect mp None (v5\<lparr>k_clean_session := Some True\<rparr>)))
       (rx_where s (assigned_connack mp pr cid))"
  unfolding ok_assigned_client_parse assigned_parse_iff ..

section \<open>Conversations\<close>

lemma assigned_client_identifier_conv:
  "ok (assigned_client_identifier exe mp pr) u =
     (let hello = gen_connect mp None (v5\<lparr>k_clean_session := Some True\<rparr>) in
      some (\<lambda>id0. some (\<lambda>id1. onlyif (id0 \<noteq> id1) (conversation exe 2 False []
       ([Open, Open, Send 0 hello, Await 0 (assigned_connack mp pr id0),
         Send 1 hello, Await 1 (assigned_connack mp pr id1)] @ Ping mp 0 @
        [Bye mp 0, Bye mp 1, Shut 1, Shut 0])))))"
proof -
  have distinct: "(if c then onlyif False eps else eps) = onlyif (\<not> c) eps" for c
    by (simp add: onlyif_def)
  show ?thesis
    by (simp add: assigned_client_identifier_def conversation_simps lang_simps cat_some_right distinct
        cong: if_cong) (unfold some_def onlyif_def, blast)
qed

definition server_keep_alive_steps :: "mqtt_packets \<Rightarrow> mqtt5_props \<Rightarrow> step list" where
  "server_keep_alive_steps mp pr =
     [Open,
        Send 0 (gen_connect mp (Some ''server-keep-alive'') (v5\<lparr>k_keepalive := Some 61\<rparr>)),
        Expect 0 (expected_connack mp pr
          (connack_defaults\<lparr>extra_properties := gen_uint16_prop pr (SERVER_KEEP_ALIVE pr) 60\<rparr>)),
        Send 0 (gen_pingreq mp), Expect 0 (gen_pingresp mp),
        Send 0 (gen_disconnect mp v5), Shut 0]"

lemma server_keep_alive_conv:
  "ok (server_keep_alive exe mp pr) u = conversation exe 1 False [''--server-keep-alive='' @ decimal 60] (server_keep_alive_steps mp pr)"
  by (simp add: server_keep_alive_def server_keep_alive_steps_def conversation_simps)

definition duplicate_client_takeover_steps :: "mqtt_packets \<Rightarrow> mqtt5_props \<Rightarrow> mqtt5_rc \<Rightarrow> step list" where
  "duplicate_client_takeover_steps mp pr rc =
     [Open, Open,
        Send 0 (gen_connect mp (Some ''take-over'') v5),
        Expect 0 (expected_connack mp pr connack_defaults),
        Send 1 (gen_connect mp (Some ''take-over'') v5),
        Expect 1 (expected_connack mp pr connack_defaults),
        Expect 0 (gen_disconnect mp (v5\<lparr>k_reason_code := Some (Code (SESSION_TAKEN_OVER rc))\<rparr>)),
        Send 1 (gen_pingreq mp), Expect 1 (gen_pingresp mp),
        Send 1 (gen_disconnect mp v5), Shut 1, Shut 0]"

lemma duplicate_client_takeover_conv:
  "ok (duplicate_client_takeover exe mp pr rc) u = conversation exe 2 False [] (duplicate_client_takeover_steps mp pr rc)"
  by (simp add: duplicate_client_takeover_def duplicate_client_takeover_steps_def conversation_simps)

lemma ok_expiry_disconnect [lang_simps]:
  "ok (expiry_disconnect mp s props) u =
     cat (tx s (gen_disconnect mp (v5\<lparr>k_properties := Some props\<rparr>))) (exactly [Eof s])"
proof -
  have "ok (bind (recv s 1) (\<lambda>data. if data \<noteq> [] then Raise (AssertionError msg) else Ret ())) v =
      exactly [Eof s]" for msg v
    by (auto simp: ok_def exactly_def exec_bind_iff exec_recv fun_eq_iff split: if_splits)
  then show ?thesis unfolding expiry_disconnect_def by (simp add: ok_seq ok_sendall eps_cat)
qed

definition disconnect_session_expiry_steps :: "mqtt_packets \<Rightarrow> mqtt5_props \<Rightarrow> step list" where
  "disconnect_session_expiry_steps mp pr =
     (let hello = gen_connect mp (Some ''session-expiry'')
            (v5\<lparr>k_clean_session := Some False, k_session_expiry := Some 1\<rparr>);
          connack = (\<lambda>present. expected_connack mp pr (connack_defaults\<lparr>session_present := present\<rparr>));
          bye = (\<lambda>secs. gen_disconnect mp
            (v5\<lparr>k_properties := Some (gen_uint32_prop pr (SESSION_EXPIRY_INTERVAL pr) secs)\<rparr>))
      in [Open, Send 0 hello, Expect 0 (connack False), Send 0 (bye 3), Ended 0, Shut 0,
        Pause 2000,
        Open, Send 1 hello, Expect 1 (connack True), Send 1 (bye 3), Ended 1, Shut 1,
        Pause 4000,
        Open, Send 2 hello, Expect 2 (connack False), Send 2 (bye 0), Ended 2, Shut 2,
        Open, Send 3 hello, Expect 3 (connack False), Send 3 (gen_disconnect mp v5), Shut 3])"

lemma disconnect_session_expiry_conv:
  "ok (disconnect_session_expiry exe mp pr) u = conversation exe 4 False [] (disconnect_session_expiry_steps mp pr)"
  by (simp add: disconnect_session_expiry_def disconnect_session_expiry_steps_def expiry_connect_def conversation_simps lang_simps)

lemmas session_steps = server_keep_alive_steps_def duplicate_client_takeover_steps_def disconnect_session_expiry_steps_def

end
