(* ===== verification/Scenarios_Limits.thy ===== *)
theory Scenarios_Limits
  imports Conversation
begin

text \<open>
  Scenarios in which the broker enforces an advertised limit with a DISCONNECT:
  \<^verbatim>\<open>publish_capability_disconnects\<close>, \<^verbatim>\<open>maximum_packet_size_disconnect\<close>,
  \<^verbatim>\<open>topic_alias_disconnect\<close>, \<^verbatim>\<open>receive_maximum_disconnect\<close>,
  \<^verbatim>\<open>subscription_capability_disconnects\<close>.
\<close>

section \<open>The code\<close>

definition publish_capability_disconnects ::
  "string \<Rightarrow> mqtt_packets \<Rightarrow> mqtt5_props \<Rightarrow> mqtt5_rc \<Rightarrow> unit prog" where
  "publish_capability_disconnects exe mp pr rc =
     (let cases = [
        ([''--maximum-qos=1''],
         gen_publish mp ''test/topic'' (v5\<lparr>k_qos := Some 2, k_mid := Some 1\<rparr>),
         gen_byte_prop pr (MAXIMUM_QOS pr) 1,
         QOS_NOT_SUPPORTED rc,
         ''qos above Maximum QoS''),
        ([''--no-retain''],
         gen_publish mp ''test/topic''
           (v5\<lparr>k_qos := Some 0, k_payload := Some (Some ''a''), k_retain := Some True\<rparr>),
         gen_byte_prop pr (RETAIN_AVAILABLE pr) 0,
         RETAIN_NOT_SUPPORTED rc,
         ''retain unavailable'')] in
      for_each cases (\<lambda>(args, publish, advertised_property, reason, label).
        with_broker exe 1 False args (\<lambda>broker.
        with_connection broker (\<lambda>sock. seq [
          sendall sock (gen_connect mp (Some ''publish-capability'') v5),
          (let expected = expected_connack mp pr
                 (connack_defaults\<lparr>extra_properties := advertised_property\<rparr>) in
           expect_packet sock expected (label @ '' CONNACK'')),
          sendall sock publish,
          expect_packet sock (gen_disconnect mp (v5\<lparr>k_reason_code := Some (Code reason)\<rparr>))
            (label @ '' DISCONNECT'')]))))"

definition maximum_packet_size_disconnect ::
  "string \<Rightarrow> mqtt_packets \<Rightarrow> mqtt5_props \<Rightarrow> mqtt5_rc \<Rightarrow> unit prog" where
  "maximum_packet_size_disconnect exe mp pr rc =
     with_broker exe 1 False [''--max-packet-size=50''] (\<lambda>broker.
     with_connection broker (\<lambda>sock.
       let topic = ''12/max/packet/size/broker/test/topic'' in seq [
       sendall sock (gen_connect mp (Some ''12-max-packet-broker'') v5),
       expect_packet sock (expected_connack mp pr (connack_defaults\<lparr>maximum_packet_size := 50\<rparr>))
         ''maximum packet size CONNACK'',
       sendall sock (gen_publish mp topic (v5\<lparr>k_qos := Some 0, k_payload := Some (Some ''012345678'')\<rparr>)),
       sendall sock (gen_pingreq mp),
       expect_packet sock (gen_pingresp mp) ''maximum packet size boundary PINGRESP'',
       sendall sock (gen_publish mp topic (v5\<lparr>k_qos := Some 0, k_payload := Some (Some ''0123456789'')\<rparr>)),
       expect_packet sock
         (gen_disconnect mp (v5\<lparr>k_reason_code := Some (Code (PACKET_TOO_LARGE rc))\<rparr>))
         ''maximum packet size DISCONNECT'']))"

definition topic_alias_disconnect ::
  "string \<Rightarrow> mqtt_packets \<Rightarrow> mqtt5_props \<Rightarrow> mqtt5_rc \<Rightarrow> unit prog" where
  "topic_alias_disconnect exe mp pr rc =
     with_broker exe 1 False [''--topic-alias-maximum=1''] (\<lambda>broker.
     with_connection broker (\<lambda>sock. seq [
       sendall sock (gen_connect mp (Some ''topic-alias-invalid'') v5),
       expect_packet sock (expected_connack mp pr (connack_defaults\<lparr>topic_alias_maximum := 1\<rparr>))
         ''topic alias limit CONNACK'',
       (let properties = gen_uint16_prop pr (TOPIC_ALIAS pr) 2 in
        sendall sock (gen_publish mp ''alias/too-large''
          (v5\<lparr>k_qos := Some 0, k_payload := Some (Some ''blocked''), k_properties := Some properties\<rparr>))),
       expect_packet sock
         (gen_disconnect mp (v5\<lparr>k_reason_code := Some (Code (TOPIC_ALIAS_INVALID rc))\<rparr>))
         ''topic alias invalid DISCONNECT'']))"

definition receive_maximum_disconnect :: "string \<Rightarrow> mqtt_packets \<Rightarrow> mqtt5_rc \<Rightarrow> unit prog" where
  "receive_maximum_disconnect exe mp rc =
     with_broker exe 1 False [''--max-outgoing-inflight=1''] (\<lambda>broker.
     with_connection broker (\<lambda>sock. seq [
       connect_v5 sock mp ''receive-maximum-exceeded'',
       sendall sock (gen_publish mp ''receive/maximum/one'' (v5\<lparr>k_qos := Some 2, k_mid := Some 1\<rparr>)),
       sendall sock (gen_publish mp ''receive/maximum/two'' (v5\<lparr>k_qos := Some 2, k_mid := Some 2\<rparr>)),
       expect_packet sock (gen_pubrec mp 1 v5) ''receive maximum first PUBREC'',
       expect_packet sock
         (gen_disconnect mp (v5\<lparr>k_reason_code := Some (Code (RECEIVE_MAXIMUM_EXCEEDED rc))\<rparr>))
         ''receive maximum DISCONNECT'']))"

definition subscription_capability_disconnects ::
  "string \<Rightarrow> mqtt_packets \<Rightarrow> mqtt5_props \<Rightarrow> mqtt5_rc \<Rightarrow> unit prog" where
  "subscription_capability_disconnects exe mp pr rc =
     (let cases = [
        ([''--no-wildcard-subscriptions''],
         ''wildcard/+'',
         [],
         WILDCARD_SUB_AVAILABLE pr,
         WILDCARD_SUBS_NOT_SUPPORTED rc,
         ''wildcard subscription unavailable''),
        ([''--no-shared-subscriptions''],
         ''$share/workers/shared/topic'',
         [],
         SHARED_SUB_AVAILABLE pr,
         SHARED_SUBS_NOT_SUPPORTED rc,
         ''shared subscription unavailable''),
        ([''--no-subscription-identifiers''],
         ''identifier/topic'',
         gen_varint_prop pr (SUBSCRIPTION_IDENTIFIER pr) 7,
         SUBSCRIPTION_ID_AVAILABLE pr,
         SUBSCRIPTION_IDS_NOT_SUPPORTED rc,
         ''subscription identifier unavailable'')] in
      for_each cases (\<lambda>(args, topic, subscribe_props, advertised_id, reason, label).
        with_broker exe 1 True args (\<lambda>broker.
        with_connection broker (\<lambda>sock. seq [
          sendall sock (gen_connect mp (Some ''subscription-capability'') v5),
          expect_packet sock
            (expected_connack mp pr (connack_defaults\<lparr>extra_properties := gen_byte_prop pr advertised_id 0\<rparr>))
            (label @ '' CONNACK''),
          sendall sock (gen_subscribe mp 1 topic 0 (v5\<lparr>k_properties := Some subscribe_props\<rparr>)),
          expect_packet sock (gen_disconnect mp (v5\<lparr>k_reason_code := Some (Code reason)\<rparr>))
            (label @ '' DISCONNECT'')]))))"

section \<open>Conversations\<close>

lemma publish_capability_disconnects_conv:
  "ok (publish_capability_disconnects exe mp pr rc) u =
     (let case_conv = (\<lambda>arg publish prop reason. conversation exe 1 False [arg]
            [Open, Send 0 (gen_connect mp (Some ''publish-capability'') v5),
             Expect 0 (expected_connack mp pr (connack_defaults\<lparr>extra_properties := prop\<rparr>)),
             Send 0 publish,
             Expect 0 (gen_disconnect mp (v5\<lparr>k_reason_code := Some (Code reason)\<rparr>)), Shut 0])
      in cat
        (case_conv ''--maximum-qos=1'' (gen_publish mp ''test/topic'' (v5\<lparr>k_qos := Some 2, k_mid := Some 1\<rparr>))
           (gen_byte_prop pr (MAXIMUM_QOS pr) 1) (QOS_NOT_SUPPORTED rc))
        (case_conv ''--no-retain''
           (gen_publish mp ''test/topic''
             (v5\<lparr>k_qos := Some 0, k_payload := Some (Some ''a''), k_retain := Some True\<rparr>))
           (gen_byte_prop pr (RETAIN_AVAILABLE pr) 0) (RETAIN_NOT_SUPPORTED rc)))"
  by (simp add: publish_capability_disconnects_def conversation_simps)

definition maximum_packet_size_disconnect_steps :: "mqtt_packets \<Rightarrow> mqtt5_props \<Rightarrow> mqtt5_rc \<Rightarrow> step list" where
  "maximum_packet_size_disconnect_steps mp pr rc =
     (let publish = (\<lambda>payload. gen_publish mp ''12/max/packet/size/broker/test/topic''
            (v5\<lparr>k_qos := Some 0, k_payload := Some (Some payload)\<rparr>))
      in [Open, Send 0 (gen_connect mp (Some ''12-max-packet-broker'') v5),
        Expect 0 (expected_connack mp pr (connack_defaults\<lparr>maximum_packet_size := 50\<rparr>)),
        Send 0 (publish ''012345678''), Send 0 (gen_pingreq mp), Expect 0 (gen_pingresp mp),
        Send 0 (publish ''0123456789''),
        Expect 0 (gen_disconnect mp (v5\<lparr>k_reason_code := Some (Code (PACKET_TOO_LARGE rc))\<rparr>)),
        Shut 0])"

lemma maximum_packet_size_disconnect_conv:
  "ok (maximum_packet_size_disconnect exe mp pr rc) u = conversation exe 1 False [''--max-packet-size=50''] (maximum_packet_size_disconnect_steps mp pr rc)"
  by (simp add: maximum_packet_size_disconnect_def maximum_packet_size_disconnect_steps_def conversation_simps)

definition topic_alias_disconnect_steps :: "mqtt_packets \<Rightarrow> mqtt5_props \<Rightarrow> mqtt5_rc \<Rightarrow> step list" where
  "topic_alias_disconnect_steps mp pr rc =
     [Open, Send 0 (gen_connect mp (Some ''topic-alias-invalid'') v5),
        Expect 0 (expected_connack mp pr (connack_defaults\<lparr>topic_alias_maximum := 1\<rparr>)),
        Send 0 (gen_publish mp ''alias/too-large''
          (v5\<lparr>k_qos := Some 0, k_payload := Some (Some ''blocked''),
             k_properties := Some (gen_uint16_prop pr (TOPIC_ALIAS pr) 2)\<rparr>)),
        Expect 0 (gen_disconnect mp (v5\<lparr>k_reason_code := Some (Code (TOPIC_ALIAS_INVALID rc))\<rparr>)),
        Shut 0]"

lemma topic_alias_disconnect_conv:
  "ok (topic_alias_disconnect exe mp pr rc) u = conversation exe 1 False [''--topic-alias-maximum=1''] (topic_alias_disconnect_steps mp pr rc)"
  by (simp add: topic_alias_disconnect_def topic_alias_disconnect_steps_def conversation_simps)

definition receive_maximum_disconnect_steps :: "mqtt_packets \<Rightarrow> mqtt5_rc \<Rightarrow> step list" where
  "receive_maximum_disconnect_steps mp rc =
     ([Open] @ Hello mp 0 ''receive-maximum-exceeded'' @
        [Send 0 (gen_publish mp ''receive/maximum/one'' (v5\<lparr>k_qos := Some 2, k_mid := Some 1\<rparr>)),
         Send 0 (gen_publish mp ''receive/maximum/two'' (v5\<lparr>k_qos := Some 2, k_mid := Some 2\<rparr>)),
         Expect 0 (gen_pubrec mp 1 v5),
         Expect 0 (gen_disconnect mp (v5\<lparr>k_reason_code := Some (Code (RECEIVE_MAXIMUM_EXCEEDED rc))\<rparr>)),
         Shut 0])"

lemma receive_maximum_disconnect_conv:
  "ok (receive_maximum_disconnect exe mp rc) u = conversation exe 1 False [''--max-outgoing-inflight=1''] (receive_maximum_disconnect_steps mp rc)"
  by (simp add: receive_maximum_disconnect_def receive_maximum_disconnect_steps_def conversation_simps)

lemma subscription_capability_disconnects_conv:
  "ok (subscription_capability_disconnects exe mp pr rc) u =
     (let case_conv = (\<lambda>arg topic props advertised reason. conversation exe 1 True [arg]
            [Open, Send 0 (gen_connect mp (Some ''subscription-capability'') v5),
             Expect 0 (expected_connack mp pr
               (connack_defaults\<lparr>extra_properties := gen_byte_prop pr advertised 0\<rparr>)),
             Send 0 (gen_subscribe mp 1 topic 0 (v5\<lparr>k_properties := Some props\<rparr>)),
             Expect 0 (gen_disconnect mp (v5\<lparr>k_reason_code := Some (Code reason)\<rparr>)), Shut 0])
      in cat (case_conv ''--no-wildcard-subscriptions'' ''wildcard/+'' []
            (WILDCARD_SUB_AVAILABLE pr) (WILDCARD_SUBS_NOT_SUPPORTED rc))
        (cat (case_conv ''--no-shared-subscriptions'' ''$share/workers/shared/topic'' []
            (SHARED_SUB_AVAILABLE pr) (SHARED_SUBS_NOT_SUPPORTED rc))
          (case_conv ''--no-subscription-identifiers'' ''identifier/topic''
            (gen_varint_prop pr (SUBSCRIPTION_IDENTIFIER pr) 7)
            (SUBSCRIPTION_ID_AVAILABLE pr) (SUBSCRIPTION_IDS_NOT_SUPPORTED rc))))"
  by (simp add: subscription_capability_disconnects_def conversation_simps)

lemmas limits_steps = maximum_packet_size_disconnect_steps_def topic_alias_disconnect_steps_def receive_maximum_disconnect_steps_def

end
