(* ===== verification/Scenarios_QoS.thy ===== *)
theory Scenarios_QoS
  imports Conversation
begin

text \<open>
  Scenarios on QoS 1 and QoS 2 delivery: \<^verbatim>\<open>qos2_routes_at_pubrel\<close>, \<^verbatim>\<open>mixed_version_qos1\<close>,
  \<^verbatim>\<open>persistent_no_local\<close>, \<^verbatim>\<open>qos2_receive_maximum_one\<close>, \<^verbatim>\<open>maximum_packet_size_qos1\<close>,
  \<^verbatim>\<open>maximum_packet_size_qos2\<close>, \<^verbatim>\<open>qos2_duplicate_publish\<close>, \<^verbatim>\<open>qos2_repeated_pubrel\<close>.
\<close>

section \<open>The code\<close>

definition qos2_routes_at_pubrel :: "string \<Rightarrow> mqtt_packets \<Rightarrow> unit prog" where
  "qos2_routes_at_pubrel exe mp =
     (let topic = ''pub/qos2/reuse'' in
      with_broker exe 2 False [] (\<lambda>broker.
      with_connection broker (\<lambda>subscriber. with_connection broker (\<lambda>publisher.
        let incoming_mid = 312; outgoing_mid = 1 in seq [
        connect_v5 subscriber mp ''sub-qos2-test'',
        sendall subscriber (gen_subscribe mp 1 topic 2 v5),
        expect_packet subscriber (gen_suback mp 1 2 v5) ''QoS2 SUBACK'',
        connect_v5 publisher mp ''pub-qos2-test'',
        sendall publisher (gen_publish mp topic
          (v5\<lparr>k_qos := Some 2, k_mid := Some incoming_mid, k_payload := Some (Some ''message'')\<rparr>)),
        expect_packet publisher (gen_pubrec mp incoming_mid v5) ''publisher PUBREC'',
        expect_quiet subscriber ''QoS2 PUBLISH routed before PUBREL: '',
        sendall publisher (gen_pubrel mp incoming_mid v5),
        expect_packet publisher (gen_pubcomp mp incoming_mid v5) ''publisher PUBCOMP'',
        expect_packet subscriber (gen_publish mp topic
            (v5\<lparr>k_qos := Some 2, k_mid := Some outgoing_mid, k_payload := Some (Some ''message'')\<rparr>))
          ''downstream QoS2 PUBLISH'',
        sendall subscriber (gen_pubrec mp outgoing_mid v5),
        expect_packet subscriber (gen_pubrel mp outgoing_mid v5) ''downstream PUBREL'',
        sendall subscriber (gen_pubcomp mp outgoing_mid v5),
        sendall publisher (gen_disconnect mp v5),
        sendall subscriber (gen_disconnect mp v5)]))))"

definition mixed_version_qos1 :: "string \<Rightarrow> mqtt_packets \<Rightarrow> unit prog" where
  "mixed_version_qos1 exe mp =
     (let topic = ''mixed/version/qos1'' in
      with_broker exe 2 False [] (\<lambda>broker.
      with_connection broker (\<lambda>subscriber. with_connection broker (\<lambda>publisher. seq [
        connect_client subscriber mp ''mixed-v3-sub'' 4,
        sendall subscriber (gen_subscribe mp 1 topic 1 v4),
        expect_packet subscriber (gen_suback mp 1 1 v4) ''MQTT 3.1.1 SUBACK'',
        connect_v5 publisher mp ''mixed-v5-pub'',
        sendall publisher (gen_publish mp topic
          (v5\<lparr>k_qos := Some 1, k_mid := Some 77, k_payload := Some (Some ''cross-version'')\<rparr>)),
        expect_packet publisher (gen_puback mp 77 v5) ''MQTT 5 publisher PUBACK'',
        expect_packet subscriber (gen_publish mp topic
            (v4\<lparr>k_qos := Some 1, k_mid := Some 1, k_payload := Some (Some ''cross-version'')\<rparr>))
          ''MQTT 3.1.1 forwarded PUBLISH'',
        sendall subscriber (gen_puback mp 1 v4),
        sendall publisher (gen_disconnect mp v5),
        sendall subscriber (gen_disconnect mp v4)]))))"

definition persistent_no_local :: "string \<Rightarrow> mqtt_packets \<Rightarrow> unit prog" where
  "persistent_no_local exe mp =
     (let client_id = ''persistent-subscription-test''; topic = ''subpub/nolocal'' in
      with_broker exe 2 False [] (\<lambda>broker. seq [
        with_connection broker (\<lambda>first. seq [
          connect_persistent_v5 first mp client_id False,
          sendall first (gen_subscribe mp 1 topic 5 v5),
          expect_packet first (gen_suback mp 1 1 v5) ''persistent no-local SUBACK'',
          sendall first (gen_disconnect mp v5)]),
        with_connection broker (\<lambda>resumed. seq [
          connect_persistent_v5 resumed mp client_id True,
          sendall resumed (gen_publish mp topic
            (v5\<lparr>k_qos := Some 1, k_mid := Some 1, k_payload := Some (Some ''message'')\<rparr>)),
          expect_packet resumed (gen_puback mp 1 v5) ''persistent no-local PUBACK'',
          expect_quiet resumed ''restored no-local subscription forwarded self publish: '',
          sendall resumed (gen_subscribe mp 2 topic 1 v5),
          expect_packet resumed (gen_suback mp 2 1 v5) ''local replacement SUBACK'',
          sendall resumed (gen_publish mp topic
            (v5\<lparr>k_qos := Some 1, k_mid := Some 3, k_payload := Some (Some ''message'')\<rparr>)),
          expect_packets_unordered resumed
            [gen_puback mp 3 v5,
             gen_publish mp topic
               (v5\<lparr>k_qos := Some 1, k_mid := Some 1, k_payload := Some (Some ''message'')\<rparr>)]
            ''local replacement publish/PUBACK'',
          sendall resumed (gen_puback mp 1 v5),
          sendall resumed (gen_disconnect mp v5)])]))"

definition qos2_receive_maximum_one :: "string \<Rightarrow> mqtt_packets \<Rightarrow> mqtt5_props \<Rightarrow> unit prog" where
  "qos2_receive_maximum_one exe mp pr =
     (let topic = ''subpub/qos2/receive/maximum1'';
          receive_one = gen_uint16_prop pr (RECEIVE_MAXIMUM pr) 1 in
      with_broker exe 2 False [] (\<lambda>broker.
      with_connection broker (\<lambda>subscriber. with_connection broker (\<lambda>publisher. seq [
        connect_with subscriber
          (gen_connect mp (Some ''subpub-qos2-receive-max1'') (v5\<lparr>k_properties := Some receive_one\<rparr>))
          ''invalid Receive Maximum CONNACK: '',
        sendall subscriber (gen_subscribe mp 1 topic 2 v5),
        expect_packet subscriber (gen_suback mp 1 2 v5) ''Receive Maximum SUBACK'',
        connect_v5 publisher mp ''subpub-qos2-recv-max1-helper'',
        for_each [1, 2] (\<lambda>mid. seq [
          sendall publisher (gen_publish mp topic
            (v5\<lparr>k_qos := Some 2, k_mid := Some mid, k_payload := Some (Some (''message'' @ decimal mid))\<rparr>)),
          expect_packet publisher (gen_pubrec mp mid v5)
            (''Receive Maximum publisher PUBREC '' @ decimal mid),
          sendall publisher (gen_pubrel mp mid v5),
          expect_packet publisher (gen_pubcomp mp mid v5)
            (''Receive Maximum publisher PUBCOMP '' @ decimal mid)]),
        for_each [1, 2] (\<lambda>mid. seq [
          expect_packet subscriber (gen_publish mp topic
              (v5\<lparr>k_qos := Some 2, k_mid := Some mid, k_payload := Some (Some (''message'' @ decimal mid))\<rparr>))
            (''Receive Maximum downstream PUBLISH '' @ decimal mid),
          whenever (mid = 1) (expect_quiet subscriber ''Receive Maximum leaked second PUBLISH: ''),
          sendall subscriber (gen_pubrec mp mid v5),
          expect_packet subscriber (gen_pubrel mp mid v5)
            (''Receive Maximum downstream PUBREL '' @ decimal mid),
          sendall subscriber (gen_pubcomp mp mid v5)]),
        sendall publisher (gen_disconnect mp v5),
        sendall subscriber (gen_disconnect mp v5)]))))"

definition maximum_packet_size_qos1 :: "string \<Rightarrow> mqtt_packets \<Rightarrow> mqtt5_props \<Rightarrow> unit prog" where
  "maximum_packet_size_qos1 exe mp pr =
     (let topic = ''12/max/publish/qos1/test/topic'';
          maximum = gen_uint32_prop pr (MAXIMUM_PACKET_SIZE pr) 40;
          oversized = [
            gen_publish mp topic
              (v5\<lparr>k_mid := Some 1, k_qos := Some 1, k_payload := Some (Some ''1234'')\<rparr>),
            gen_publish mp topic
              (v5\<lparr>k_mid := Some 2, k_qos := Some 1, k_payload := Some (Some ''56''),
                 k_properties := Some (gen_byte_prop pr (PAYLOAD_FORMAT_INDICATOR pr) 1)\<rparr>)];
          fitting = gen_publish mp topic
            (v5\<lparr>k_mid := Some 3, k_qos := Some 1, k_payload := Some (Some ''789'')\<rparr>) in
      with_broker exe 1 False [] (\<lambda>broker.
      with_connection broker (\<lambda>sock. seq [
        connect_with sock
          (gen_connect mp (Some ''12-max-publish-qos1'') (v5\<lparr>k_properties := Some maximum\<rparr>))
          ''invalid max-packet CONNACK: '',
        sendall sock (gen_subscribe mp 1 topic 1 v5),
        expect_packet sock (gen_suback mp 1 1 v5) ''maximum packet SUBACK'',
        for_each (enumerate_from 1 oversized) (\<lambda>(mid, packet). seq [
          sendall sock packet,
          expect_packet sock (gen_puback mp mid v5) (''maximum packet PUBACK '' @ decimal mid),
          sendall sock (gen_pingreq mp),
          expect_packet sock (gen_pingresp mp) (''maximum packet PINGRESP '' @ decimal mid)]),
        sendall sock fitting,
        expect_packets_unordered sock [gen_puback mp 3 v5, fitting]
          ''maximum packet fitting publish/PUBACK'',
        sendall sock (gen_puback mp 3 v5),
        sendall sock (gen_disconnect mp v5)])))"

definition maximum_packet_size_qos2 :: "string \<Rightarrow> mqtt_packets \<Rightarrow> mqtt5_props \<Rightarrow> unit prog" where
  "maximum_packet_size_qos2 exe mp pr =
     (let topic = ''12/max/publish/qos2/test/topic'';
          maximum = gen_uint32_prop pr (MAXIMUM_PACKET_SIZE pr) 40 in
      with_broker exe 1 False [] (\<lambda>broker.
      with_connection broker (\<lambda>sock. seq [
        connect_with sock
          (gen_connect mp (Some ''12-max-publish-qos2'') (v5\<lparr>k_properties := Some maximum\<rparr>))
          ''invalid max-packet QoS2 CONNACK: '',
        sendall sock (gen_subscribe mp 1 topic 2 v5),
        expect_packet sock (gen_suback mp 1 2 v5) ''maximum packet QoS2 SUBACK'',
        for_each [(1, ''1234''), (2, ''789'')] (\<lambda>(mid, payload).
          let publish = gen_publish mp topic
                (v5\<lparr>k_mid := Some mid, k_qos := Some 2, k_payload := Some (Some payload)\<rparr>) in seq [
          sendall sock publish,
          expect_packet sock (gen_pubrec mp mid v5)
            (''maximum packet QoS2 publisher PUBREC '' @ decimal mid),
          sendall sock (gen_pubrel mp mid v5),
          if mid = 1 then seq [
            expect_packet sock (gen_pubcomp mp mid v5) ''maximum packet QoS2 oversized PUBCOMP'',
            sendall sock (gen_pingreq mp),
            expect_packet sock (gen_pingresp mp) ''maximum packet QoS2 PINGRESP'']
          else seq [
            expect_packets_unordered sock [gen_pubcomp mp mid v5, publish]
              ''maximum packet QoS2 fitting release'',
            sendall sock (gen_pubrec mp mid v5),
            expect_packet sock (gen_pubrel mp mid v5) ''maximum packet QoS2 downstream PUBREL'',
            sendall sock (gen_pubcomp mp mid v5)]]),
        sendall sock (gen_disconnect mp v5)])))"

definition qos2_duplicate_publish :: "string \<Rightarrow> mqtt_packets \<Rightarrow> unit prog" where
  "qos2_duplicate_publish exe mp =
     (let topic = ''03/c2b/qos2/duplicate/test'' in
      with_broker exe 2 False [] (\<lambda>broker.
      with_connection broker (\<lambda>subscriber. with_connection broker (\<lambda>publisher. seq [
        connect_v5 subscriber mp ''qos2-dup-subscriber'',
        sendall subscriber (gen_subscribe mp 1 topic 2 v5),
        expect_packet subscriber (gen_suback mp 1 2 v5) ''QoS2 DUP SUBACK'',
        connect_v5 publisher mp ''qos2-dup-publisher'',
        for_each [False, True] (\<lambda>dup. seq [
          sendall publisher (gen_publish mp topic
            (v5\<lparr>k_qos := Some 2, k_mid := Some 7, k_payload := Some (Some ''original''), k_dup := Some dup\<rparr>)),
          expect_packet publisher (gen_pubrec mp 7 v5) (''QoS2 DUP PUBREC '' @ bool_str dup),
          expect_quiet subscriber ''QoS2 DUP routed before PUBREL: '']),
        sendall publisher (gen_pubrel mp 7 v5),
        expect_packet publisher (gen_pubcomp mp 7 v5) ''QoS2 DUP publisher PUBCOMP'',
        expect_packet subscriber (gen_publish mp topic
            (v5\<lparr>k_qos := Some 2, k_mid := Some 1, k_payload := Some (Some ''original'')\<rparr>))
          ''QoS2 DUP downstream PUBLISH'',
        sendall subscriber (gen_pubrec mp 1 v5),
        expect_packet subscriber (gen_pubrel mp 1 v5) ''QoS2 DUP downstream PUBREL'',
        sendall subscriber (gen_pubcomp mp 1 v5),
        sendall publisher (gen_disconnect mp v5),
        sendall subscriber (gen_disconnect mp v5)]))))"

definition qos2_repeated_pubrel :: "string \<Rightarrow> mqtt_packets \<Rightarrow> unit prog" where
  "qos2_repeated_pubrel exe mp =
     (let topic = ''qos2/repeated/pubrel'' in
      with_broker exe 2 False [] (\<lambda>broker.
      with_connection broker (\<lambda>subscriber. with_connection broker (\<lambda>publisher. seq [
        connect_v5 subscriber mp ''repeat-rel-sub'',
        sendall subscriber (gen_subscribe mp 1 topic 2 v5),
        expect_packet subscriber (gen_suback mp 1 2 v5) ''repeat PUBREL SUBACK'',
        connect_v5 publisher mp ''repeat-rel-pub'',
        sendall publisher (gen_publish mp topic
          (v5\<lparr>k_qos := Some 2, k_mid := Some 9, k_payload := Some (Some ''once'')\<rparr>)),
        expect_packet publisher (gen_pubrec mp 9 v5) ''repeat PUBREL PUBREC'',
        sendall publisher (gen_pubrel mp 9 v5),
        expect_packet publisher (gen_pubcomp mp 9 v5) ''repeat PUBREL first PUBCOMP'',
        expect_packet subscriber (gen_publish mp topic
            (v5\<lparr>k_qos := Some 2, k_mid := Some 1, k_payload := Some (Some ''once'')\<rparr>))
          ''repeat PUBREL downstream PUBLISH'',
        sendall subscriber (gen_pubrec mp 1 v5),
        expect_packet subscriber (gen_pubrel mp 1 v5) ''repeat PUBREL downstream PUBREL'',
        sendall subscriber (gen_pubcomp mp 1 v5),
        for_each [9, 77] (\<lambda>mid. seq [
          sendall publisher (gen_pubrel mp mid v5),
          expect_packet publisher (gen_pubcomp mp mid v5) (''idempotent PUBCOMP '' @ decimal mid)]),
        expect_quiet subscriber ''repeated PUBREL duplicated delivery: '',
        sendall publisher (gen_disconnect mp v5),
        sendall subscriber (gen_disconnect mp v5)]))))"

section \<open>Conversations\<close>

definition qos2_routes_at_pubrel_steps :: "mqtt_packets \<Rightarrow> step list" where
  "qos2_routes_at_pubrel_steps mp =
     (let topic = ''pub/qos2/reuse''
      in ([Open, Open] @ Hello mp 0 ''sub-qos2-test'' @ Subscribe mp 0 1 topic 2 2 @
        Hello mp 1 ''pub-qos2-test'' @
        [Send 1 (gen_publish mp topic (message 2 312 ''message'')), Expect 1 (gen_pubrec mp 312 v5),
         Silent 0] @
        Release mp 1 312 @
        [Expect 0 (gen_publish mp topic (message 2 1 ''message''))] @ Complete mp 0 1 @
        [Bye mp 1, Bye mp 0, Shut 1, Shut 0]))"

lemma qos2_routes_at_pubrel_conv:
  "ok (qos2_routes_at_pubrel exe mp) u = conversation exe 2 False [] (qos2_routes_at_pubrel_steps mp)"
  by (simp add: qos2_routes_at_pubrel_def qos2_routes_at_pubrel_steps_def conversation_simps lang_simps)

definition mixed_version_qos1_steps :: "mqtt_packets \<Rightarrow> step list" where
  "mixed_version_qos1_steps mp =
     (let topic = ''mixed/version/qos1''
      in ([Open, Open,
         Send 0 (gen_connect mp (Some ''mixed-v3-sub'') v4), Await 0 (connack_ok 4),
         Send 0 (gen_subscribe mp 1 topic 1 v4), Expect 0 (gen_suback mp 1 1 v4)] @
        Hello mp 1 ''mixed-v5-pub'' @
        [Send 1 (gen_publish mp topic (message 1 77 ''cross-version'')), Expect 1 (gen_puback mp 77 v5),
         Expect 0 (gen_publish mp topic (message 1 1 ''cross-version''\<lparr>k_proto_ver := Some 4\<rparr>)),
         Send 0 (gen_puback mp 1 v4),
         Bye mp 1, Send 0 (gen_disconnect mp v4), Shut 1, Shut 0]))"

lemma mixed_version_qos1_conv:
  "ok (mixed_version_qos1 exe mp) u = conversation exe 2 False [] (mixed_version_qos1_steps mp)"
  by (simp add: mixed_version_qos1_def mixed_version_qos1_steps_def conversation_simps lang_simps no_kwargs_def)

definition persistent_no_local_steps :: "mqtt_packets \<Rightarrow> step list" where
  "persistent_no_local_steps mp =
     (let topic = ''subpub/nolocal'';
          hello = gen_connect mp (Some ''persistent-subscription-test'')
            (v5\<lparr>k_clean_session := Some False, k_session_expiry := Some 60\<rparr>)
      in ([Open, Send 0 hello, Await 0 (persistent_ok False)] @ Subscribe mp 0 1 topic 5 1 @
        [Bye mp 0, Shut 0,
         Open, Send 1 hello, Await 1 (persistent_ok True),
         Send 1 (gen_publish mp topic (message 1 1 ''message'')), Expect 1 (gen_puback mp 1 v5), Silent 1] @
        Subscribe mp 1 2 topic 1 1 @
        [Send 1 (gen_publish mp topic (message 1 3 ''message'')),
         ExpectPerm 1 [gen_puback mp 3 v5, gen_publish mp topic (message 1 1 ''message'')],
         Send 1 (gen_puback mp 1 v5), Bye mp 1, Shut 1]))"

lemma persistent_no_local_conv:
  "ok (persistent_no_local exe mp) u = conversation exe 2 False [] (persistent_no_local_steps mp)"
  by (simp add: persistent_no_local_def persistent_no_local_steps_def conversation_simps lang_simps)

definition qos2_receive_maximum_one_steps :: "mqtt_packets \<Rightarrow> mqtt5_props \<Rightarrow> step list" where
  "qos2_receive_maximum_one_steps mp pr =
     (let topic = ''subpub/qos2/receive/maximum1'';
          msg = (\<lambda>mid. gen_publish mp topic (message 2 mid (''message'' @ decimal mid)));
          send = (\<lambda>mid. [Send 1 (msg mid), Expect 1 (gen_pubrec mp mid v5)] @ Release mp 1 mid)
      in ([Open, Open,
         Send 0 (gen_connect mp (Some ''subpub-qos2-receive-max1'')
           (v5\<lparr>k_properties := Some (gen_uint16_prop pr (RECEIVE_MAXIMUM pr) 1)\<rparr>)),
         Await 0 accepted_ok] @ Subscribe mp 0 1 topic 2 2 @
        Hello mp 1 ''subpub-qos2-recv-max1-helper'' @ send 1 @ send 2 @
        [Expect 0 (msg 1), Silent 0] @ Complete mp 0 1 @
        [Expect 0 (msg 2)] @ Complete mp 0 2 @
        [Bye mp 1, Bye mp 0, Shut 1, Shut 0]))"

lemma qos2_receive_maximum_one_conv:
  "ok (qos2_receive_maximum_one exe mp pr) u = conversation exe 2 False [] (qos2_receive_maximum_one_steps mp pr)"
  by (simp add: qos2_receive_maximum_one_def qos2_receive_maximum_one_steps_def conversation_simps lang_simps)

definition maximum_packet_size_qos1_steps :: "mqtt_packets \<Rightarrow> mqtt5_props \<Rightarrow> step list" where
  "maximum_packet_size_qos1_steps mp pr =
     (let publish = gen_publish mp ''12/max/publish/qos1/test/topic'';
          ping = [Send 0 (gen_pingreq mp), Expect 0 (gen_pingresp mp)]
      in ([Open,
         Send 0 (gen_connect mp (Some ''12-max-publish-qos1'')
           (v5\<lparr>k_properties := Some (gen_uint32_prop pr (MAXIMUM_PACKET_SIZE pr) 40)\<rparr>)),
         Await 0 accepted_ok] @ Subscribe mp 0 1 ''12/max/publish/qos1/test/topic'' 1 1 @
        [Send 0 (publish (message 1 1 ''1234'')), Expect 0 (gen_puback mp 1 v5)] @ ping @
        [Send 0 (publish (message 1 2 ''56''
           \<lparr>k_properties := Some (gen_byte_prop pr (PAYLOAD_FORMAT_INDICATOR pr) 1)\<rparr>)),
         Expect 0 (gen_puback mp 2 v5)] @ ping @
        [Send 0 (publish (message 1 3 ''789'')),
         ExpectPerm 0 [gen_puback mp 3 v5, publish (message 1 3 ''789'')],
         Send 0 (gen_puback mp 3 v5), Bye mp 0, Shut 0]))"

lemma maximum_packet_size_qos1_conv:
  "ok (maximum_packet_size_qos1 exe mp pr) u = conversation exe 1 False [] (maximum_packet_size_qos1_steps mp pr)"
  by (simp add: maximum_packet_size_qos1_def maximum_packet_size_qos1_steps_def conversation_simps lang_simps no_kwargs_def)

definition maximum_packet_size_qos2_steps :: "mqtt_packets \<Rightarrow> mqtt5_props \<Rightarrow> step list" where
  "maximum_packet_size_qos2_steps mp pr =
     (let publish = gen_publish mp ''12/max/publish/qos2/test/topic''
      in ([Open,
         Send 0 (gen_connect mp (Some ''12-max-publish-qos2'')
           (v5\<lparr>k_properties := Some (gen_uint32_prop pr (MAXIMUM_PACKET_SIZE pr) 40)\<rparr>)),
         Await 0 accepted_ok] @ Subscribe mp 0 1 ''12/max/publish/qos2/test/topic'' 2 2 @
        [Send 0 (publish (message 2 1 ''1234'')), Expect 0 (gen_pubrec mp 1 v5)] @ Release mp 0 1 @
        [Send 0 (gen_pingreq mp), Expect 0 (gen_pingresp mp),
         Send 0 (publish (message 2 2 ''789'')), Expect 0 (gen_pubrec mp 2 v5),
         Send 0 (gen_pubrel mp 2 v5),
         ExpectPerm 0 [gen_pubcomp mp 2 v5, publish (message 2 2 ''789'')]] @ Complete mp 0 2 @
        [Bye mp 0, Shut 0]))"

lemma maximum_packet_size_qos2_conv:
  "ok (maximum_packet_size_qos2 exe mp pr) u = conversation exe 1 False [] (maximum_packet_size_qos2_steps mp pr)"
  by (simp add: maximum_packet_size_qos2_def maximum_packet_size_qos2_steps_def conversation_simps lang_simps no_kwargs_def)

definition qos2_duplicate_publish_steps :: "mqtt_packets \<Rightarrow> step list" where
  "qos2_duplicate_publish_steps mp =
     (let topic = ''03/c2b/qos2/duplicate/test'';
          publish = (\<lambda>dup. gen_publish mp topic (message 2 7 ''original''\<lparr>k_dup := Some dup\<rparr>))
      in ([Open, Open] @ Hello mp 0 ''qos2-dup-subscriber'' @ Subscribe mp 0 1 topic 2 2 @
        Hello mp 1 ''qos2-dup-publisher'' @
        [Send 1 (publish False), Expect 1 (gen_pubrec mp 7 v5), Silent 0,
         Send 1 (publish True), Expect 1 (gen_pubrec mp 7 v5), Silent 0] @
        Release mp 1 7 @
        [Expect 0 (gen_publish mp topic (message 2 1 ''original''))] @ Complete mp 0 1 @
        [Bye mp 1, Bye mp 0, Shut 1, Shut 0]))"

lemma qos2_duplicate_publish_conv:
  "ok (qos2_duplicate_publish exe mp) u = conversation exe 2 False [] (qos2_duplicate_publish_steps mp)"
  by (simp add: qos2_duplicate_publish_def qos2_duplicate_publish_steps_def conversation_simps lang_simps)

definition qos2_repeated_pubrel_steps :: "mqtt_packets \<Rightarrow> step list" where
  "qos2_repeated_pubrel_steps mp =
     (let topic = ''qos2/repeated/pubrel''
      in ([Open, Open] @ Hello mp 0 ''repeat-rel-sub'' @ Subscribe mp 0 1 topic 2 2 @
        Hello mp 1 ''repeat-rel-pub'' @
        [Send 1 (gen_publish mp topic (message 2 9 ''once'')), Expect 1 (gen_pubrec mp 9 v5)] @
        Release mp 1 9 @
        [Expect 0 (gen_publish mp topic (message 2 1 ''once''))] @ Complete mp 0 1 @
        Release mp 1 9 @ Release mp 1 77 @ [Silent 0] @
        [Bye mp 1, Bye mp 0, Shut 1, Shut 0]))"

lemma qos2_repeated_pubrel_conv:
  "ok (qos2_repeated_pubrel exe mp) u = conversation exe 2 False [] (qos2_repeated_pubrel_steps mp)"
  by (simp add: qos2_repeated_pubrel_def qos2_repeated_pubrel_steps_def conversation_simps lang_simps)

lemmas qos_steps = qos2_routes_at_pubrel_steps_def mixed_version_qos1_steps_def persistent_no_local_steps_def qos2_receive_maximum_one_steps_def maximum_packet_size_qos1_steps_def maximum_packet_size_qos2_steps_def qos2_duplicate_publish_steps_def qos2_repeated_pubrel_steps_def

end
