(* ===== verification/Scenarios_Forwarding.thy ===== *)
theory Scenarios_Forwarding
  imports Conversation
begin

text \<open>
  Scenarios on what the broker forwards and to whom: \<^verbatim>\<open>retained_subscription_handling\<close>,
  \<^verbatim>\<open>incoming_topic_alias\<close>, \<^verbatim>\<open>outgoing_topic_alias\<close>, \<^verbatim>\<open>request_response_properties\<close>,
  \<^verbatim>\<open>disconnect_with_will_properties\<close>, \<^verbatim>\<open>shared_subscription_rotation\<close>,
  \<^verbatim>\<open>reject_publish_subscription_identifier\<close>, \<^verbatim>\<open>unsubscribe_reason_codes\<close>.
\<close>

section \<open>The code\<close>

definition retained_subscription_handling :: "string \<Rightarrow> mqtt_packets \<Rightarrow> mqtt5_opts \<Rightarrow> unit prog" where
  "retained_subscription_handling exe mp op =
     (let topics = [(''always'', ''02/subpub/send-retain/always''),
                    (''new'', ''02/subpub/send-retain/new''),
                    (''never'', ''02/subpub/send-retain/never'')];
          retained = v5\<lparr>k_qos := Some 0, k_retain := Some True, k_payload := Some (Some ''message'')\<rparr>;
          cases = [
            (532, the (map_of topics ''never''), MQTT_SUB_OPT_SEND_RETAIN_NEVER op, False, False),
            (531, the (map_of topics ''new''), MQTT_SUB_OPT_SEND_RETAIN_NEW op, True, False),
            (530, the (map_of topics ''always''), MQTT_SUB_OPT_SEND_RETAIN_ALWAYS op, True, True)] in
      with_broker exe 1 False [] (\<lambda>broker.
      with_connection broker (\<lambda>sock. seq [
        connect_v5 sock mp ''02-subpub-qos0-send-retain'',
        for_each (map snd topics) (\<lambda>topic. sendall sock (gen_publish mp topic retained)),
        for_each cases (\<lambda>(mid, topic, option, first_delivery, second_delivery).
          for_each (enumerate_from 1 [first_delivery, second_delivery]) (\<lambda>(attempt, expect_delivery). seq [
            sendall sock (gen_subscribe mp mid topic option v5),
            expect_packet sock (gen_suback mp mid 0 v5)
              (''retain handling SUBACK '' @ decimal mid @ ''/'' @ decimal attempt),
            if expect_delivery
            then expect_packet sock (gen_publish mp topic retained)
              (''retained delivery '' @ decimal mid @ ''/'' @ decimal attempt)
            else expect_quiet sock
              (''retain handling '' @ decimal mid @ ''/'' @ decimal attempt @ '' received '')])),
        sendall sock (gen_disconnect mp v5)])))"

definition incoming_topic_alias :: "string \<Rightarrow> mqtt_packets \<Rightarrow> mqtt5_props \<Rightarrow> unit prog" where
  "incoming_topic_alias exe mp pr =
     (let topic = ''02/subpub/topic-alias/alias'';
          alias_property = gen_uint16_prop pr (TOPIC_ALIAS pr) 3 in
      with_broker exe 2 False [] (\<lambda>broker.
      with_connection broker (\<lambda>publisher. with_connection broker (\<lambda>subscriber. seq [
        connect_v5 publisher mp ''02-subpub-qos0-topic-alias'',
        connect_v5 subscriber mp ''02-subpub-qos0-topic-alias-helper'',
        sendall publisher (gen_publish mp topic
          (v5\<lparr>k_qos := Some 0, k_payload := Some (Some ''message''), k_properties := Some alias_property\<rparr>)),
        sendall subscriber (gen_subscribe mp 1 topic 0 v5),
        expect_packet subscriber (gen_suback mp 1 0 v5) ''topic alias SUBACK'',
        sendall publisher (gen_publish mp ''''
          (v5\<lparr>k_qos := Some 0, k_payload := Some (Some ''message''), k_properties := Some alias_property\<rparr>)),
        expect_packet subscriber
          (gen_publish mp topic (v5\<lparr>k_qos := Some 0, k_payload := Some (Some ''message'')\<rparr>))
          ''resolved topic alias PUBLISH'',
        sendall publisher (gen_disconnect mp v5),
        sendall subscriber (gen_disconnect mp v5)]))))"

definition outgoing_topic_alias :: "string \<Rightarrow> mqtt_packets \<Rightarrow> mqtt5_props \<Rightarrow> unit prog" where
  "outgoing_topic_alias exe mp pr =
     (let topic = ''02/b2c/topic/alias/1'';
          maximum_property = gen_uint16_prop pr (TOPIC_ALIAS_MAXIMUM pr) 2;
          alias_property = gen_uint16_prop pr (TOPIC_ALIAS pr) 1 in
      with_broker exe 2 False [] (\<lambda>broker.
      with_connection broker (\<lambda>subscriber. with_connection broker (\<lambda>publisher. seq [
        connect_with subscriber
          (gen_connect mp (Some ''02-b2c-topic-alias'') (v5\<lparr>k_properties := Some maximum_property\<rparr>))
          ''invalid alias CONNACK: '',
        connect_v5 publisher mp ''02-b2c-topic-alias-helper'',
        sendall subscriber (gen_subscribe mp 1 topic 0 v5),
        expect_packet subscriber (gen_suback mp 1 0 v5) ''outgoing topic alias SUBACK'',
        sendall publisher (gen_publish mp topic
          (v5\<lparr>k_qos := Some 0, k_payload := Some (Some ''first'')\<rparr>)),
        expect_packet subscriber (gen_publish mp topic
            (v5\<lparr>k_qos := Some 0, k_payload := Some (Some ''first''), k_properties := Some alias_property\<rparr>))
          ''outgoing topic alias establish'',
        sendall publisher (gen_publish mp topic
          (v5\<lparr>k_qos := Some 0, k_payload := Some (Some ''second'')\<rparr>)),
        expect_packet subscriber (gen_publish mp ''''
            (v5\<lparr>k_qos := Some 0, k_payload := Some (Some ''second''), k_properties := Some alias_property\<rparr>))
          ''outgoing topic alias reuse'',
        sendall publisher (gen_disconnect mp v5),
        sendall subscriber (gen_disconnect mp v5)]))))"

definition request_response_properties :: "string \<Rightarrow> mqtt_packets \<Rightarrow> mqtt5_props \<Rightarrow> unit prog" where
  "request_response_properties exe mp pr =
     (let normal_topic = ''normal/topic'';
          response_topic = ''response/topic'';
          properties = gen_string_prop pr (RESPONSE_TOPIC pr) response_topic
            @ gen_string_prop pr (CORRELATION_DATA pr) ''45vyvynq30q3vt4 nuy893b4v3'';
          request = gen_publish mp normal_topic
            (v5\<lparr>k_qos := Some 0, k_payload := Some (Some ''2''), k_properties := Some properties\<rparr>);
          response = gen_publish mp response_topic
            (v5\<lparr>k_qos := Some 0, k_payload := Some (Some ''22'')\<rparr>) in
      with_broker exe 2 False [] (\<lambda>broker.
      with_connection broker (\<lambda>responder. with_connection broker (\<lambda>requester. seq [
        connect_v5 responder mp ''response-client'',
        connect_v5 requester mp ''request-client'',
        sendall responder (gen_subscribe mp 1 normal_topic 0 v5),
        expect_packet responder (gen_suback mp 1 0 v5) ''request responder SUBACK'',
        sendall requester (gen_subscribe mp 1 response_topic 0 v5),
        expect_packet requester (gen_suback mp 1 0 v5) ''response requester SUBACK'',
        sendall requester request,
        expect_packet responder request ''request property forwarding'',
        sendall responder response,
        expect_packet requester response ''response topic delivery'',
        sendall responder (gen_disconnect mp v5),
        sendall requester (gen_disconnect mp v5)]))))"

definition disconnect_with_will_properties :: "string \<Rightarrow> mqtt_packets \<Rightarrow> mqtt5_props \<Rightarrow> unit prog" where
  "disconnect_with_will_properties exe mp pr =
     (let topic = ''will/properties'';
          will_properties =
            gen_uint32_prop pr (WILL_DELAY_INTERVAL pr) 0
            @ gen_string_pair_prop pr (USER_PROPERTY pr) ''key1'' ''value1''
            @ gen_string_prop pr (RESPONSE_TOPIC pr) ''response/topic''
            @ gen_string_prop pr (CORRELATION_DATA pr) ''correlation-data''
            @ gen_byte_prop pr (PAYLOAD_FORMAT_INDICATOR pr) 1
            @ gen_string_prop pr (CONTENT_TYPE pr) ''text/plain''
            @ gen_string_pair_prop pr (USER_PROPERTY pr) ''key2'' ''value2'';
          forwarded_properties = drop 5 will_properties in
      with_broker exe 2 False [] (\<lambda>broker.
      with_connection broker (\<lambda>subscriber. with_connection broker (\<lambda>source. seq [
        connect_v5 subscriber mp ''will-property-subscriber'',
        sendall subscriber (gen_subscribe mp 1 topic 0 v5),
        expect_packet subscriber (gen_suback mp 1 0 v5) ''Will property SUBACK'',
        sendall source (gen_connect mp (Some ''will-property-source'')
          (v5\<lparr>k_will_topic := Some topic, k_will_payload := Some (encode_ascii ''will payload''),
             k_will_properties := Some will_properties\<rparr>)),
        bind (read_packet source) (\<lambda>connack.
          raise_if [byte_ne connack 0 0x20, Ret (slice 2 4 connack \<noteq> [0, 0])]
            (''Will source invalid CONNACK: '' @ hex connack)),
        sendall source (gen_disconnect mp (v5\<lparr>k_reason_code := Some (Code 4)\<rparr>)),
        expect_packet subscriber (gen_publish mp topic
            (v5\<lparr>k_qos := Some 0, k_payload := Some (Some ''will payload''),
               k_properties := Some forwarded_properties\<rparr>))
          ''DISCONNECT 0x04 Will property forwarding'',
        sendall subscriber (gen_disconnect mp v5)]))))"

definition shared_subscription_rotation :: "string \<Rightarrow> mqtt_packets \<Rightarrow> unit prog" where
  "shared_subscription_rotation exe mp =
     (let topic = ''02A/share/test'' in
      with_broker exe 5 False [] (\<lambda>broker.
        bind (collect [0..<5] (\<lambda>_. broker_connect broker)) (\<lambda>sockets.
        let filters = [(0, ''02A/#''),
                       (1, ''$share/one/02A/share/test''),
                       (2, ''$share/one/02A/share/test''),
                       (2, ''$share/two/02A/share/test''),
                       (3, ''$share/two/02A/share/test''),
                       (4, ''$share/one/02A/share/test'')];
            expected_receivers = [[0, 1, 2], [0, 2, 3], [0, 2, 4]] in
        try_finally (seq [
          for_each (enumerate_from 1 sockets) (\<lambda>(index, sock).
            connect_v5 sock mp (''02-shared-client'' @ decimal index)),
          for_each filters (\<lambda>(socket_index, topic_filter).
            bind (item sockets socket_index) (\<lambda>sock. seq [
              sendall sock (gen_subscribe mp 1 topic_filter 0 v5),
              expect_packet sock (gen_suback mp 1 0 v5)
                (''shared SUBACK '' @ decimal socket_index @ ''/'' @ topic_filter)])),
          for_each (enumerate_from 1 expected_receivers) (\<lambda>(message_index, receivers).
            let packet = gen_publish mp topic
                  (v5\<lparr>k_qos := Some 0, k_payload := Some (Some (''message'' @ decimal message_index))\<rparr>) in
            bind (item sockets 0) (\<lambda>first. seq [
              sendall first packet,
              for_each receivers (\<lambda>receiver.
                bind (item sockets receiver) (\<lambda>sock.
                  expect_packet sock packet
                    (''shared publish '' @ decimal message_index @ ''/'' @ decimal receiver)))])),
          for_each sockets (\<lambda>sock. sendall sock (gen_disconnect mp v5))])
        (for_each sockets close))))"

definition reject_publish_subscription_identifier ::
  "string \<Rightarrow> mqtt_packets \<Rightarrow> mqtt5_props \<Rightarrow> unit prog" where
  "reject_publish_subscription_identifier exe mp pr =
     (let illegal = gen_varint_prop pr (SUBSCRIPTION_IDENTIFIER pr) 7 in
      with_broker exe 2 True [] (\<lambda>broker. seq [
        with_connection broker (\<lambda>bad. seq [
          connect_v5 bad mp ''illegal-publish-subid'',
          sendall bad (gen_publish mp ''illegal/subid''
            (v5\<lparr>k_qos := Some 0, k_payload := Some (Some ''bad''), k_properties := Some illegal\<rparr>)),
          expect_dropped bad ''illegal Subscription Identifier got response: '']),
        with_connection broker (\<lambda>healthy. seq [
          connect_v5 healthy mp ''after-illegal-subid'',
          sendall healthy (gen_pingreq mp),
          expect_packet healthy (gen_pingresp mp) ''healthy PINGRESP after illegal Subscription Identifier'',
          sendall healthy (gen_disconnect mp v5)])]))"

definition unsubscribe_reason_codes :: "string \<Rightarrow> mqtt_packets \<Rightarrow> unit prog" where
  "unsubscribe_reason_codes exe mp =
     (let topic = ''unsubscribe/reason/existing'' in
      with_broker exe 2 False [] (\<lambda>broker.
      with_connection broker (\<lambda>subscriber. with_connection broker (\<lambda>publisher. seq [
        connect_v5 subscriber mp ''unsubscribe-reasons'',
        sendall subscriber (gen_subscribe mp 1 topic 0 v5),
        expect_packet subscriber (gen_suback mp 1 0 v5) ''unsubscribe reason SUBACK'',
        sendall subscriber (gen_unsubscribe_multiple mp 2 [topic, ''unsubscribe/reason/missing''] v5),
        expect_packet subscriber
          (gen_unsuback mp 2 (v5\<lparr>k_reason_code := Some (Codes [0x00, 0x11])\<rparr>))
          ''multi-filter UNSUBACK reasons'',
        connect_v5 publisher mp ''unsubscribe-publisher'',
        sendall publisher (gen_publish mp topic
          (v5\<lparr>k_qos := Some 0, k_payload := Some (Some ''not-routed'')\<rparr>)),
        sendall subscriber (gen_pingreq mp),
        expect_packet subscriber (gen_pingresp mp) ''PINGRESP after unsubscribe'',
        sendall publisher (gen_disconnect mp v5),
        sendall subscriber (gen_disconnect mp v5)]))))"

section \<open>Conversations\<close>

text \<open>Per retain-handling option, the retained message is replayed never, on a new subscription
  only, or always.\<close>

definition retained_subscription_handling_steps :: "mqtt_packets \<Rightarrow> mqtt5_opts \<Rightarrow> step list" where
  "retained_subscription_handling_steps mp op =
     (let always = ''02/subpub/send-retain/always''; new = ''02/subpub/send-retain/new'';
          never = ''02/subpub/send-retain/never'';
          retained = (\<lambda>topic. gen_publish mp topic (message0 ''message''\<lparr>k_retain := Some True\<rparr>))
      in ([Open] @ Hello mp 0 ''02-subpub-qos0-send-retain'' @
        [Send 0 (retained always), Send 0 (retained new), Send 0 (retained never)] @
        Subscribe mp 0 532 never (MQTT_SUB_OPT_SEND_RETAIN_NEVER op) 0 @ [Silent 0] @
        Subscribe mp 0 532 never (MQTT_SUB_OPT_SEND_RETAIN_NEVER op) 0 @ [Silent 0] @
        Subscribe mp 0 531 new (MQTT_SUB_OPT_SEND_RETAIN_NEW op) 0 @ [Expect 0 (retained new)] @
        Subscribe mp 0 531 new (MQTT_SUB_OPT_SEND_RETAIN_NEW op) 0 @ [Silent 0] @
        Subscribe mp 0 530 always (MQTT_SUB_OPT_SEND_RETAIN_ALWAYS op) 0 @ [Expect 0 (retained always)] @
        Subscribe mp 0 530 always (MQTT_SUB_OPT_SEND_RETAIN_ALWAYS op) 0 @ [Expect 0 (retained always)] @
        [Bye mp 0, Shut 0]))"

lemma retained_subscription_handling_conv:
  "ok (retained_subscription_handling exe mp op) u = conversation exe 1 False [] (retained_subscription_handling_steps mp op)"
  by (simp add: retained_subscription_handling_def retained_subscription_handling_steps_def conversation_simps lang_simps no_kwargs_def)

definition incoming_topic_alias_steps :: "mqtt_packets \<Rightarrow> mqtt5_props \<Rightarrow> step list" where
  "incoming_topic_alias_steps mp pr =
     (let topic = ''02/subpub/topic-alias/alias'';
          aliased = message0 ''message''\<lparr>k_properties := Some (gen_uint16_prop pr (TOPIC_ALIAS pr) 3)\<rparr>
      in ([Open, Open] @ Hello mp 0 ''02-subpub-qos0-topic-alias'' @
        Hello mp 1 ''02-subpub-qos0-topic-alias-helper'' @
        [Send 0 (gen_publish mp topic aliased)] @ Subscribe mp 1 1 topic 0 0 @
        [Send 0 (gen_publish mp '''' aliased), Expect 1 (gen_publish mp topic (message0 ''message'')),
         Bye mp 0, Bye mp 1, Shut 1, Shut 0]))"

lemma incoming_topic_alias_conv:
  "ok (incoming_topic_alias exe mp pr) u = conversation exe 2 False [] (incoming_topic_alias_steps mp pr)"
  by (simp add: incoming_topic_alias_def incoming_topic_alias_steps_def conversation_simps lang_simps no_kwargs_def)

definition outgoing_topic_alias_steps :: "mqtt_packets \<Rightarrow> mqtt5_props \<Rightarrow> step list" where
  "outgoing_topic_alias_steps mp pr =
     (let topic = ''02/b2c/topic/alias/1'';
          alias1 = Some (gen_uint16_prop pr (TOPIC_ALIAS pr) 1)
      in ([Open, Open,
         Send 0 (gen_connect mp (Some ''02-b2c-topic-alias'')
           (v5\<lparr>k_properties := Some (gen_uint16_prop pr (TOPIC_ALIAS_MAXIMUM pr) 2)\<rparr>)),
         Await 0 accepted_ok] @ Hello mp 1 ''02-b2c-topic-alias-helper'' @
        Subscribe mp 0 1 topic 0 0 @
        [Send 1 (gen_publish mp topic (message0 ''first'')),
         Expect 0 (gen_publish mp topic (message0 ''first''\<lparr>k_properties := alias1\<rparr>)),
         Send 1 (gen_publish mp topic (message0 ''second'')),
         Expect 0 (gen_publish mp '''' (message0 ''second''\<lparr>k_properties := alias1\<rparr>)),
         Bye mp 1, Bye mp 0, Shut 1, Shut 0]))"

lemma outgoing_topic_alias_conv:
  "ok (outgoing_topic_alias exe mp pr) u = conversation exe 2 False [] (outgoing_topic_alias_steps mp pr)"
  by (simp add: outgoing_topic_alias_def outgoing_topic_alias_steps_def conversation_simps lang_simps no_kwargs_def)

definition request_response_properties_steps :: "mqtt_packets \<Rightarrow> mqtt5_props \<Rightarrow> step list" where
  "request_response_properties_steps mp pr =
     (let properties = gen_string_prop pr (RESPONSE_TOPIC pr) ''response/topic''
            @ gen_string_prop pr (CORRELATION_DATA pr) ''45vyvynq30q3vt4 nuy893b4v3'';
          request = gen_publish mp ''normal/topic'' (message0 ''2''\<lparr>k_properties := Some properties\<rparr>);
          response = gen_publish mp ''response/topic'' (message0 ''22'')
      in ([Open, Open] @ Hello mp 0 ''response-client'' @ Hello mp 1 ''request-client'' @
        Subscribe mp 0 1 ''normal/topic'' 0 0 @ Subscribe mp 1 1 ''response/topic'' 0 0 @
        [Send 1 request, Expect 0 request, Send 0 response, Expect 1 response,
         Bye mp 0, Bye mp 1, Shut 1, Shut 0]))"

lemma request_response_properties_conv:
  "ok (request_response_properties exe mp pr) u = conversation exe 2 False [] (request_response_properties_steps mp pr)"
  by (simp add: request_response_properties_def request_response_properties_steps_def conversation_simps lang_simps no_kwargs_def)

lemma ok_will_connack [lang_simps]:
  "ok (bind (read_packet s) (\<lambda>p. raise_if [byte_ne p 0 0x20, Ret (slice 2 4 p \<noteq> [0, 0])] (m p))) u =
     rx_where s fresh_ok"
proof -
  have "ok (raise_if [byte_ne p 0 0x20, Ret (slice 2 4 p \<noteq> [0, 0])] (m p)) v =
      onlyif (fresh_ok p) eps" for p v
    by (auto simp: ok_def check_simps onlyif_def eps_def fresh_ok_def fun_eq_iff)
  then show ?thesis by (simp add: lang_simps rx_where_def)
qed

text \<open>The Will Delay Interval (five bytes) is stripped; every other property is forwarded in order.\<close>

definition disconnect_with_will_properties_steps :: "mqtt_packets \<Rightarrow> mqtt5_props \<Rightarrow> step list" where
  "disconnect_with_will_properties_steps mp pr =
     (let topic = ''will/properties'';
          properties =
            gen_uint32_prop pr (WILL_DELAY_INTERVAL pr) 0
            @ gen_string_pair_prop pr (USER_PROPERTY pr) ''key1'' ''value1''
            @ gen_string_prop pr (RESPONSE_TOPIC pr) ''response/topic''
            @ gen_string_prop pr (CORRELATION_DATA pr) ''correlation-data''
            @ gen_byte_prop pr (PAYLOAD_FORMAT_INDICATOR pr) 1
            @ gen_string_prop pr (CONTENT_TYPE pr) ''text/plain''
            @ gen_string_pair_prop pr (USER_PROPERTY pr) ''key2'' ''value2''
      in ([Open, Open] @ Hello mp 0 ''will-property-subscriber'' @ Subscribe mp 0 1 topic 0 0 @
        [Send 1 (gen_connect mp (Some ''will-property-source'')
           (v5\<lparr>k_will_topic := Some topic, k_will_payload := Some (encode_ascii ''will payload''),
              k_will_properties := Some properties\<rparr>)), Await 1 fresh_ok,
         Send 1 (gen_disconnect mp (v5\<lparr>k_reason_code := Some (Code 4)\<rparr>)),
         Expect 0 (gen_publish mp topic
           (message0 ''will payload''\<lparr>k_properties := Some (drop 5 properties)\<rparr>)),
         Bye mp 0, Shut 1, Shut 0]))"

lemma disconnect_with_will_properties_conv:
  "ok (disconnect_with_will_properties exe mp pr) u = conversation exe 2 False [] (disconnect_with_will_properties_steps mp pr)"
  unfolding disconnect_with_will_properties_def disconnect_with_will_properties_steps_def Let_def
  by (simp add: conversation_simps lang_simps no_kwargs_def del: ok_bind drop_append)

definition reject_publish_subscription_identifier_steps :: "mqtt_packets \<Rightarrow> mqtt5_props \<Rightarrow> step list" where
  "reject_publish_subscription_identifier_steps mp pr =
     ([Open] @ Hello mp 0 ''illegal-publish-subid'' @
        [Send 0 (gen_publish mp ''illegal/subid'' (message0 ''bad''
           \<lparr>k_properties := Some (gen_varint_prop pr (SUBSCRIPTION_IDENTIFIER pr) 7)\<rparr>)), Gone 0, Shut 0,
         Open] @ Hello mp 1 ''after-illegal-subid'' @ Ping mp 1 @ [Bye mp 1, Shut 1])"

lemma reject_publish_subscription_identifier_conv:
  "ok (reject_publish_subscription_identifier exe mp pr) u = conversation exe 2 True [] (reject_publish_subscription_identifier_steps mp pr)"
  by (simp add: reject_publish_subscription_identifier_def reject_publish_subscription_identifier_steps_def conversation_simps lang_simps no_kwargs_def)

definition unsubscribe_reason_codes_steps :: "mqtt_packets \<Rightarrow> step list" where
  "unsubscribe_reason_codes_steps mp =
     (let topic = ''unsubscribe/reason/existing''
      in ([Open, Open] @ Hello mp 0 ''unsubscribe-reasons'' @ Subscribe mp 0 1 topic 0 0 @
        [Send 0 (gen_unsubscribe_multiple mp 2 [topic, ''unsubscribe/reason/missing''] v5),
         Expect 0 (gen_unsuback mp 2 (v5\<lparr>k_reason_code := Some (Codes [0x00, 0x11])\<rparr>))] @
        Hello mp 1 ''unsubscribe-publisher'' @
        [Send 1 (gen_publish mp topic (message0 ''not-routed''))] @ Ping mp 0 @
        [Bye mp 1, Bye mp 0, Shut 1, Shut 0]))"

lemma unsubscribe_reason_codes_conv:
  "ok (unsubscribe_reason_codes exe mp) u = conversation exe 2 False [] (unsubscribe_reason_codes_steps mp)"
  by (simp add: unsubscribe_reason_codes_def unsubscribe_reason_codes_steps_def conversation_simps lang_simps)

text \<open>Each message reaches the ordinary subscriber and exactly one member of either group.\<close>

definition shared_subscription_rotation_steps :: "mqtt_packets \<Rightarrow> step list" where
  "shared_subscription_rotation_steps mp =
     (let msg = (\<lambda>n. gen_publish mp ''02A/share/test'' (message0 (''message'' @ decimal n)));
          hello = (\<lambda>i. Hello mp i (''02-shared-client'' @ decimal (i + 1)));
          sub = (\<lambda>i topic. Subscribe mp i 1 topic 0 0);
          one = ''$share/one/02A/share/test''; two = ''$share/two/02A/share/test''
      in (replicate 5 Open @ hello 0 @ hello 1 @ hello 2 @ hello 3 @ hello 4 @
        sub 0 ''02A/#'' @ sub 1 one @ sub 2 one @ sub 2 two @ sub 3 two @ sub 4 one @
        [Send 0 (msg 1), Expect 0 (msg 1), Expect 1 (msg 1), Expect 2 (msg 1),
         Send 0 (msg 2), Expect 0 (msg 2), Expect 2 (msg 2), Expect 3 (msg 2),
         Send 0 (msg 3), Expect 0 (msg 3), Expect 2 (msg 3), Expect 4 (msg 3)] @
        map (Bye mp) [0..<5] @ map Shut [0..<5]))"

lemma five_connections:
  "[0..<5] = [0, 1, 2, 3, 4 :: nat]" "replicate 5 Open = [Open, Open, Open, Open, Open]"
  by (simp_all add: upt_rec numeral_eq_Suc)

lemma shared_subscription_rotation_conv:
  "ok (shared_subscription_rotation exe mp) u = conversation exe 5 False [] (shared_subscription_rotation_steps mp)"
  unfolding shared_subscription_rotation_def shared_subscription_rotation_steps_def five_connections Let_def
  by (simp add: conversation_simps lang_simps)

lemmas forwarding_steps = retained_subscription_handling_steps_def incoming_topic_alias_steps_def outgoing_topic_alias_steps_def request_response_properties_steps_def disconnect_with_will_properties_steps_def reject_publish_subscription_identifier_steps_def unsubscribe_reason_codes_steps_def shared_subscription_rotation_steps_def

end
