(* ===== verification/Scenarios_Retained.thy ===== *)
theory Scenarios_Retained
  imports Conversation
begin

text \<open>
  Scenarios on retained messages: \<^verbatim>\<open>retained_message_expiry\<close>,
  \<^verbatim>\<open>retained_repeated_lifecycle\<close>, \<^verbatim>\<open>retained_multilevel_clear\<close>,
  \<^verbatim>\<open>retain_as_published_live\<close>, \<^verbatim>\<open>retained_replacement\<close>,
  \<^verbatim>\<open>retained_publish_property_bundle\<close>, \<^verbatim>\<open>retained_tombstone_properties\<close>.
\<close>

section \<open>The code\<close>

text \<open>The check of \<^verbatim>\<open>retained_message_expiry\<close> that the packet read is one of two variants.\<close>

definition expect_variant :: "sock \<Rightarrow> bytes list \<Rightarrow> unit prog" where
  "expect_variant sock expiry_variants =
     bind (read_packet sock) (\<lambda>actual.
       whenever (actual \<notin> set expiry_variants)
         (Raise (AssertionError (''immediate retained expiry mismatch: '' @ hex actual))))"

definition retained_message_expiry ::
  "string \<Rightarrow> mqtt_packets \<Rightarrow> mqtt5_props \<Rightarrow> mqtt5_rc \<Rightarrow> unit prog" where
  "retained_message_expiry exe mp pr rc =
     (let expired_topic = ''subpub/expired'';
          kept_topic = ''subpub/kept'';
          expiry_two = gen_uint32_prop pr (MESSAGE_EXPIRY_INTERVAL pr) 2;
          no_match = v5\<lparr>k_reason_code := Some (Code (NO_MATCHING_SUBSCRIBERS rc))\<rparr>;
          kept = gen_publish mp kept_topic
            (v5\<lparr>k_qos := Some 0, k_retain := Some True, k_payload := Some (Some ''message2'')\<rparr>) in
      with_broker exe 3 False [] (\<lambda>broker. seq [
        with_connection broker (\<lambda>publisher. seq [
          connect_v5 publisher mp ''expiry-helper'',
          sendall publisher (gen_publish mp expired_topic
            (v5\<lparr>k_qos := Some 1, k_mid := Some 1, k_retain := Some True,
               k_payload := Some (Some ''message1''), k_properties := Some expiry_two\<rparr>)),
          expect_packet publisher (gen_puback mp 1 no_match) ''expiring retained PUBACK'',
          sendall publisher (gen_publish mp kept_topic
            (v5\<lparr>k_qos := Some 1, k_mid := Some 2, k_retain := Some True,
               k_payload := Some (Some ''message2'')\<rparr>)),
          expect_packet publisher (gen_puback mp 2 no_match) ''kept retained PUBACK'',
          sendall publisher (gen_disconnect mp v5)]),
        with_connection broker (\<lambda>immediate. seq [
          connect_v5 immediate mp ''expiry-immediate'',
          sendall immediate (gen_subscribe mp 1 expired_topic 0 v5),
          expect_packet immediate (gen_suback mp 1 0 v5) ''immediate expiry SUBACK'',
          (let expiry_variants = map (\<lambda>remaining. gen_publish mp expired_topic
                 (v5\<lparr>k_qos := Some 0, k_retain := Some True, k_payload := Some (Some ''message1''),
                    k_properties := Some (gen_uint32_prop pr (MESSAGE_EXPIRY_INTERVAL pr) remaining)\<rparr>))
                 [2, 1] in
           expect_variant immediate expiry_variants),
          sendall immediate (gen_subscribe mp 2 kept_topic 0 v5),
          expect_packet immediate (gen_suback mp 2 0 v5) ''immediate kept SUBACK'',
          expect_packet immediate kept ''immediate kept replay'',
          sendall immediate (gen_disconnect mp v5)]),
        sleep 3000,
        with_connection broker (\<lambda>expired. seq [
          connect_v5 expired mp ''expiry-late'',
          sendall expired (gen_subscribe mp 1 expired_topic 0 v5),
          expect_packet expired (gen_suback mp 1 0 v5) ''late expiry SUBACK'',
          sendall expired (gen_subscribe mp 2 kept_topic 0 v5),
          expect_packet expired (gen_suback mp 2 0 v5) ''late kept SUBACK'',
          expect_packet expired kept ''late kept replay'',
          sendall expired (gen_disconnect mp v5)])]))"

definition retained_repeated_lifecycle :: "string \<Rightarrow> mqtt_packets \<Rightarrow> unit prog" where
  "retained_repeated_lifecycle exe mp =
     (let topic = ''retain/qos0/repeated'';
          retained = gen_publish mp topic
            (v5\<lparr>k_qos := Some 0, k_payload := Some (Some ''retained message''), k_retain := Some True\<rparr>) in
      with_broker exe 1 False [] (\<lambda>broker.
      with_connection broker (\<lambda>sock. seq [
        connect_v5 sock mp ''retain-qos0-rep-test'',
        sendall sock retained,
        for_each [1, 2] (\<lambda>attempt. seq [
          sendall sock (gen_subscribe mp 16 topic 0 v5),
          expect_packet sock (gen_suback mp 16 0 v5) (''retained repeated SUBACK '' @ decimal attempt),
          expect_packet sock retained (''retained repeated replay '' @ decimal attempt),
          whenever (attempt = 1) (seq [
            sendall sock (gen_unsubscribe mp 13 topic v5),
            expect_packet sock (gen_unsuback mp 13 v5) ''retained repeated UNSUBACK''])]),
        sendall sock (gen_unsubscribe mp 14 topic v5),
        expect_packet sock (gen_unsuback mp 14 v5) ''retained clear UNSUBACK'',
        sendall sock (gen_publish mp topic
          (v5\<lparr>k_qos := Some 0, k_payload := Some None, k_retain := Some True\<rparr>)),
        sendall sock (gen_subscribe mp 17 topic 0 v5),
        expect_packet sock (gen_suback mp 17 0 v5) ''retained clear SUBACK'',
        sendall sock (gen_pingreq mp),
        expect_packet sock (gen_pingresp mp) ''retained clear PINGRESP'',
        sendall sock (gen_disconnect mp v5)])))"

text \<open>The local function \<^verbatim>\<open>replay\<close> of \<^verbatim>\<open>retained_multilevel_clear\<close>.\<close>

definition replay :: "mqtt_packets \<Rightarrow> string \<Rightarrow> sock \<Rightarrow> nat \<Rightarrow> string list \<Rightarrow> unit prog" where
  "replay mp payload sock mid expected_topics = seq [
     sendall sock (gen_subscribe mp mid ''#'' 0 v5),
     expect_packet sock (gen_suback mp mid 0 v5) (''multilevel retained SUBACK '' @ decimal mid),
     expect_packets_unordered sock
       (map (\<lambda>topic. gen_publish mp topic
          (v5\<lparr>k_qos := Some 0, k_payload := Some (Some payload), k_retain := Some True\<rparr>)) expected_topics)
       (''multilevel retained replay '' @ decimal mid),
     sendall sock (gen_unsubscribe mp mid ''#'' v5),
     expect_packet sock (gen_unsuback mp mid v5) (''multilevel retained UNSUBACK '' @ decimal mid)]"

definition retained_multilevel_clear :: "string \<Rightarrow> mqtt_packets \<Rightarrow> unit prog" where
  "retained_multilevel_clear exe mp =
     (let topics = [''1'', ''1/2/3/4'', ''1/2/3/4/5/6/7''];
          payload = ''retained message'';
          no_match = v5\<lparr>k_reason_code := Some (Code 0x10)\<rparr> in
      with_broker exe 1 False [] (\<lambda>broker.
      with_connection broker (\<lambda>sock. seq [
        connect_v5 sock mp ''retain-clear-test'',
        for_each (enumerate_from 1 topics) (\<lambda>(mid, topic). seq [
          sendall sock (gen_publish mp topic
            (v5\<lparr>k_qos := Some 1, k_mid := Some mid, k_payload := Some (Some payload), k_retain := Some True\<rparr>)),
          expect_packet sock (gen_puback mp mid no_match) (''multilevel retained set '' @ topic)]),
        replay mp payload sock 10 topics,
        bind (fold_each (enumerate_from 20 [''1/2/3/4'', ''1/2/3/4/5/6/7'']) (\<lambda>(mid, topic) remaining.
          bind (sendall sock (gen_publish mp topic
            (v5\<lparr>k_qos := Some 1, k_mid := Some mid, k_payload := Some None, k_retain := Some True\<rparr>))) (\<lambda>_.
          bind (expect_packet sock (gen_puback mp mid no_match) (''multilevel retained clear '' @ topic)) (\<lambda>_.
          bind (list_remove topic remaining) (\<lambda>remaining.
          bind (replay mp payload sock (mid + 20) remaining) (\<lambda>_. Ret remaining))))) topics) (\<lambda>_. skip),
        sendall sock (gen_disconnect mp v5)])))"

definition retain_as_published_live :: "string \<Rightarrow> mqtt_packets \<Rightarrow> mqtt5_opts \<Rightarrow> unit prog" where
  "retain_as_published_live exe mp op =
     (let topic = ''retain/as/published/live'' in
      with_broker exe 3 False [] (\<lambda>broker.
      with_connection broker (\<lambda>cleared. with_connection broker (\<lambda>preserved.
      with_connection broker (\<lambda>publisher. seq [
        connect_v5 cleared mp ''rap-clear'',
        connect_v5 preserved mp ''rap-preserve'',
        for_each [(cleared, 0, ''clear''),
                  (preserved, MQTT_SUB_OPT_RETAIN_AS_PUBLISHED op, ''preserve'')]
          (\<lambda>(sock, options, label). seq [
            sendall sock (gen_subscribe mp 1 topic options v5),
            expect_packet sock (gen_suback mp 1 0 v5) (''RAP '' @ label @ '' SUBACK'')]),
        connect_v5 publisher mp ''rap-publisher'',
        sendall publisher (gen_publish mp topic
          (v5\<lparr>k_qos := Some 1, k_mid := Some 1, k_payload := Some (Some ''retained-live''),
             k_retain := Some True\<rparr>)),
        expect_packet publisher (gen_puback mp 1 v5) ''RAP publisher PUBACK'',
        expect_packet cleared (gen_publish mp topic
            (v5\<lparr>k_qos := Some 0, k_payload := Some (Some ''retained-live''), k_retain := Some False\<rparr>))
          ''RAP cleared PUBLISH'',
        expect_packet preserved (gen_publish mp topic
            (v5\<lparr>k_qos := Some 0, k_payload := Some (Some ''retained-live''), k_retain := Some True\<rparr>))
          ''RAP preserved PUBLISH'',
        sendall publisher (gen_disconnect mp v5),
        sendall cleared (gen_disconnect mp v5),
        sendall preserved (gen_disconnect mp v5)])))))"

definition retained_replacement :: "string \<Rightarrow> mqtt_packets \<Rightarrow> mqtt5_props \<Rightarrow> unit prog" where
  "retained_replacement exe mp pr =
     (let topic = ''retained/replacement'';
          old_property = gen_string_pair_prop pr (USER_PROPERTY pr) ''version'' ''old'';
          new_property = gen_string_pair_prop pr (USER_PROPERTY pr) ''version'' ''new'' in
      with_broker exe 2 False [] (\<lambda>broker.
      with_connection broker (\<lambda>publisher. with_connection broker (\<lambda>subscriber. seq [
        connect_v5 publisher mp ''retained-replace-pub'',
        for_each [(1, ''old-value'', old_property), (2, ''new-value'', new_property)]
          (\<lambda>(mid, payload, properties). seq [
            sendall publisher (gen_publish mp topic
              (v5\<lparr>k_qos := Some 1, k_mid := Some mid, k_payload := Some (Some payload),
                 k_retain := Some True, k_properties := Some properties\<rparr>)),
            expect_packet publisher (gen_puback mp mid (v5\<lparr>k_reason_code := Some (Code 0x10)\<rparr>))
              (''retained replacement PUBACK '' @ decimal mid)]),
        connect_v5 subscriber mp ''retained-replace-sub'',
        sendall subscriber (gen_subscribe mp 1 topic 0 v5),
        expect_packet subscriber (gen_suback mp 1 0 v5) ''retained replacement SUBACK'',
        expect_packet subscriber (gen_publish mp topic
            (v5\<lparr>k_qos := Some 0, k_payload := Some (Some ''new-value''), k_retain := Some True,
               k_properties := Some new_property\<rparr>))
          ''retained replacement latest PUBLISH'',
        sendall subscriber (gen_pingreq mp),
        expect_packet subscriber (gen_pingresp mp) ''retained replacement single replay'',
        sendall publisher (gen_disconnect mp v5),
        sendall subscriber (gen_disconnect mp v5)]))))"

definition retained_publish_property_bundle :: "string \<Rightarrow> mqtt_packets \<Rightarrow> mqtt5_props \<Rightarrow> unit prog" where
  "retained_publish_property_bundle exe mp pr =
     (let topic = ''retained/property/bundle'';
          properties =
            gen_byte_prop pr (PAYLOAD_FORMAT_INDICATOR pr) 1
            @ gen_string_prop pr (CONTENT_TYPE pr) ''plain/text''
            @ gen_string_prop pr (RESPONSE_TOPIC pr) ''response/property/bundle''
            @ gen_string_prop pr (CORRELATION_DATA pr) ''2357289375902345''
            @ gen_string_pair_prop pr (USER_PROPERTY pr) ''name'' ''value'' in
      with_broker exe 1 False [] (\<lambda>broker.
      with_connection broker (\<lambda>sock. seq [
        connect_v5 sock mp ''retained-property-bundle'',
        sendall sock (gen_publish mp topic
          (v5\<lparr>k_qos := Some 1, k_mid := Some 1, k_payload := Some (Some ''message''),
             k_retain := Some True, k_properties := Some properties\<rparr>)),
        expect_packet sock (gen_puback mp 1 (v5\<lparr>k_reason_code := Some (Code 0x10)\<rparr>))
          ''property bundle PUBACK'',
        sendall sock (gen_subscribe mp 2 topic 0 v5),
        expect_packet sock (gen_suback mp 2 0 v5) ''property bundle SUBACK'',
        expect_packet sock (gen_publish mp topic
            (v5\<lparr>k_qos := Some 0, k_payload := Some (Some ''message''), k_retain := Some True,
               k_properties := Some properties\<rparr>))
          ''property bundle retained PUBLISH'',
        sendall sock (gen_disconnect mp v5)])))"

definition retained_tombstone_properties :: "string \<Rightarrow> mqtt_packets \<Rightarrow> mqtt5_props \<Rightarrow> unit prog" where
  "retained_tombstone_properties exe mp pr =
     (let topic = ''retained/tombstone/properties'';
          old_property = gen_string_pair_prop pr (USER_PROPERTY pr) ''state'' ''old'';
          tombstone_property = gen_string_pair_prop pr (USER_PROPERTY pr) ''state'' ''deleted'';
          new_property = gen_string_pair_prop pr (USER_PROPERTY pr) ''state'' ''new'' in
      with_broker exe 1 False [] (\<lambda>broker.
      with_connection broker (\<lambda>sock. seq [
        connect_v5 sock mp ''retained-tombstone'',
        for_each [(1, Some ''old'', old_property), (2, None, tombstone_property)]
          (\<lambda>(mid, payload, properties). seq [
            sendall sock (gen_publish mp topic
              (v5\<lparr>k_qos := Some 1, k_mid := Some mid, k_payload := Some payload,
                 k_retain := Some True, k_properties := Some properties\<rparr>)),
            expect_packet sock (gen_puback mp mid (v5\<lparr>k_reason_code := Some (Code 0x10)\<rparr>))
              (''tombstone PUBACK '' @ decimal mid)]),
        sendall sock (gen_subscribe mp 3 topic 0 v5),
        expect_packet sock (gen_suback mp 3 0 v5) ''tombstone empty SUBACK'',
        sendall sock (gen_pingreq mp),
        expect_packet sock (gen_pingresp mp) ''tombstone empty replay'',
        sendall sock (gen_publish mp topic
          (v5\<lparr>k_qos := Some 1, k_mid := Some 4, k_payload := Some (Some ''new''),
             k_retain := Some True, k_properties := Some new_property\<rparr>)),
        expect_packets_unordered sock
          [gen_puback mp 4 v5,
           gen_publish mp topic
             (v5\<lparr>k_qos := Some 0, k_payload := Some (Some ''new''), k_retain := Some False,
                k_properties := Some new_property\<rparr>)]
          ''tombstone new live publish'',
        sendall sock (gen_disconnect mp v5)])))"

section \<open>Conversations\<close>

lemma ok_expect_variant [lang_simps]:
  "ok (expect_variant s vs) u = rx_where s (\<lambda>p. p \<in> set vs)"
proof -
  have "ok (whenever (p \<notin> set vs) (Raise e)) v = onlyif (p \<in> set vs) eps" for p e v
    by (auto simp: lang_simps onlyif_def)
  then show ?thesis by (simp add: expect_variant_def lang_simps rx_where_def)
qed

definition retained_message_expiry_steps :: "mqtt_packets \<Rightarrow> mqtt5_props \<Rightarrow> mqtt5_rc \<Rightarrow> step list" where
  "retained_message_expiry_steps mp pr rc =
     (let expired = ''subpub/expired''; kept = ''subpub/kept'';
          expiry = gen_uint32_prop pr (MESSAGE_EXPIRY_INTERVAL pr);
          no_match = v5\<lparr>k_reason_code := Some (Code (NO_MATCHING_SUBSCRIBERS rc))\<rparr>;
          replay1 = (\<lambda>secs. gen_publish mp expired
            (message0 ''message1''\<lparr>k_retain := Some True, k_properties := Some (expiry secs)\<rparr>));
          replay2 = gen_publish mp kept (message0 ''message2''\<lparr>k_retain := Some True\<rparr>)
      in ([Open] @ Hello mp 0 ''expiry-helper'' @
        [Send 0 (gen_publish mp expired
           (message 1 1 ''message1''\<lparr>k_retain := Some True, k_properties := Some (expiry 2)\<rparr>)),
         Expect 0 (gen_puback mp 1 no_match),
         Send 0 (gen_publish mp kept (message 1 2 ''message2''\<lparr>k_retain := Some True\<rparr>)),
         Expect 0 (gen_puback mp 2 no_match), Bye mp 0, Shut 0,
         Open] @ Hello mp 1 ''expiry-immediate'' @ Subscribe mp 1 1 expired 0 0 @
        [Await 1 (\<lambda>p. p \<in> set [replay1 2, replay1 1])] @ Subscribe mp 1 2 kept 0 0 @
        [Expect 1 replay2, Bye mp 1, Shut 1,
         Pause 3000,
         Open] @ Hello mp 2 ''expiry-late'' @ Subscribe mp 2 1 expired 0 0 @
        Subscribe mp 2 2 kept 0 0 @ [Expect 2 replay2, Bye mp 2, Shut 2]))"

lemma retained_message_expiry_conv:
  "ok (retained_message_expiry exe mp pr rc) u = conversation exe 3 False [] (retained_message_expiry_steps mp pr rc)"
  unfolding retained_message_expiry_def retained_message_expiry_steps_def Let_def
  by (simp add: conversation_simps lang_simps no_kwargs_def)

definition retained_repeated_lifecycle_steps :: "mqtt_packets \<Rightarrow> step list" where
  "retained_repeated_lifecycle_steps mp =
     (let topic = ''retain/qos0/repeated'';
          retained = gen_publish mp topic (message0 ''retained message''\<lparr>k_retain := Some True\<rparr>);
          unsub = (\<lambda>mid. [Send 0 (gen_unsubscribe mp mid topic v5), Expect 0 (gen_unsuback mp mid v5)])
      in ([Open] @ Hello mp 0 ''retain-qos0-rep-test'' @ [Send 0 retained] @
        Subscribe mp 0 16 topic 0 0 @ [Expect 0 retained] @ unsub 13 @
        Subscribe mp 0 16 topic 0 0 @ [Expect 0 retained] @ unsub 14 @
        [Send 0 (gen_publish mp topic
           (v5\<lparr>k_qos := Some 0, k_payload := Some None, k_retain := Some True\<rparr>))] @
        Subscribe mp 0 17 topic 0 0 @ Ping mp 0 @ [Bye mp 0, Shut 0]))"

lemma retained_repeated_lifecycle_conv:
  "ok (retained_repeated_lifecycle exe mp) u = conversation exe 1 False [] (retained_repeated_lifecycle_steps mp)"
  by (simp add: retained_repeated_lifecycle_def retained_repeated_lifecycle_steps_def conversation_simps lang_simps no_kwargs_def)

definition retained_multilevel_clear_steps :: "mqtt_packets \<Rightarrow> step list" where
  "retained_multilevel_clear_steps mp =
     (let no_match = v5\<lparr>k_reason_code := Some (Code 0x10)\<rparr>;
          put = (\<lambda>mid topic payload. [
            Send 0 (gen_publish mp topic
              (v5\<lparr>k_qos := Some 1, k_mid := Some mid, k_payload := Some payload, k_retain := Some True\<rparr>)),
            Expect 0 (gen_puback mp mid no_match)]);
          replayed = (\<lambda>mid topics. Subscribe mp 0 mid ''#'' 0 0 @ [
            ExpectPerm 0 (map (\<lambda>topic. gen_publish mp topic
              (message0 ''retained message''\<lparr>k_retain := Some True\<rparr>)) topics),
            Send 0 (gen_unsubscribe mp mid ''#'' v5), Expect 0 (gen_unsuback mp mid v5)])
      in ([Open] @ Hello mp 0 ''retain-clear-test'' @
        put 1 ''1'' (Some ''retained message'') @ put 2 ''1/2/3/4'' (Some ''retained message'') @
        put 3 ''1/2/3/4/5/6/7'' (Some ''retained message'') @
        replayed 10 [''1'', ''1/2/3/4'', ''1/2/3/4/5/6/7''] @
        put 20 ''1/2/3/4'' None @ replayed 40 [''1'', ''1/2/3/4/5/6/7''] @
        put 21 ''1/2/3/4/5/6/7'' None @ replayed 41 [''1''] @
        [Bye mp 0, Shut 0]))"

lemma retained_multilevel_clear_conv:
  "ok (retained_multilevel_clear exe mp) u = conversation exe 1 False [] (retained_multilevel_clear_steps mp)"
  by (simp add: retained_multilevel_clear_def retained_multilevel_clear_steps_def replay_def bind_assoc conversation_simps lang_simps no_kwargs_def)

definition retain_as_published_live_steps :: "mqtt_packets \<Rightarrow> mqtt5_opts \<Rightarrow> step list" where
  "retain_as_published_live_steps mp op =
     (let topic = ''retain/as/published/live'';
          live = (\<lambda>retain. gen_publish mp topic (message0 ''retained-live''\<lparr>k_retain := Some retain\<rparr>))
      in ([Open, Open, Open] @ Hello mp 0 ''rap-clear'' @ Hello mp 1 ''rap-preserve'' @
        Subscribe mp 0 1 topic 0 0 @ Subscribe mp 1 1 topic (MQTT_SUB_OPT_RETAIN_AS_PUBLISHED op) 0 @
        Hello mp 2 ''rap-publisher'' @
        [Send 2 (gen_publish mp topic (message 1 1 ''retained-live''\<lparr>k_retain := Some True\<rparr>)),
         Expect 2 (gen_puback mp 1 v5), Expect 0 (live False), Expect 1 (live True),
         Bye mp 2, Bye mp 0, Bye mp 1, Shut 2, Shut 1, Shut 0]))"

lemma retain_as_published_live_conv:
  "ok (retain_as_published_live exe mp op) u = conversation exe 3 False [] (retain_as_published_live_steps mp op)"
  by (simp add: retain_as_published_live_def retain_as_published_live_steps_def conversation_simps lang_simps no_kwargs_def)

definition retained_replacement_steps :: "mqtt_packets \<Rightarrow> mqtt5_props \<Rightarrow> step list" where
  "retained_replacement_steps mp pr =
     (let topic = ''retained/replacement'';
          version = (\<lambda>v. Some (gen_string_pair_prop pr (USER_PROPERTY pr) ''version'' v));
          put = (\<lambda>mid payload v. [
            Send 0 (gen_publish mp topic
              (message 1 mid payload\<lparr>k_retain := Some True, k_properties := version v\<rparr>)),
            Expect 0 (gen_puback mp mid (v5\<lparr>k_reason_code := Some (Code 0x10)\<rparr>))])
      in ([Open, Open] @ Hello mp 0 ''retained-replace-pub'' @
        put 1 ''old-value'' ''old'' @ put 2 ''new-value'' ''new'' @
        Hello mp 1 ''retained-replace-sub'' @ Subscribe mp 1 1 topic 0 0 @
        [Expect 1 (gen_publish mp topic
           (message0 ''new-value''\<lparr>k_retain := Some True, k_properties := version ''new''\<rparr>))] @
        Ping mp 1 @ [Bye mp 0, Bye mp 1, Shut 1, Shut 0]))"

lemma retained_replacement_conv:
  "ok (retained_replacement exe mp pr) u = conversation exe 2 False [] (retained_replacement_steps mp pr)"
  by (simp add: retained_replacement_def retained_replacement_steps_def conversation_simps lang_simps no_kwargs_def)

definition retained_publish_property_bundle_steps :: "mqtt_packets \<Rightarrow> mqtt5_props \<Rightarrow> step list" where
  "retained_publish_property_bundle_steps mp pr =
     (let topic = ''retained/property/bundle'';
          properties =
            gen_byte_prop pr (PAYLOAD_FORMAT_INDICATOR pr) 1
            @ gen_string_prop pr (CONTENT_TYPE pr) ''plain/text''
            @ gen_string_prop pr (RESPONSE_TOPIC pr) ''response/property/bundle''
            @ gen_string_prop pr (CORRELATION_DATA pr) ''2357289375902345''
            @ gen_string_pair_prop pr (USER_PROPERTY pr) ''name'' ''value''
      in ([Open] @ Hello mp 0 ''retained-property-bundle'' @
        [Send 0 (gen_publish mp topic
           (message 1 1 ''message''\<lparr>k_retain := Some True, k_properties := Some properties\<rparr>)),
         Expect 0 (gen_puback mp 1 (v5\<lparr>k_reason_code := Some (Code 0x10)\<rparr>))] @
        Subscribe mp 0 2 topic 0 0 @
        [Expect 0 (gen_publish mp topic
           (message0 ''message''\<lparr>k_retain := Some True, k_properties := Some properties\<rparr>)),
         Bye mp 0, Shut 0]))"

lemma retained_publish_property_bundle_conv:
  "ok (retained_publish_property_bundle exe mp pr) u = conversation exe 1 False [] (retained_publish_property_bundle_steps mp pr)"
  by (simp add: retained_publish_property_bundle_def retained_publish_property_bundle_steps_def conversation_simps lang_simps no_kwargs_def)

definition retained_tombstone_properties_steps :: "mqtt_packets \<Rightarrow> mqtt5_props \<Rightarrow> step list" where
  "retained_tombstone_properties_steps mp pr =
     (let topic = ''retained/tombstone/properties'';
          state = (\<lambda>v. Some (gen_string_pair_prop pr (USER_PROPERTY pr) ''state'' v));
          stored = (\<lambda>mid payload v. gen_publish mp topic
            (v5\<lparr>k_qos := Some 1, k_mid := Some mid, k_payload := Some payload, k_retain := Some True,
               k_properties := state v\<rparr>));
          unmatched = (\<lambda>mid. gen_puback mp mid (v5\<lparr>k_reason_code := Some (Code 0x10)\<rparr>))
      in ([Open] @ Hello mp 0 ''retained-tombstone'' @
        [Send 0 (stored 1 (Some ''old'') ''old''), Expect 0 (unmatched 1),
         Send 0 (stored 2 None ''deleted''), Expect 0 (unmatched 2)] @
        Subscribe mp 0 3 topic 0 0 @ Ping mp 0 @
        [Send 0 (stored 4 (Some ''new'') ''new''),
         ExpectPerm 0 [gen_puback mp 4 v5,
           gen_publish mp topic (message0 ''new''\<lparr>k_retain := Some False, k_properties := state ''new''\<rparr>)],
         Bye mp 0, Shut 0]))"

lemma retained_tombstone_properties_conv:
  "ok (retained_tombstone_properties exe mp pr) u = conversation exe 1 False [] (retained_tombstone_properties_steps mp pr)"
  by (simp add: retained_tombstone_properties_def retained_tombstone_properties_steps_def conversation_simps lang_simps no_kwargs_def)

lemmas retained_steps = retained_message_expiry_steps_def retained_repeated_lifecycle_steps_def retained_multilevel_clear_steps_def retain_as_published_live_steps_def retained_replacement_steps_def retained_publish_property_bundle_steps_def retained_tombstone_properties_steps_def

end
