(* ===== verification/Harness.thy ===== *)
theory Harness
  imports Scenarios_Basic Scenarios_Session Scenarios_Limits Scenarios_QoS Scenarios_Forwarding
    Scenarios_Retained
begin

text \<open>
  The function \<^verbatim>\<open>main\<close>: the thirty-six scenario functions in their order, then the line that
  reports success. The broker path and the four imported modules are its arguments.
\<close>

section \<open>The code\<close>

definition scenarios ::
  "string \<Rightarrow> mqtt_packets \<Rightarrow> mqtt5_props \<Rightarrow> mqtt5_rc \<Rightarrow> mqtt5_opts \<Rightarrow> unit prog list" where
  "scenarios broker mqtt_packets mqtt5_props mqtt5_rc mqtt5_opts = [
     no_matching_subscribers broker mqtt_packets mqtt5_rc,
     subscription_identifiers broker mqtt_packets mqtt5_props,
     multiple_subscription_identifiers broker mqtt_packets mqtt5_props mqtt5_opts,
     hostile_initial_packets broker mqtt_packets,
     publish_capability_disconnects broker mqtt_packets mqtt5_props mqtt5_rc,
     maximum_packet_size_disconnect broker mqtt_packets mqtt5_props mqtt5_rc,
     topic_alias_disconnect broker mqtt_packets mqtt5_props mqtt5_rc,
     receive_maximum_disconnect broker mqtt_packets mqtt5_rc,
     subscription_capability_disconnects broker mqtt_packets mqtt5_props mqtt5_rc,
     qos2_routes_at_pubrel broker mqtt_packets,
     mixed_version_qos1 broker mqtt_packets,
     persistent_no_local broker mqtt_packets,
     retained_subscription_handling broker mqtt_packets mqtt5_opts,
     incoming_topic_alias broker mqtt_packets mqtt5_props,
     outgoing_topic_alias broker mqtt_packets mqtt5_props,
     request_response_properties broker mqtt_packets mqtt5_props,
     disconnect_with_will_properties broker mqtt_packets mqtt5_props,
     retained_message_expiry broker mqtt_packets mqtt5_props mqtt5_rc,
     qos2_receive_maximum_one broker mqtt_packets mqtt5_props,
     maximum_packet_size_qos1 broker mqtt_packets mqtt5_props,
     maximum_packet_size_qos2 broker mqtt_packets mqtt5_props,
     retained_repeated_lifecycle broker mqtt_packets,
     retained_multilevel_clear broker mqtt_packets,
     shared_subscription_rotation broker mqtt_packets,
     qos2_duplicate_publish broker mqtt_packets,
     qos2_repeated_pubrel broker mqtt_packets,
     reject_publish_subscription_identifier broker mqtt_packets mqtt5_props,
     unsubscribe_reason_codes broker mqtt_packets,
     retain_as_published_live broker mqtt_packets mqtt5_opts,
     retained_replacement broker mqtt_packets mqtt5_props,
     retained_publish_property_bundle broker mqtt_packets mqtt5_props,
     retained_tombstone_properties broker mqtt_packets mqtt5_props,
     assigned_client_identifier broker mqtt_packets mqtt5_props,
     server_keep_alive broker mqtt_packets mqtt5_props,
     duplicate_client_takeover broker mqtt_packets mqtt5_props mqtt5_rc,
     disconnect_session_expiry broker mqtt_packets mqtt5_props]"

definition passed_line :: string where
  "passed_line = ''Mosquitto-derived MQTT wire vectors passed: 39 scenarios''"

definition main ::
  "string \<Rightarrow> mqtt_packets \<Rightarrow> mqtt5_props \<Rightarrow> mqtt5_rc \<Rightarrow> mqtt5_opts \<Rightarrow> unit prog" where
  "main broker mqtt_packets mqtt5_props mqtt5_rc mqtt5_opts =
     seq (scenarios broker mqtt_packets mqtt5_props mqtt5_rc mqtt5_opts @ [unit_call (Print passed_line)])"

section \<open>Every scenario keeps to its connection budget\<close>

text \<open>The number of broker processes each scenario function starts, in the order of \<open>scenarios\<close>.\<close>

definition processes :: "nat list" where
  "processes = [1, 1, 1, 1, 2, 1, 1, 1, 3] @ replicate 27 1"

lemmas step_lists = Hello_def Subscribe_def Bye_def Release_def Complete_def Ping_def

lemma served_basic:
  "served exe 1 (ok (no_matching_subscribers exe mp rc) ())"
  "served exe 1 (ok (subscription_identifiers exe mp pr) ())"
  "served exe 1 (ok (multiple_subscription_identifiers exe mp pr op) ())"
  "served exe 1 (ok (hostile_initial_packets exe mp) ())"
  unfolding no_matching_subscribers_conv subscription_identifiers_conv
    multiple_subscription_identifiers_conv hostile_initial_packets_conv basic_steps Let_def
  by (rule served_conversation; simp add: well_formed_def step_lists upt_rec)+

lemma served_limits:
  "served exe 2 (ok (publish_capability_disconnects exe mp pr rc) ())"
  "served exe 1 (ok (maximum_packet_size_disconnect exe mp pr rc) ())"
  "served exe 1 (ok (topic_alias_disconnect exe mp pr rc) ())"
  "served exe 1 (ok (receive_maximum_disconnect exe mp rc) ())"
  "served exe 3 (ok (subscription_capability_disconnects exe mp pr rc) ())"
proof -
  have sums: "(2 :: nat) = 1 + 1" "(3 :: nat) = 1 + (1 + 1)" by simp_all
  have 1: "served exe 1 (conversation exe 1 ig a [Open, Send 0 x, Expect 0 y, Send 0 z, Expect 0 w, Shut 0])"
    for ig a x y z w by (rule served_conversation) (simp add: well_formed_def)
  show "served exe 2 (ok (publish_capability_disconnects exe mp pr rc) ())"
    unfolding publish_capability_disconnects_conv Let_def sums(1)
    by (intro served_cat 1)
  show "served exe 3 (ok (subscription_capability_disconnects exe mp pr rc) ())"
    unfolding subscription_capability_disconnects_conv Let_def sums(2)
    by (intro served_cat 1)
  show "served exe 1 (ok (maximum_packet_size_disconnect exe mp pr rc) ())"
    "served exe 1 (ok (topic_alias_disconnect exe mp pr rc) ())"
    "served exe 1 (ok (receive_maximum_disconnect exe mp rc) ())"
    unfolding maximum_packet_size_disconnect_conv topic_alias_disconnect_conv
      receive_maximum_disconnect_conv limits_steps Let_def
    by (rule served_conversation; simp add: well_formed_def step_lists)+
qed

lemma served_qos:
  "served exe 1 (ok (qos2_routes_at_pubrel exe mp) ())"
  "served exe 1 (ok (mixed_version_qos1 exe mp) ())"
  "served exe 1 (ok (persistent_no_local exe mp) ())"
  "served exe 1 (ok (qos2_receive_maximum_one exe mp pr) ())"
  "served exe 1 (ok (maximum_packet_size_qos1 exe mp pr) ())"
  "served exe 1 (ok (maximum_packet_size_qos2 exe mp pr) ())"
  "served exe 1 (ok (qos2_duplicate_publish exe mp) ())"
  "served exe 1 (ok (qos2_repeated_pubrel exe mp) ())"
  unfolding qos2_routes_at_pubrel_conv mixed_version_qos1_conv persistent_no_local_conv
    qos2_receive_maximum_one_conv maximum_packet_size_qos1_conv maximum_packet_size_qos2_conv
    qos2_duplicate_publish_conv qos2_repeated_pubrel_conv qos_steps Let_def
  by (rule served_conversation; simp add: well_formed_def step_lists)+

lemma served_forwarding:
  "served exe 1 (ok (retained_subscription_handling exe mp op) ())"
  "served exe 1 (ok (incoming_topic_alias exe mp pr) ())"
  "served exe 1 (ok (outgoing_topic_alias exe mp pr) ())"
  "served exe 1 (ok (request_response_properties exe mp pr) ())"
  "served exe 1 (ok (disconnect_with_will_properties exe mp pr) ())"
  "served exe 1 (ok (shared_subscription_rotation exe mp) ())"
  "served exe 1 (ok (reject_publish_subscription_identifier exe mp pr) ())"
  "served exe 1 (ok (unsubscribe_reason_codes exe mp) ())"
  unfolding retained_subscription_handling_conv incoming_topic_alias_conv outgoing_topic_alias_conv
    request_response_properties_conv disconnect_with_will_properties_conv
    shared_subscription_rotation_conv reject_publish_subscription_identifier_conv
    unsubscribe_reason_codes_conv forwarding_steps Let_def
  by (rule served_conversation; simp add: well_formed_def step_lists upt_rec numeral_eq_Suc)+

lemma served_retained:
  "served exe 1 (ok (retained_message_expiry exe mp pr rc) ())"
  "served exe 1 (ok (retained_repeated_lifecycle exe mp) ())"
  "served exe 1 (ok (retained_multilevel_clear exe mp) ())"
  "served exe 1 (ok (retain_as_published_live exe mp op) ())"
  "served exe 1 (ok (retained_replacement exe mp pr) ())"
  "served exe 1 (ok (retained_publish_property_bundle exe mp pr) ())"
  "served exe 1 (ok (retained_tombstone_properties exe mp pr) ())"
  unfolding retained_message_expiry_conv retained_repeated_lifecycle_conv
    retained_multilevel_clear_conv retain_as_published_live_conv retained_replacement_conv
    retained_publish_property_bundle_conv retained_tombstone_properties_conv retained_steps Let_def
  by (rule served_conversation; simp add: well_formed_def step_lists)+

lemma served_session:
  "served exe 1 (ok (assigned_client_identifier exe mp pr) ())"
  "served exe 1 (ok (server_keep_alive exe mp pr) ())"
  "served exe 1 (ok (duplicate_client_takeover exe mp pr rc) ())"
  "served exe 1 (ok (disconnect_session_expiry exe mp pr) ())"
  unfolding assigned_client_identifier_conv server_keep_alive_conv duplicate_client_takeover_conv
    disconnect_session_expiry_conv session_steps Let_def
  by ((intro served_some served_onlyif)?, rule served_conversation; simp add: well_formed_def step_lists)+

lemmas served_all = served_basic served_limits served_qos served_forwarding served_retained served_session


lemma served_seq:
  "list_all2 (\<lambda>m n. served exe n (ok m ())) ms ns \<Longrightarrow> served exe (sum_list ns) (ok (seq ms) ())"
  by (induction rule: list_all2_induct) (simp_all add: ok_seq served_eps served_cat)

lemma served_each:
  "list_all2 (\<lambda>m n. served exe n (ok m ())) (scenarios exe mp pr rc op) processes"
  unfolding scenarios_def processes_def by (simp add: numeral_eq_Suc)
    (simp add: served_all [unfolded One_nat_def numeral_2_eq_2 numeral_3_eq_3])

lemma served_scenarios: "served exe 39 (ok (seq (scenarios exe mp pr rc op)) ())"
  using served_seq [OF served_each] by (simp add: processes_def sum_list_replicate)

section \<open>The run as a whole\<close>

lemma seq_errD:
  "exec (seq ms) t (Inl e) \<Longrightarrow> \<exists>k u v. k < length ms \<and> t = u @ v \<and>
     exec (seq (take k ms)) u (Inr ()) \<and> exec (ms ! k) v (Inl e)"
proof (induction ms arbitrary: t)
  case (Cons m ms)
  then consider (here) "exec m t (Inl e)"
    | (later) x y where "t = x @ y" "exec m x (Inr ())" "exec (seq ms) y (Inl e)"
    by (auto simp: seq.simps exec_bind_iff)
  then show ?case
  proof cases
    case here
    then show ?thesis by (intro exI [of _ 0] exI [of _ "[]"] exI [of _ t]) (simp add: seq.simps)
  next
    case later
    from Cons.IH [OF later(3)] obtain k u v where "k < length ms" "y = u @ v"
      "exec (seq (take k ms)) u (Inr ())" "exec (ms ! k) v (Inl e)" by blast
    with later show ?thesis
      by (intro exI [of _ "Suc k"] exI [of _ "x @ u"] exI [of _ v]) (simp add: seq.simps exec_bindI)
  qed
qed (simp add: seq.simps)

lemma seq_errI:
  "k < length ms \<Longrightarrow> exec (seq (take k ms)) u (Inr ()) \<Longrightarrow> exec (ms ! k) v (Inl e) \<Longrightarrow>
     exec (seq ms) (u @ v) (Inl e)"
proof (induction ms arbitrary: k u)
  case (Cons m ms)
  show ?case
  proof (cases k)
    case 0
    with Cons.prems show ?thesis by (simp add: seq.simps exec_bind_errI)
  next
    case (Suc j)
    with Cons.prems obtain x y where "u = x @ y" "exec m x (Inr ())" "exec (seq (take j ms)) y (Inr ())"
      by (auto simp: seq.simps exec_bind_iff)
    with Suc Cons.prems Cons.IH [of j y] show ?thesis by (simp add: seq.simps exec_bindI)
  qed
qed simp

lemma exec_seq_err:
  "exec (seq ms) t (Inl e) \<longleftrightarrow> (\<exists>k u v. k < length ms \<and> t = u @ v \<and>
     exec (seq (take k ms)) u (Inr ()) \<and> exec (ms ! k) v (Inl e))"
  using seq_errD seq_errI by blast

lemma exec_seq_append:
  "exec (seq (ms @ [m])) t r \<longleftrightarrow> (\<exists>u v. t = u @ v \<and> exec (seq ms) u (Inr ()) \<and> exec m v r) \<or>
     (\<exists>e. r = Inl e \<and> exec (seq ms) t (Inl e))" for m :: "unit prog"
proof -
  have "seq (ms @ [m]) = bind (seq ms) (\<lambda>_. m)"
  proof (induction ms)
    case Nil
    have "bind m (\<lambda>_. Ret ()) = m" by (induction m) auto
    then show ?case by (simp add: seq.simps)
  qed (simp add: seq.simps bind_assoc)
  then show ?thesis by (simp add: exec_bind_iff)
qed

lemma exec_print: "exec (unit_call (Print l)) t r \<longleftrightarrow> t = [Printed l] \<and> r = Inr ()"
  by (auto simp: call_defs)

fun is_printed :: "obs \<Rightarrow> bool" where
  "is_printed (Printed l) = True"
| "is_printed _ = False"

lemma length_scenarios: "length (scenarios exe mp pr rc op) = 36"
  by (simp add: scenarios_def)

lemma exec_main_ok:
  "exec (main exe mp pr rc op) t (Inr u) \<longleftrightarrow>
     (\<exists>v. t = v @ [Printed passed_line] \<and> exec (seq (scenarios exe mp pr rc op)) v (Inr ()))"
  unfolding main_def exec_seq_append exec_print by auto

lemma exec_main_err:
  "exec (main exe mp pr rc op) t (Inl e) \<longleftrightarrow> exec (seq (scenarios exe mp pr rc op)) t (Inl e)"
  unfolding main_def exec_seq_append exec_print by auto

lemma main_sessions:
  assumes "exec (main exe mp pr rc op) t (Inr u)"
  shows "\<exists>cs v. t = v @ [Printed passed_line] \<and> length cs = 39 \<and>
     list_all (\<lambda>(conns, ignore, args, sts). well_formed conns sts) cs \<and> sessions exe cs v"
proof -
  from assms obtain v where v: "t = v @ [Printed passed_line]" "ok (seq (scenarios exe mp pr rc op)) () v"
    by (auto simp: exec_main_ok ok_def)
  with served_scenarios [of exe mp pr rc op] show ?thesis unfolding served_def list_all_iff by blast
qed

end
