(* ===== verification/Policy.thy ===== *)
theory Policy
  imports Clients
begin

text \<open>
  Which operating-system calls a piece of the harness can make at all, whatever is answered.
  \<open>confined Q m\<close> says that every call in the tree of \<open>m\<close> satisfies \<open>Q\<close>; the policy
  \<open>harness_policy\<close> describes the calls the scenarios are meant to make. The last section is about the
  processes that a scenario starts: a passing run has waited for all of them, a failing one for all but one.
\<close>

section \<open>Confinement\<close>

primrec confined :: "(op \<Rightarrow> bool) \<Rightarrow> 'a prog \<Rightarrow> bool" where
  "confined Q (Ret x) = True"
| "confined Q (Raise e) = True"
| "confined Q (Call p k) = (Q p \<and> (\<forall>a. confined Q (k a)))"

text \<open>Sockets on the loopback interface only and with a 5 s connection timeout; the receive timeout is
  5 s or the 50 ms of a silence window; \<^verbatim>\<open>recv\<close> never asks for zero bytes (its empty answer would
  read as an end of stream); only the broker under test is started, without restored state; a process is
  waited for 5 s at most; nothing is printed.\<close>

definition harness_policy :: "string \<Rightarrow> op \<Rightarrow> bool" where
  "harness_policy exe p = (case p of
     NewSocket \<Rightarrow> True
   | Bind s host prt \<Rightarrow> host = ''127.0.0.1'' \<and> prt = 0
   | GetSockPort s \<Rightarrow> True
   | CreateConnection host prt ms \<Rightarrow> host = ''127.0.0.1'' \<and> ms = 5000
   | SetTimeout s ms \<Rightarrow> ms \<in> {50, 5000}
   | SendAll s bs \<Rightarrow> True
   | Recv s n \<Rightarrow> 0 < n
   | Close s \<Rightarrow> True
   | Popen cmd \<Rightarrow> cmd \<noteq> [] \<and> hd cmd = exe \<and> ''--no-restore'' \<in> set cmd
   | ReadLine p \<Rightarrow> True
   | ReadOutput p \<Rightarrow> True
   | Wait p ms \<Rightarrow> ms = 5000
   | Terminate p \<Rightarrow> True
   | Sleep ms \<Rightarrow> ms \<le> 4000
   | Print l \<Rightarrow> False)"

text \<open>The part of it that the body of a scenario needs, once the broker runs: connections and pauses.\<close>

definition client_policy :: "op \<Rightarrow> bool" where
  "client_policy p = (case p of
     CreateConnection host prt ms \<Rightarrow> host = ''127.0.0.1'' \<and> ms = 5000
   | SetTimeout s ms \<Rightarrow> ms \<in> {50, 5000}
   | SendAll s bs \<Rightarrow> True
   | Recv s n \<Rightarrow> 0 < n
   | Close s \<Rightarrow> True
   | Sleep ms \<Rightarrow> ms \<le> 4000
   | _ \<Rightarrow> False)"

lemma client_policy_harness: "client_policy p \<Longrightarrow> harness_policy exe p"
  by (cases p) (auto simp: client_policy_def harness_policy_def)

lemma confined_Ret [confined_intros]: "confined Q (Ret x)"
  by simp

lemma confined_Raise [confined_intros]: "confined Q (Raise e)"
  by simp

lemma confined_bind [confined_intros]:
  "confined Q m \<Longrightarrow> (\<And>x. confined Q (f x)) \<Longrightarrow> confined Q (bind m f)"
  by (induction m) auto

lemma confined_attempt [confined_intros]: "confined Q m \<Longrightarrow> confined Q (attempt m)"
  by (induction m) auto

lemma confined_reraise [confined_intros]: "confined Q (reraise r)"
  by (cases r) auto

lemma confined_if [confined_intros]:
  "(c \<Longrightarrow> confined Q m) \<Longrightarrow> (\<not> c \<Longrightarrow> confined Q n) \<Longrightarrow> confined Q (if c then m else n)"
  by simp

lemma confined_skip [confined_intros]: "confined Q skip"
  by (simp add: skip_def)

lemma confined_whenever [confined_intros]: "confined Q m \<Longrightarrow> confined Q (whenever c m)"
  by (simp add: whenever_def confined_skip)

lemma confined_seq [confined_intros]:
  "confined Q (seq [])" "confined Q m \<Longrightarrow> confined Q (seq ms) \<Longrightarrow> confined Q (seq (m # ms))"
  by (auto simp: seq.simps intro: confined_intros)

lemma confined_for_each [confined_intros]:
  "(\<And>x. confined Q (f x)) \<Longrightarrow> confined Q (for_each xs f)"
  unfolding for_each_def by (induction xs) (auto intro: confined_intros)

lemma confined_collect [confined_intros]: "(\<And>x. confined Q (f x)) \<Longrightarrow> confined Q (collect xs f)"
  by (induction xs) (auto simp: collect.simps intro: confined_intros)

lemma confined_fold_each [confined_intros]:
  "(\<And>x st. confined Q (f x st)) \<Longrightarrow> confined Q (fold_each xs f st)"
  by (induction xs arbitrary: st) (auto intro: confined_intros)

lemma confined_try_finally [confined_intros]:
  "confined Q m \<Longrightarrow> confined Q f \<Longrightarrow> confined Q (try_finally m f)"
  unfolding try_finally_def by (intro confined_intros)

lemma confined_try_except [confined_intros]:
  "confined Q m \<Longrightarrow> (\<And>e. confined Q (h e)) \<Longrightarrow> confined Q (try_except m p h)"
  unfolding try_except_def by (intro confined_intros) (auto split: sum.splits intro: confined_intros)

lemma confined_with_mgr:
  "confined Q enter \<Longrightarrow> (\<And>c x. confined Q (exit c x)) \<Longrightarrow> (\<And>c. confined Q (body c)) \<Longrightarrow>
     confined Q (with_mgr enter exit body)"
  unfolding with_mgr_def by (intro confined_intros)

lemma confined_item [confined_intros]: "confined Q (item xs i)"
  by (simp add: item_def)

lemma confined_list_remove [confined_intros]: "confined Q (list_remove x xs)"
  by (simp add: list_remove_def)

lemma confined_calls:
  "Q p \<Longrightarrow> confined Q (unit_call p)" "Q p \<Longrightarrow> confined Q (sock_call p)" "Q p \<Longrightarrow> confined Q (port_call p)"
  "Q p \<Longrightarrow> confined Q (proc_call p)" "Q p \<Longrightarrow> confined Q (text_call p)" "Q p \<Longrightarrow> confined Q (code_call p)"
  "Q p \<Longrightarrow> confined Q (bytes_call p)"
  by (auto simp: unit_call_def sock_call_def port_call_def proc_call_def text_call_def code_call_def
      bytes_call_def split: answer.splits)

text \<open>What confinement says of a run: every transcript entry stems from a call the policy allows.\<close>

lemma confined_exec:
  "exec m t r \<Longrightarrow> confined Q m \<Longrightarrow> \<forall>x \<in> set t. \<exists>p a. Q p \<and> answers p a \<and> x \<in> set (observe p a)"
  by (induction rule: exec.induct) auto

lemma confined_mono: "confined P m \<Longrightarrow> (\<And>p. P p \<Longrightarrow> Q p) \<Longrightarrow> confined Q m"
  by (induction m) auto

lemma confined_no_print:
  assumes "confined (harness_policy exe) m" "exec m t r"
  shows "Printed l \<notin> set t"
proof
  assume "Printed l \<in> set t"
  with confined_exec [OF assms(2,1)] obtain p a where "harness_policy exe p" "Printed l \<in> set (observe p a)"
    by blast
  then show False
    by (cases p; cases a) (auto simp: harness_policy_def log_call_def split: if_splits)
qed

section \<open>The helpers obey the policy\<close>

lemma confined_leaves [confined_intros]:
  "confined client_policy (sendall s bs)"
  "confined client_policy (close s)"
  by (auto simp: sendall_def close_def client_policy_def intro!: confined_calls)

lemma confined_recv: "0 < n \<Longrightarrow> confined client_policy (recv s n)"
  unfolding recv_def by (rule confined_calls) (simp add: client_policy_def)

lemma confined_settimeout: "ms \<in> {50, 5000} \<Longrightarrow> confined client_policy (settimeout s ms)"
  unfolding settimeout_def by (rule confined_calls) (auto simp: client_policy_def)

lemma confined_sleep: "ms \<le> 4000 \<Longrightarrow> confined client_policy (sleep ms)"
  unfolding sleep_def by (rule confined_calls) (simp add: client_policy_def)

lemma confined_recv_exact [confined_intros]: "confined client_policy (recv_exact s n)"
proof -
  have "confined client_policy (recv_loop s wanted res)" for wanted res
    by (induction s wanted res rule: recv_loop.induct)
       (subst recv_loop.simps, auto intro!: confined_intros confined_recv)
  then show ?thesis by (simp add: recv_exact_def)
qed

lemma confined_read_remaining [confined_intros]: "confined client_policy (read_remaining s k rb rem)"
  by (induction s k rb rem rule: read_remaining.induct)
     (subst read_remaining.simps, auto intro!: confined_intros simp: Let_def)

lemma confined_read_packet [confined_intros]: "confined client_policy (read_packet s)"
  unfolding read_packet_def by (auto intro!: confined_intros)

lemma confined_expect_packet [confined_intros]: "confined client_policy (expect_packet s e l)"
  unfolding expect_packet_def by (intro confined_intros)

lemma confined_expect_unordered [confined_intros]:
  "confined client_policy (expect_packets_unordered s es l)"
  unfolding expect_packets_unordered_def by (intro confined_intros)

lemma confined_broker_connect [confined_intros]: "confined client_policy (broker_connect b)"
  unfolding broker_connect_def
  by (intro confined_intros confined_calls confined_settimeout) (auto simp: client_policy_def)

lemma confined_with_connection [confined_intros]:
  "(\<And>s. confined client_policy (body s)) \<Longrightarrow> confined client_policy (with_connection b body)"
  unfolding with_connection_def by (intro confined_with_mgr confined_intros)

lemma confined_any_of: "(\<And>c. c \<in> set cs \<Longrightarrow> confined Q c) \<Longrightarrow> confined Q (any_of cs)"
  by (induction cs) (auto simp: any_of.simps intro!: confined_intros)

lemma confined_byte_checks [confined_intros]: "confined Q (byte_ne p i v)" "confined Q (byte_ge p i v)"
  unfolding byte_ne_def byte_ge_def by (intro confined_intros)+

lemma confined_raise_if: "(\<And>c. c \<in> set cs \<Longrightarrow> confined Q c) \<Longrightarrow> confined Q (raise_if cs msg)"
  unfolding raise_if_def by (intro confined_intros confined_any_of)

lemma confined_connect_client [confined_intros]: "confined client_policy (connect_client s mp cid ver)"
  unfolding connect_client_def Let_def
  by (intro confined_intros confined_raise_if) (auto intro: confined_intros)

lemma confined_connect_v5 [confined_intros]: "confined client_policy (connect_v5 s mp cid)"
  unfolding connect_v5_def by (rule confined_connect_client)

lemma confined_connect_persistent_v5 [confined_intros]:
  "confined client_policy (connect_persistent_v5 s mp cid present)"
  unfolding connect_persistent_v5_def
  by (intro confined_intros confined_raise_if) (auto intro: confined_intros)

lemma confined_connect_with [confined_intros]: "confined client_policy (connect_with s packet msg)"
  unfolding connect_with_def
  by (intro confined_intros confined_raise_if) (auto intro: confined_intros)

lemma confined_expect_quiet [confined_intros]: "confined client_policy (expect_quiet s msg)"
  unfolding expect_quiet_def
  by (intro confined_intros confined_settimeout confined_recv) simp_all

lemma confined_expect_dropped [confined_intros]: "confined client_policy (expect_dropped s msg)"
  unfolding expect_dropped_def by (intro confined_intros confined_recv) simp_all

section \<open>Scenarios\<close>

lemma confined_free_port: "confined (harness_policy exe) free_port"
  unfolding free_port_def close_def
  by (intro confined_with_mgr confined_intros confined_calls) (auto simp: harness_policy_def)

lemma confined_broker_exit: "confined (harness_policy exe) (broker_exit b x)"
  unfolding broker_exit_def
  by (auto split: option.splits intro!: confined_intros confined_calls simp: harness_policy_def)

lemma confined_broker_enter:
  "executable b = exe \<Longrightarrow> confined (harness_policy exe) (broker_enter b)"
  unfolding broker_enter_def
  by (intro confined_intros confined_calls) (auto simp: harness_policy_def command_def)

lemma confined_with_broker:
  "(\<And>b. confined (harness_policy exe) (body b)) \<Longrightarrow>
     confined (harness_policy exe) (with_broker exe conns ignore args body)"
  unfolding with_broker_def NetzBroker_def bind_assoc bind.simps
  by (intro confined_with_mgr confined_bind confined_free_port confined_broker_exit confined_broker_enter) simp_all

text \<open>The shape of a scenario: one \<^verbatim>\<open>with NetzBroker(...)\<close> statement, or a loop over such statements,
  whose body only talks to the broker.\<close>

inductive brokered :: "string \<Rightarrow> unit prog \<Rightarrow> bool" for exe where
  brokered_with_broker: "(\<And>b. confined client_policy (body b)) \<Longrightarrow> brokered exe (with_broker exe conns ignore args body)"
| brokered_seq_Nil: "brokered exe (seq [])"
| brokered_seq_Cons: "brokered exe m \<Longrightarrow> brokered exe (seq ms) \<Longrightarrow> brokered exe (seq (m # ms))"

lemma brokered_for_each: "(\<And>x. brokered exe (f x)) \<Longrightarrow> brokered exe (for_each xs f)"
  unfolding for_each_def by (induction xs) (auto intro: brokered.intros)

lemma brokered_confined: "brokered exe m \<Longrightarrow> confined (harness_policy exe) m"
proof (induction rule: brokered.induct)
  case (brokered_with_broker body conns ignore args)
  then show ?case by (intro confined_with_broker confined_mono [OF _ client_policy_harness])
qed (auto intro: confined_intros)

section \<open>Processes\<close>

text \<open>What a run may leave behind when it ends with the exception \<open>e\<close>: nothing, or one process, either
  because that process did not report that it listens, or because it outlived \<^verbatim>\<open>terminate\<close>.\<close>

definition at_most_one_left :: "exn \<Rightarrow> obs list \<Rightarrow> bool" where
  "at_most_one_left e t \<longleftrightarrow> procs_started t = procs_reaped t \<or>
     (\<exists>p. procs_started t = add_mset p (procs_reaped t) \<and>
        (e = TimeoutExpired \<and> Terminated p \<in> set t \<or>
         (\<exists>line. \<not> contains ''listening'' line \<and> Line p line \<in> set t \<and>
            e = RuntimeError (''netz broker failed to start: '' @ strip line))))"

definition tidy :: "'a prog \<Rightarrow> bool" where
  "tidy m \<longleftrightarrow> (\<forall>t r. exec m t r \<longrightarrow>
     (case r of Inl e \<Rightarrow> at_most_one_left e t | Inr _ \<Rightarrow> procs_started t = procs_reaped t))"

lemma procs_bytes [simp]:
  "procs_started (map (Tx s) bs) = {#}" "procs_reaped (map (Tx s) bs) = {#}"
  "procs_started (map (Rx s) bs) = {#}" "procs_reaped (map (Rx s) bs) = {#}"
  by (induction bs) auto

lemma client_policy_procs:
  "exec m t r \<Longrightarrow> confined client_policy m \<Longrightarrow> procs_started t = {#} \<and> procs_reaped t = {#}"
proof (induction rule: exec.induct)
  case (exec_call p a k t r)
  then have "procs_started (observe p a) = {#} \<and> procs_reaped (observe p a) = {#}"
    by (cases p; cases a) (auto simp: client_policy_def log_call_def)
  with exec_call show ?case by simp
qed auto

lemma at_most_one_left_append:
  "procs_started u = procs_reaped u \<Longrightarrow> at_most_one_left e v \<Longrightarrow> at_most_one_left e (u @ v)"
  by (auto simp: at_most_one_left_def)

lemma tidy_seq_Cons:
  assumes "tidy m" "tidy (seq ms)"
  shows "tidy (seq (m # ms))"
proof -
  have "case r of Inl e \<Rightarrow> at_most_one_left e t | Inr _ \<Rightarrow> procs_started t = procs_reaped t"
    if "exec (seq (m # ms)) t r" for t r
  proof -
    from that consider (err) e where "r = Inl e" "exec m t (Inl e)"
      | (go) u v where "t = u @ v" "exec m u (Inr ())" "exec (seq ms) v r"
      by (auto simp: seq.simps exec_bind_iff)
    then show ?thesis
    proof cases
      case err
      with assms(1) show ?thesis by (fastforce simp: tidy_def)
    next
      case go
      with assms have "procs_started u = procs_reaped u"
        "case r of Inl e \<Rightarrow> at_most_one_left e v | Inr _ \<Rightarrow> procs_started v = procs_reaped v"
        by (fastforce simp: tidy_def)+
      with go(1) show ?thesis by (auto intro: at_most_one_left_append split: sum.splits)
    qed
  qed
  then show ?thesis unfolding tidy_def by blast
qed

lemma tidy_with_broker:
  assumes "\<And>b. confined client_policy (body b)"
  shows "tidy (with_broker exe conns ignore args body)"
proof -
  have "case r of Inl e \<Rightarrow> at_most_one_left e t | Inr _ \<Rightarrow> procs_started t = procs_reaped t"
    if "exec (with_broker exe conns ignore args body) t r" for t r
  proof -
    from that consider (start) e where "r = Inl e" "exec (bind (NetzBroker exe conns ignore args) broker_enter) t (Inl e)"
      | (body) prt p u v w r' where "t = u @ v @ w" "broker_up exe conns ignore args prt p u"
          "exec (body (started exe conns ignore args prt p)) v r'"
          "case r' of Inl e \<Rightarrow> after_error p e w r | Inr x \<Rightarrow> after_success p x w r"
      unfolding exec_with_broker by blast
    then show ?thesis
    proof cases
      case start
      then show ?thesis by (auto simp: exec_start_err at_most_one_left_def probed_def)
    next
      case body
      from body(2) have u: "procs_started u = {#p#}" "procs_reaped u = {#}" by (auto simp: broker_up_def)
      from client_policy_procs [OF body(3) assms] have v: "procs_started v = {#}" "procs_reaped v = {#}" by auto
      from body(4) u v show ?thesis unfolding body(1)
        by (auto simp: after_error_def after_success_def at_most_one_left_def split: sum.splits)
    qed
  qed
  then show ?thesis unfolding tidy_def by blast
qed

lemma brokered_tidy: "brokered exe m \<Longrightarrow> tidy m"
proof (induction rule: brokered.induct)
  case brokered_seq_Nil
  then show ?case by (auto simp: tidy_def seq.simps)
qed (auto intro: tidy_with_broker tidy_seq_Cons)

end
