(* ===== verification/Leaks.thy ===== *)
theory Leaks
  imports Broker_Process
begin

text \<open>
  Two ways in which a run ends without releasing what it acquired: a broker that starts and does not report
  that it listens, and a list of connections that is built before the \<^verbatim>\<open>try\<close> that closes it. Both
  lemmas say exactly how a run goes on from that point.
\<close>

section \<open>Connections opened in a row\<close>

definition connected :: "nat \<Rightarrow> sock list \<Rightarrow> obs list" where
  "connected prt ss = concat (map (\<lambda>s. [Connected s prt, TimeoutSet s 5000]) ss)"

lemma connected_simps [simp]:
  "connected prt [] = []" "connected prt (s # ss) = Connected s prt # TimeoutSet s 5000 # connected prt ss"
  by (simp_all add: connected_def)

lemma socks_connected [simp]: "socks_opened (connected prt ss) = mset ss" "socks_closed (connected prt ss) = {#}"
  by (induction ss) auto

lemma exec_broker_connect:
  "exec (broker_connect b) t r \<longleftrightarrow> (\<exists>s. t = connected (port b) [s] \<and> r = Inr s) \<or>
     (\<exists>e. is_os_error e \<and> t = [Failed (CreateConnection ''127.0.0.1'' (port b) 5000) e] \<and> r = Inl e)"
  by (auto simp: broker_connect_def exec_bind_iff exec_settimeout call_defs)

lemma exec_connect_all:
  "exec (collect xs (\<lambda>_. broker_connect b)) t r \<longleftrightarrow>
     (\<exists>ss. length ss = length xs \<and> t = connected (port b) ss \<and> r = Inr ss) \<or>
     (\<exists>ss e. length ss < length xs \<and> is_os_error e \<and> r = Inl e \<and>
        t = connected (port b) ss @ [Failed (CreateConnection ''127.0.0.1'' (port b) 5000) e])"
proof (induction xs arbitrary: t r)
  case (Cons x xs)
  let ?fail = "\<lambda>e. [Failed (CreateConnection ''127.0.0.1'' (port b) 5000) e]"
  let ?rest = "collect xs (\<lambda>_. broker_connect b)"
  have "exec (collect (x # xs) (\<lambda>_. broker_connect b)) t r \<longleftrightarrow>
      (\<exists>e. is_os_error e \<and> t = ?fail e \<and> r = Inl e) \<or>
      (\<exists>s v. t = connected (port b) [s] @ v \<and> exec (bind ?rest (\<lambda>ys. Ret (s # ys))) v r)"
    unfolding collect.simps exec_bind_iff [of "broker_connect b"] exec_broker_connect by auto
  also have "\<dots> \<longleftrightarrow> (\<exists>e. is_os_error e \<and> t = ?fail e \<and> r = Inl e) \<or>
      (\<exists>s v ss. t = connected (port b) [s] @ v \<and> exec ?rest v (Inr ss) \<and> r = Inr (s # ss)) \<or>
      (\<exists>s v e. t = connected (port b) [s] @ v \<and> exec ?rest v (Inl e) \<and> r = Inl e)"
    unfolding exec_bind_iff by auto
  also have "\<dots> \<longleftrightarrow> (\<exists>ss. length ss = length (x # xs) \<and> t = connected (port b) ss \<and> r = Inr ss) \<or>
     (\<exists>ss e. length ss < length (x # xs) \<and> is_os_error e \<and> r = Inl e \<and> t = connected (port b) ss @ ?fail e)"
    (is "?L \<longleftrightarrow> ?R")
  proof
    assume ?L
    then show ?R
    proof (elim disjE exE conjE)
      fix e assume "is_os_error e" "t = ?fail e" "r = Inl e"
      then show ?R by (intro disjI2 exI [of _ "[]"] exI [of _ e]) simp
    next
      fix s v ss assume "t = connected (port b) [s] @ v" "exec ?rest v (Inr ss)" "r = Inr (s # ss)"
      then show ?R unfolding Cons.IH by (intro disjI1 exI [of _ "s # ss"]) auto
    next
      fix s v e assume t: "t = connected (port b) [s] @ v" and v: "exec ?rest v (Inl e)" and "r = Inl e"
      from v obtain ss where "length ss < length xs" "is_os_error e" "v = connected (port b) ss @ ?fail e"
        unfolding Cons.IH by auto
      with t \<open>r = Inl e\<close> show ?R by (intro disjI2 exI [of _ "s # ss"] exI [of _ e]) auto
    qed
  next
    assume ?R
    then show ?L
    proof (elim disjE exE conjE)
      fix ss assume "length ss = length (x # xs)" "t = connected (port b) ss" "r = Inr ss"
      then show ?L unfolding Cons.IH by (cases ss) auto
    next
      fix ss e assume "length ss < length (x # xs)" "is_os_error e" "r = Inl e" "t = connected (port b) ss @ ?fail e"
      then show ?L unfolding Cons.IH by (cases ss) auto
    qed
  qed
  finally show ?case .
qed (auto simp: collect.simps)

section \<open>A failed start\<close>

lemma failed_start:
  assumes "\<not> contains ''listening'' line"
  shows "exec (with_broker exe conns ignore args body)
      (probed s prt @ [Spawned p (command (configured exe conns ignore args prt)), Line p line] @ v) r \<longleftrightarrow>
    v = [] \<and> r = Inl (RuntimeError (''netz broker failed to start: '' @ strip line))"
  unfolding exec_with_broker exec_start_err using assms by (auto simp: broker_up_def probed_def)

section \<open>A connection that fails\<close>

lemma connected_fails_unique:
  "connected prt ss @ Failed c e # w = connected prt ss' @ x \<Longrightarrow> length ss' \<le> length ss"
proof (induction ss arbitrary: ss')
  case Nil
  then show ?case by (cases ss') auto
next
  case (Cons s ss)
  then show ?case by (cases ss') auto
qed

lemma connected_fails_eq:
  "connected prt ss @ Failed c e # w = connected prt ss' @ Failed c e' # w' \<Longrightarrow> ss = ss' \<and> e = e' \<and> w = w'"
proof (induction ss arbitrary: ss')
  case Nil
  then show ?case by (cases ss') auto
next
  case (Cons s ss)
  then show ?case by (cases ss') auto
qed

lemma exec_connect_first:
  assumes up: "broker_up exe conns ignore args prt p up" and "length ss < length xs" "is_os_error e"
  shows "exec (with_broker exe conns ignore args (\<lambda>b. bind (collect xs (\<lambda>_. broker_connect b)) (k b)))
      (up @ connected prt ss @ [Failed (CreateConnection ''127.0.0.1'' prt 5000) e] @ w) r \<longleftrightarrow> after_error p e w r"
    (is "exec ?m ?t r \<longleftrightarrow> _")
proof
  let ?f = "Failed (CreateConnection ''127.0.0.1'' prt 5000) e"
  let ?b = "started exe conns ignore args prt p"
  assume "after_error p e w r"
  moreover have "exec (bind (collect xs (\<lambda>_. broker_connect ?b)) (k ?b)) (connected prt ss @ [?f]) (Inl e)"
    using assms(2,3) by (intro exec_bind_errI) (auto simp: exec_connect_all)
  ultimately show "exec ?m ?t r"
    unfolding exec_with_broker using up
    by (intro disjI2 exI [of _ prt] exI [of _ p] exI [of _ up] exI [of _ "connected prt ss @ [?f]"]
        exI [of _ w] exI [of _ "Inl e"]) simp
next
  let ?f = "Failed (CreateConnection ''127.0.0.1'' prt 5000) e"
  assume run: "exec ?m ?t r"
  from up obtain probe line where upl: "up = [Created probe, Bound probe ''127.0.0.1'' 0, Port probe prt, Closed probe,
      Spawned p (command (started exe conns ignore args prt p)), Line p line]" "contains ''listening'' line"
    by (auto simp: broker_up_def)
  have "\<not> exec (bind (NetzBroker exe conns ignore args) broker_enter) ?t (Inl e')" for e'
    using upl by (auto simp: exec_start_err probed_def)
  with run obtain prt' p' u v w' r' where t: "?t = u @ v @ w'" and u: "broker_up exe conns ignore args prt' p' u"
    and v: "exec (bind (collect xs (\<lambda>_. broker_connect (started exe conns ignore args prt' p')))
        (k (started exe conns ignore args prt' p'))) v r'"
    and w': "case r' of Inl e \<Rightarrow> after_error p' e w' r | Inr x \<Rightarrow> after_success p' x w' r"
    unfolding exec_with_broker by blast
  from t u upl have eq: "prt' = prt" "p' = p" and vw: "connected prt ss @ ?f # w = v @ w'"
    by (auto simp: broker_up_def)
  have "\<not> (\<exists>x y ys. v = x @ y \<and> exec (collect xs (\<lambda>_. broker_connect (started exe conns ignore args prt p))) x (Inr ys))"
    using connected_fails_unique [of prt ss _ e w] vw assms(2) by (force simp: exec_connect_all)
  with v eq obtain e' where "r' = Inl e'"
    "exec (collect xs (\<lambda>_. broker_connect (started exe conns ignore args prt p))) v (Inl e')"
    unfolding exec_bind_iff by blast
  then obtain ss' where "v = connected prt ss' @ [Failed (CreateConnection ''127.0.0.1'' prt 5000) e']"
    by (auto simp: exec_connect_all)
  with connected_fails_eq [of prt ss "CreateConnection ''127.0.0.1'' prt 5000" e w ss' e' w'] vw \<open>r' = Inl e'\<close> w' eq show "after_error p e w r" by simp
qed

end
