(* ===== verification/Discipline.thy ===== *)
theory Discipline
  imports Harness Policy Leaks
begin

text \<open>
  Facts that hold of every scenario against every environment, passing or not: the sockets it
  opens are closed again (one scenario excepted), the calls it makes keep to \<open>harness_policy\<close>, and it
  leaves at most one process that has not been waited for.
\<close>

lemma balanced_case_prod [balanced_intros]:
  "(\<And>a b. balanced (f a b)) \<Longrightarrow> balanced (case x of (a, b) \<Rightarrow> f a b)"
  "(\<And>a b. balanced (g a b st)) \<Longrightarrow> balanced ((case x of (a, b) \<Rightarrow> g a b) st)"
  by (cases x; simp)+

lemma confined_case_prod [confined_intros]:
  "(\<And>a b. confined Q (f a b)) \<Longrightarrow> confined Q (case x of (a, b) \<Rightarrow> f a b)"
  "(\<And>a b. confined Q (g a b st)) \<Longrightarrow> confined Q ((case x of (a, b) \<Rightarrow> g a b) st)"
  by (cases x; simp)+

lemma brokered_case_prod: "(\<And>a b. brokered exe (f a b)) \<Longrightarrow> brokered exe (case x of (a, b) \<Rightarrow> f a b)"
  by (cases x) simp

lemma option_case_intros:
  "balanced m \<Longrightarrow> (\<And>y. balanced (f y)) \<Longrightarrow> balanced (case x of None \<Rightarrow> m | Some y \<Rightarrow> f y)"
  "confined Q m \<Longrightarrow> (\<And>y. confined Q (f y)) \<Longrightarrow> confined Q (case x of None \<Rightarrow> m | Some y \<Rightarrow> f y)"
  by (cases x; simp)+

text \<open>The local functions of the scenarios.\<close>

lemma balanced_locals [balanced_intros]:
  "balanced (expect_variant s vs)"
  "balanced (replay mp payload s mid topics)"
  "balanced (expiry_connect mp pr packet s present label)"
  "balanced (expiry_disconnect mp s props)"
  unfolding expect_variant_def replay_def expiry_connect_def expiry_disconnect_def
  by (intro balanced_intros)+

lemma confined_locals [confined_intros]:
  "confined client_policy (expect_variant s vs)"
  "confined client_policy (replay mp payload s mid topics)"
  "confined client_policy (expiry_connect mp pr packet s present label)"
  "confined client_policy (expiry_disconnect mp s props)"
  unfolding expect_variant_def replay_def expiry_connect_def expiry_disconnect_def
  by (intro confined_intros confined_recv; simp)+

lemma balanced_assigned_client [balanced_intros]: "balanced (assigned_client mp pr i s)"
  unfolding assigned_client_def Let_def
  by (intro balanced_intros balanced_raise_if option_case_intros) (auto intro: balanced_intros)

lemma confined_assigned_client [confined_intros]:
  "confined client_policy (assigned_client mp pr i s)"
  unfolding assigned_client_def Let_def
  by (intro confined_intros confined_raise_if option_case_intros) (auto intro: confined_intros)

section \<open>Sockets\<close>

lemma balanced_basic:
  "balanced (no_matching_subscribers exe mp rc)"
  "balanced (subscription_identifiers exe mp pr)"
  "balanced (multiple_subscription_identifiers exe mp pr op)"
  "balanced (hostile_initial_packets exe mp)"
  unfolding no_matching_subscribers_def subscription_identifiers_def
    multiple_subscription_identifiers_def hostile_initial_packets_def Let_def
  by (intro balanced_intros)+

lemma balanced_limits:
  "balanced (publish_capability_disconnects exe mp pr rc)"
  "balanced (maximum_packet_size_disconnect exe mp pr rc)"
  "balanced (topic_alias_disconnect exe mp pr rc)"
  "balanced (receive_maximum_disconnect exe mp rc)"
  "balanced (subscription_capability_disconnects exe mp pr rc)"
  unfolding publish_capability_disconnects_def maximum_packet_size_disconnect_def
    topic_alias_disconnect_def receive_maximum_disconnect_def
    subscription_capability_disconnects_def Let_def
  by (intro balanced_intros)+

lemma balanced_qos:
  "balanced (qos2_routes_at_pubrel exe mp)"
  "balanced (mixed_version_qos1 exe mp)"
  "balanced (persistent_no_local exe mp)"
  "balanced (qos2_receive_maximum_one exe mp pr)"
  "balanced (maximum_packet_size_qos1 exe mp pr)"
  "balanced (maximum_packet_size_qos2 exe mp pr)"
  "balanced (qos2_duplicate_publish exe mp)"
  "balanced (qos2_repeated_pubrel exe mp)"
  unfolding qos2_routes_at_pubrel_def mixed_version_qos1_def persistent_no_local_def
    qos2_receive_maximum_one_def maximum_packet_size_qos1_def maximum_packet_size_qos2_def
    qos2_duplicate_publish_def qos2_repeated_pubrel_def Let_def
  by (intro balanced_intros)+

lemma balanced_forwarding:
  "balanced (retained_subscription_handling exe mp op)"
  "balanced (incoming_topic_alias exe mp pr)"
  "balanced (outgoing_topic_alias exe mp pr)"
  "balanced (request_response_properties exe mp pr)"
  "balanced (disconnect_with_will_properties exe mp pr)"
  "balanced (reject_publish_subscription_identifier exe mp pr)"
  "balanced (unsubscribe_reason_codes exe mp)"
  unfolding retained_subscription_handling_def incoming_topic_alias_def outgoing_topic_alias_def
    request_response_properties_def disconnect_with_will_properties_def
    reject_publish_subscription_identifier_def unsubscribe_reason_codes_def Let_def
  by (intro balanced_intros balanced_raise_if; (auto intro: balanced_intros)?)+

lemma balanced_retained:
  "balanced (retained_message_expiry exe mp pr rc)"
  "balanced (retained_repeated_lifecycle exe mp)"
  "balanced (retained_multilevel_clear exe mp)"
  "balanced (retain_as_published_live exe mp op)"
  "balanced (retained_replacement exe mp pr)"
  "balanced (retained_publish_property_bundle exe mp pr)"
  "balanced (retained_tombstone_properties exe mp pr)"
  unfolding retained_message_expiry_def retained_repeated_lifecycle_def retained_multilevel_clear_def
    retain_as_published_live_def retained_replacement_def retained_publish_property_bundle_def
    retained_tombstone_properties_def Let_def
  by (intro balanced_intros)+

lemma balanced_session:
  "balanced (assigned_client_identifier exe mp pr)"
  "balanced (server_keep_alive exe mp pr)"
  "balanced (duplicate_client_takeover exe mp pr rc)"
  "balanced (disconnect_session_expiry exe mp pr)"
  unfolding assigned_client_identifier_def server_keep_alive_def duplicate_client_takeover_def
    disconnect_session_expiry_def Let_def
  by (intro balanced_intros)+

lemmas balanced_all = balanced_basic balanced_limits balanced_qos balanced_forwarding balanced_retained
  balanced_session

section \<open>Calls\<close>

lemma brokered_basic:
  "brokered exe (no_matching_subscribers exe mp rc)"
  "brokered exe (subscription_identifiers exe mp pr)"
  "brokered exe (multiple_subscription_identifiers exe mp pr op)"
  "brokered exe (hostile_initial_packets exe mp)"
  unfolding no_matching_subscribers_def subscription_identifiers_def
    multiple_subscription_identifiers_def hostile_initial_packets_def Let_def
  by (intro brokered_with_broker brokered_for_each brokered_case_prod confined_intros)+

lemma brokered_limits:
  "brokered exe (publish_capability_disconnects exe mp pr rc)"
  "brokered exe (maximum_packet_size_disconnect exe mp pr rc)"
  "brokered exe (topic_alias_disconnect exe mp pr rc)"
  "brokered exe (receive_maximum_disconnect exe mp rc)"
  "brokered exe (subscription_capability_disconnects exe mp pr rc)"
  unfolding publish_capability_disconnects_def maximum_packet_size_disconnect_def
    topic_alias_disconnect_def receive_maximum_disconnect_def
    subscription_capability_disconnects_def Let_def
  by (intro brokered_with_broker brokered_for_each brokered_case_prod confined_intros)+

lemma brokered_qos:
  "brokered exe (qos2_routes_at_pubrel exe mp)"
  "brokered exe (mixed_version_qos1 exe mp)"
  "brokered exe (persistent_no_local exe mp)"
  "brokered exe (qos2_receive_maximum_one exe mp pr)"
  "brokered exe (maximum_packet_size_qos1 exe mp pr)"
  "brokered exe (maximum_packet_size_qos2 exe mp pr)"
  "brokered exe (qos2_duplicate_publish exe mp)"
  "brokered exe (qos2_repeated_pubrel exe mp)"
  unfolding qos2_routes_at_pubrel_def mixed_version_qos1_def persistent_no_local_def
    qos2_receive_maximum_one_def maximum_packet_size_qos1_def maximum_packet_size_qos2_def
    qos2_duplicate_publish_def qos2_repeated_pubrel_def Let_def
  by (intro brokered_with_broker brokered_for_each brokered_case_prod confined_intros)+

lemma brokered_forwarding:
  "brokered exe (retained_subscription_handling exe mp op)"
  "brokered exe (incoming_topic_alias exe mp pr)"
  "brokered exe (outgoing_topic_alias exe mp pr)"
  "brokered exe (request_response_properties exe mp pr)"
  "brokered exe (disconnect_with_will_properties exe mp pr)"
  "brokered exe (shared_subscription_rotation exe mp)"
  "brokered exe (reject_publish_subscription_identifier exe mp pr)"
  "brokered exe (unsubscribe_reason_codes exe mp)"
  unfolding retained_subscription_handling_def incoming_topic_alias_def outgoing_topic_alias_def
    request_response_properties_def disconnect_with_will_properties_def shared_subscription_rotation_def
    reject_publish_subscription_identifier_def unsubscribe_reason_codes_def Let_def
  by (intro brokered_with_broker brokered_for_each brokered_case_prod confined_intros confined_raise_if; (auto intro: confined_intros)?)+

lemma brokered_retained:
  "brokered exe (retained_message_expiry exe mp pr rc)"
  "brokered exe (retained_repeated_lifecycle exe mp)"
  "brokered exe (retained_multilevel_clear exe mp)"
  "brokered exe (retain_as_published_live exe mp op)"
  "brokered exe (retained_replacement exe mp pr)"
  "brokered exe (retained_publish_property_bundle exe mp pr)"
  "brokered exe (retained_tombstone_properties exe mp pr)"
  unfolding retained_message_expiry_def retained_repeated_lifecycle_def retained_multilevel_clear_def
    retain_as_published_live_def retained_replacement_def retained_publish_property_bundle_def
    retained_tombstone_properties_def Let_def
  by (intro brokered_with_broker brokered_for_each brokered_case_prod confined_intros confined_sleep; simp?)+

lemma brokered_session:
  "brokered exe (assigned_client_identifier exe mp pr)"
  "brokered exe (server_keep_alive exe mp pr)"
  "brokered exe (duplicate_client_takeover exe mp pr rc)"
  "brokered exe (disconnect_session_expiry exe mp pr)"
  unfolding assigned_client_identifier_def server_keep_alive_def duplicate_client_takeover_def
    disconnect_session_expiry_def Let_def
  by (intro brokered_with_broker brokered_for_each brokered_case_prod confined_intros confined_sleep; simp?)+

lemmas brokered_all = brokered_basic brokered_limits brokered_qos brokered_forwarding brokered_retained
  brokered_session

lemma brokered_scenarios: "list_all (brokered exe) (scenarios exe mp pr rc op)"
  by (simp add: scenarios_def brokered_all)

lemma confined_scenarios: "list_all (confined (harness_policy exe)) (scenarios exe mp pr rc op)"
  using brokered_scenarios by (auto simp: list_all_iff intro: brokered_confined)

lemma confined_seq_list: "list_all (confined Q) ms \<Longrightarrow> confined Q (seq ms)"
  by (induction ms) (auto intro: confined_intros)

lemma scenarios_no_print: "exec (seq (scenarios exe mp pr rc op)) t r \<Longrightarrow> Printed l \<notin> set t"
  by (rule confined_no_print [OF confined_seq_list [OF confined_scenarios]])

lemma scenarios_prints: "exec (seq (scenarios exe mp pr rc op)) t r \<Longrightarrow> filter is_printed t = []"
  using scenarios_no_print [of exe mp pr rc op t r] by (auto simp: filter_empty_conv elim!: is_printed.elims)

section \<open>A failing run\<close>

lemma tidy_scenario: "k < 36 \<Longrightarrow> tidy (scenarios exe mp pr rc op ! k)"
  using brokered_scenarios [of exe mp pr rc op]
  by (auto simp: list_all_length length_scenarios intro: brokered_tidy)

lemma balanced_scenarios:
  "list_all balanced (take 23 (scenarios exe mp pr rc op) @ drop 24 (scenarios exe mp pr rc op))"
  by (simp add: scenarios_def balanced_all)

lemma balanced_scenario:
  assumes "k < 36" "k \<noteq> 23"
  shows "balanced (scenarios exe mp pr rc op ! k)"
proof -
  let ?ss = "scenarios exe mp pr rc op"
  have "?ss ! k \<in> set (take 23 ?ss) \<union> set (drop 24 ?ss)"
  proof (cases "k < 23")
    case True
    then have "take 23 ?ss ! k \<in> set (take 23 ?ss)" by (intro nth_mem) (simp add: length_scenarios)
    with True show ?thesis by simp
  next
    case False
    with assms have k: "24 + (k - 24) = k" "k - 24 < length (drop 24 ?ss)" by (simp_all add: length_scenarios)
    then have "drop 24 ?ss ! (k - 24) \<in> set (drop 24 ?ss)" by (intro nth_mem)
    with k(1) show ?thesis by (simp add: length_scenarios)
  qed
  with balanced_scenarios show ?thesis by (auto simp: list_all_iff)
qed

lemma passing_prefix:
  assumes "exec (seq (take k (scenarios exe mp pr rc op))) u (Inr ())"
  shows "procs_started u = procs_reaped u" "socks_opened u = socks_closed u"
    "size (procs_started u) = sum_list (take k processes)"
proof -
  have "served exe (sum_list (take k processes)) (ok (seq (take k (scenarios exe mp pr rc op))) ())"
    by (intro served_seq list_all2_takeI served_each)
  with assms obtain cs where "length cs = sum_list (take k processes)"
    "\<forall>(conns, ignore, args, sts) \<in> set cs. well_formed conns sts" "sessions exe cs u"
    unfolding served_def ok_def by blast
  with sessions_effect [of cs exe u] show "procs_started u = procs_reaped u" "socks_opened u = socks_closed u"
    "size (procs_started u) = sum_list (take k processes)" by (auto simp: effect_def)
qed

end
