(* ===== verification/Streams.thy ===== *)
theory Streams
  imports Conversation
begin

text \<open>
  What a conversation means for a single connection: the bytes sent and the bytes received on it.
  \<open>outbox i sts\<close> is what the steps send on connection \<open>i\<close>, \<open>inbox i sts\<close> what they
  accept; both read the conversation, not the transcript. The lemmas project a transcript of the
  conversation to these streams, and cut a transcript at any step.
\<close>

section \<open>Transcripts by connection\<close>

fun opened :: "obs list \<Rightarrow> sock list" where
  "opened [] = []"
| "opened (x # t) = (case x of Connected s _ \<Rightarrow> s # opened t | _ \<Rightarrow> opened t)"

fun sent :: "sock \<Rightarrow> obs list \<Rightarrow> bytes" where
  "sent s [] = []"
| "sent s (x # t) = (case x of Tx s' b \<Rightarrow> (if s' = s then b # sent s t else sent s t) | _ \<Rightarrow> sent s t)"

fun received :: "sock \<Rightarrow> obs list \<Rightarrow> bytes" where
  "received s [] = []"
| "received s (x # t) =
     (case x of Rx s' b \<Rightarrow> (if s' = s then b # received s t else received s t) | _ \<Rightarrow> received s t)"

fun outbox :: "nat \<Rightarrow> step list \<Rightarrow> bytes" where
  "outbox i [] = []"
| "outbox i (st # sts) = (case st of Send j bs \<Rightarrow> (if j = i then bs else []) | _ \<Rightarrow> []) @ outbox i sts"

fun inbox :: "nat \<Rightarrow> step list \<Rightarrow> bytes \<Rightarrow> bool" where
  "inbox i [] bs \<longleftrightarrow> bs = []"
| "inbox i (Expect j p # sts) bs \<longleftrightarrow>
     (if j = i then \<exists>rest. bs = p @ rest \<and> inbox i sts rest else inbox i sts bs)"
| "inbox i (Await j P # sts) bs \<longleftrightarrow>
     (if j = i then \<exists>p rest. bs = p @ rest \<and> frame p \<and> P p \<and> inbox i sts rest else inbox i sts bs)"
| "inbox i (ExpectPerm j es # sts) bs \<longleftrightarrow>
     (if j = i then \<exists>ps rest. bs = concat ps @ rest \<and> mset ps = mset es \<and> inbox i sts rest
      else inbox i sts bs)"
| "inbox i (_ # sts) bs \<longleftrightarrow> inbox i sts bs"

text \<open>Every step refers to a connection that has been opened.\<close>

fun refs :: "nat \<Rightarrow> step list \<Rightarrow> bool" where
  "refs n [] \<longleftrightarrow> True"
| "refs n (Open # sts) \<longleftrightarrow> refs (Suc n) sts"
| "refs n (Shut i # sts) \<longleftrightarrow> i < n \<and> refs n sts"
| "refs n (Send i bs # sts) \<longleftrightarrow> i < n \<and> refs n sts"
| "refs n (Expect i bs # sts) \<longleftrightarrow> i < n \<and> refs n sts"
| "refs n (Await i P # sts) \<longleftrightarrow> i < n \<and> refs n sts"
| "refs n (ExpectPerm i ps # sts) \<longleftrightarrow> i < n \<and> refs n sts"
| "refs n (Silent i # sts) \<longleftrightarrow> i < n \<and> refs n sts"
| "refs n (Ended i # sts) \<longleftrightarrow> i < n \<and> refs n sts"
| "refs n (Gone i # sts) \<longleftrightarrow> i < n \<and> refs n sts"
| "refs n (Pause ms # sts) \<longleftrightarrow> refs n sts"

lemma opened_append [simp]: "opened (t @ u) = opened t @ opened u"
  by (induction t) (auto split: obs.splits)

lemma sent_append [simp]: "sent s (t @ u) = sent s t @ sent s u"
  by (induction t) (auto split: obs.splits)

lemma received_append [simp]: "received s (t @ u) = received s t @ received s u"
  by (induction t) (auto split: obs.splits)

lemma streams_Tx [simp]:
  "opened (map (Tx s') bs) = []" "sent s (map (Tx s') bs) = (if s' = s then bs else [])"
  "received s (map (Tx s') bs) = []"
  by (induction bs) auto

lemma streams_Rx [simp]:
  "opened (map (Rx s') bs) = []" "sent s (map (Rx s') bs) = []"
  "received s (map (Rx s') bs) = (if s' = s then bs else [])"
  by (induction bs) auto

lemma length_opened: "length (opened t) = connects t"
  by (induction t) (auto split: obs.splits)

section \<open>Projection\<close>

lemma script_streams:
  "refs (length env) sts \<Longrightarrow> script prt env sts t \<Longrightarrow> distinct (env @ opened t) \<Longrightarrow>
     i < length (env @ opened t) \<Longrightarrow>
     sent ((env @ opened t) ! i) t = outbox i sts \<and> inbox i sts (received ((env @ opened t) ! i) t)"
proof (induction prt env sts arbitrary: t rule: script.induct)
  case (2 prt env sts)
  then obtain s v where t: "t = [Connected s prt, TimeoutSet s 5000] @ v"
    and v: "script prt (env @ [s]) sts v" by (auto simp: some_def cat_def exactly_def)
  with 2(1) [of s v] 2(2,4,5) show ?case by simp
next
  case (4 prt env j bs sts)
  then obtain v where t: "t = map (Tx (env ! j)) bs @ v" and v: "script prt env sts v"
    by (auto simp: cat_def tx_def exactly_def)
  moreover have "env ! j = (env @ opened v) ! i \<longleftrightarrow> j = i"
    using 4(2,4,5) nth_eq_iff_index_eq [of "env @ opened v" j i] by (simp add: t nth_append)
  ultimately show ?case using 4(1) [OF _ v] 4(2,4,5) by auto
next
  case (5 prt env j p sts)
  then obtain v where t: "t = map (Rx (env ! j)) p @ v" and v: "script prt env sts v"
    by (auto simp: cat_def rx_def exactly_def onlyif_def)
  moreover have "env ! j = (env @ opened v) ! i \<longleftrightarrow> j = i"
    using 5(2,4,5) nth_eq_iff_index_eq [of "env @ opened v" j i] by (simp add: t nth_append)
  ultimately show ?case using 5(1) [OF _ v] 5(2,4,5) by auto
next
  case (6 prt env j P sts)
  then obtain p v where t: "t = map (Rx (env ! j)) p @ v" and v: "script prt env sts v" and p: "frame p" "P p"
    by (auto simp: cat_def rx_where_def rx_def exactly_def onlyif_def some_def)
  moreover have "env ! j = (env @ opened v) ! i \<longleftrightarrow> j = i"
    using 6(2,4,5) nth_eq_iff_index_eq [of "env @ opened v" j i] by (simp add: t nth_append)
  ultimately show ?case using 6(1) [OF _ v] 6(2,4,5) by auto
next
  case (7 prt env j es sts)
  then obtain ps v where t: "t = map (Rx (env ! j)) (concat ps) @ v" and v: "script prt env sts v"
    and ps: "mset ps = mset es"
    by (auto simp: cat_def rx_perm_def)
  moreover have "env ! j = (env @ opened v) ! i \<longleftrightarrow> j = i"
    using 7(2,4,5) nth_eq_iff_index_eq [of "env @ opened v" j i] by (simp add: t nth_append)
  ultimately show ?case using 7(1) [OF _ v] 7(2,4,5) by auto
qed (auto simp: eps_def cat_def exactly_def quiet_def dropped_def)

section \<open>Cutting a conversation at a step\<close>

lemma opened_chatter: "list_all chatter t \<Longrightarrow> opened t = []"
  by (induction t) (auto split: obs.splits)

lemma cat_cut:
  assumes "\<And>u. L u \<Longrightarrow> opened u = []"
    and "\<And>v. S v \<Longrightarrow> \<exists>x y. v = x @ y \<and> A x \<and> B (env @ opened x) y" and "cat L S t"
  shows "\<exists>x y. t = x @ y \<and> cat L A x \<and> B (env @ opened x) y"
proof -
  from assms(3) obtain u v where t: "t = u @ v" "L u" "S v" unfolding cat_def by blast
  with assms(2) obtain x y where v: "v = x @ y" "A x" "B (env @ opened x) y" by blast
  from t v assms(1) [of u] have "t = (u @ x) @ y \<and> cat L A (u @ x) \<and> B (env @ opened (u @ x)) y"
    unfolding cat_def by auto
  then show ?thesis by blast
qed

lemma quiet_lang_opened: "quiet_lang L \<Longrightarrow> L u \<Longrightarrow> opened u = []"
  by (simp add: quiet_lang_def opened_chatter)

lemma opened_langs:
  "tx s bs u \<Longrightarrow> opened u = []" "rx s bs u \<Longrightarrow> opened u = []" "rx_where s P u \<Longrightarrow> opened u = []"
  "rx_perm s ps u \<Longrightarrow> opened u = []" "quiet s u \<Longrightarrow> opened u = []" "dropped s u \<Longrightarrow> opened u = []"
  "exactly [Eof s] u \<Longrightarrow> opened u = []" "exactly [Slept ms] u \<Longrightarrow> opened u = []"
  "exactly [Closed s] u \<Longrightarrow> opened u = []"
  by (erule quiet_lang_opened [OF quiet_langs(1)] quiet_lang_opened [OF quiet_langs(2)]
      quiet_lang_opened [OF quiet_langs(3)] quiet_lang_opened [OF quiet_langs(4)]
      quiet_lang_opened [OF quiet_langs(5)] quiet_lang_opened [OF quiet_langs(6)]
      quiet_lang_opened [OF quiet_langs(7)] quiet_lang_opened [OF quiet_langs(8)])+
     (simp add: exactly_def)

lemma script_cut:
  "script prt env (as @ bs) t \<Longrightarrow>
     \<exists>u v. t = u @ v \<and> script prt env as u \<and> script prt (env @ opened u) bs v"
proof (induction prt env as arbitrary: t rule: script.induct)
  case (1 prt env)
  then show ?case by (auto simp: eps_def)
next
  case (2 prt env sts)
  then obtain s v where t: "t = [Connected s prt, TimeoutSet s 5000] @ v"
    and v: "script prt (env @ [s]) (sts @ bs) v" by (auto simp: some_def cat_def exactly_def)
  from 2(1) [OF v] obtain x y where "v = x @ y" "script prt (env @ [s]) sts x"
    "script prt ((env @ [s]) @ opened x) bs y" by blast
  with t show ?case
    by (intro exI [of _ "[Connected s prt, TimeoutSet s 5000] @ x"] exI [of _ y])
       (auto simp: some_def cat_def exactly_def)
qed (simp_all only: append_Cons script.simps, (erule cat_cut [rotated -1]; (erule opened_langs | assumption))+)

fun opens :: "step list \<Rightarrow> nat" where
  "opens [] = 0"
| "opens (Open # sts) = Suc (opens sts)"
| "opens (_ # sts) = opens sts"

lemma refs_append: "refs n (as @ bs) \<longleftrightarrow> refs n as \<and> refs (n + opens as) bs"
  by (induction n as rule: refs.induct) auto

lemma cat_openedE:
  assumes "cat L S t" "\<And>u. L u \<Longrightarrow> opened u = []" "\<And>v. S v \<Longrightarrow> opened t = opened v \<Longrightarrow> P"
  shows P
  using assms unfolding cat_def by fastforce

lemma script_opens: "script prt env sts t \<Longrightarrow> length (opened t) = opens sts"
proof (induction prt env sts arbitrary: t rule: script.induct)
  case (2 prt env sts)
  then show ?case by (auto simp: some_def cat_def exactly_def)
qed (simp add: eps_def, (simp only: script.simps opens.simps, erule cat_openedE, erule opened_langs, simp)+)

text \<open>A transcript of a conversation \<open>as @ bs\<close> splits into two parts: each connection has sent and
  received in either part what the steps of that part say. The connections are all opened in \<open>as\<close>.\<close>

lemma conversation_cut:
  assumes t: "conversation exe conns ignore args (as @ bs) t" and refs: "refs 0 (as @ bs)" and "opens bs = 0"
    and distinct: "distinct (opened t)"
  shows "\<exists>u v. t = u @ v \<and> (\<forall>i < opens as.
     sent (opened t ! i) u = outbox i as \<and> inbox i as (received (opened t ! i) u) \<and>
     sent (opened t ! i) v = outbox i bs \<and> inbox i bs (received (opened t ! i) v))"
proof -
  from t obtain prt p w x where tw: "t = w @ x @ [Exited p 0]"
    and w: "broker_up exe conns ignore args prt p w" and x: "script prt [] (as @ bs) x"
    unfolding conversation_def some_def cat_def exactly_def by blast
  from script_cut [OF x] obtain u v where uv: "x = u @ v" and u: "script prt [] as u"
    and v: "script prt (opened u) bs v" by auto
  from w have w0: "opened w = []" "sent s w = []" "received s w = []" for s
    by (auto simp: broker_up_def)
  from script_opens [OF v] \<open>opens bs = 0\<close> have v0: "opened v = []" by simp
  with tw uv w0 have op: "opened t = opened u" by simp
  have "sent (opened t ! i) u = outbox i as \<and> inbox i as (received (opened t ! i) u) \<and>
     sent (opened t ! i) v = outbox i bs \<and> inbox i bs (received (opened t ! i) v)" if i: "i < opens as" for i
  proof -
    have "sent (opened u ! i) u = outbox i as \<and> inbox i as (received (opened u ! i) u)"
      using script_streams [OF _ u, of i] refs distinct i script_opens [OF u] by (simp add: op refs_append)
    moreover have "sent (opened u ! i) v = outbox i bs \<and> inbox i bs (received (opened u ! i) v)"
      using script_streams [OF _ v, of i] refs distinct i script_opens [OF u]
      by (simp add: op refs_append v0)
    ultimately show ?thesis by (simp add: op)
  qed
  moreover have "t = (w @ u) @ (v @ [Exited p 0])" by (simp add: tw uv)
  ultimately show ?thesis
    by (intro exI [of _ "w @ u"] exI [of _ "v @ [Exited p 0]"]) (simp add: w0)
qed

lemma conversation_opened:
  "conversation exe conns ignore args sts t \<Longrightarrow> well_formed conns sts \<Longrightarrow> length (opened t) = conns"
  using conversation_effect by (fastforce simp: effect_def length_opened)

lemma valid_refs: "valid conns n live sts \<Longrightarrow> \<forall>i \<in> set live. i < n \<Longrightarrow> refs n sts \<and> n + opens sts = conns"
  by (induction conns n live sts rule: valid.induct) (auto dest: notin_set_remove1 simp: less_Suc_eq)

lemma conversation_split:
  assumes conv: "conversation exe conns ignore args sts t" and wf: "well_formed conns sts"
    and "opens (drop n sts) = 0" and distinct: "distinct (opened t)"
  shows "\<exists>u v. t = u @ v \<and> (\<forall>i < conns.
     sent (opened t ! i) u = outbox i (take n sts) \<and> inbox i (take n sts) (received (opened t ! i) u) \<and>
     sent (opened t ! i) v = outbox i (drop n sts) \<and> inbox i (drop n sts) (received (opened t ! i) v))"
proof -
  from valid_refs [of conns 0 "[]" sts] wf have refs: "refs 0 sts" and opens: "opens sts = conns"
    by (simp_all add: well_formed_def)
  have "opens (as @ bs) = opens as + opens bs" for as bs
    by (induction as rule: opens.induct) auto
  from this [of "take n sts" "drop n sts"] assms(3) opens have "opens (take n sts) = conns" by simp
  with conversation_cut [of exe conns ignore args "take n sts" "drop n sts" t] conv refs assms(3) distinct
  show ?thesis by simp
qed

text \<open>Two connections, the case of most scenarios.\<close>

lemma conversation_split_two:
  assumes conv: "conversation exe 2 ignore args sts t" and wf: "well_formed 2 sts"
    and "opens (drop n sts) = 0" and distinct: "distinct (opened t)"
  obtains a b u v where "opened t = [a, b]" "t = u @ v"
    "sent a u = outbox 0 (take n sts)" "inbox 0 (take n sts) (received a u)"
    "sent a v = outbox 0 (drop n sts)" "inbox 0 (drop n sts) (received a v)"
    "sent b u = outbox 1 (take n sts)" "inbox 1 (take n sts) (received b u)"
    "sent b v = outbox 1 (drop n sts)" "inbox 1 (drop n sts) (received b v)"
proof -
  from conversation_opened [OF conv wf] obtain a b where ab: "opened t = [a, b]"
    by (auto simp: numeral_2_eq_2 length_Suc_conv)
  from conversation_split [OF assms] obtain u v where uv: "t = u @ v" "\<forall>i < 2.
     sent (opened t ! i) u = outbox i (take n sts) \<and> inbox i (take n sts) (received (opened t ! i) u) \<and>
     sent (opened t ! i) v = outbox i (drop n sts) \<and> inbox i (drop n sts) (received (opened t ! i) v)" by blast
  from uv(2) [rule_format, of 0] uv(2) [rule_format, of 1] show thesis
    by (intro that [OF ab uv(1)]) (simp_all add: ab)
qed

text \<open>A silence window in a conversation: what was sent and received before it and after it.\<close>

lemma conversation_window:
  assumes conv: "conversation exe conns ignore args sts t" and wf: "well_formed conns sts"
    and sts: "sts = as @ Silent j # bs" "opens bs = 0" and distinct: "distinct (opened t)"
  shows "\<exists>u x v. t = u @ [TimeoutSet (opened t ! j) 50, x, TimeoutSet (opened t ! j) 5000] @ v \<and>
     x \<in> {Eof (opened t ! j), Failed (Recv (opened t ! j) 1) SocketTimeout} \<and> (\<forall>i < conns.
     sent (opened t ! i) u = outbox i as \<and> inbox i as (received (opened t ! i) u) \<and>
     sent (opened t ! i) v = outbox i bs \<and> inbox i bs (received (opened t ! i) v))"
proof -
  from valid_refs [of conns 0 "[]" sts] wf have refs: "refs 0 (as @ Silent j # bs)" and "opens (as @ Silent j # bs) = conns"
    by (simp_all add: well_formed_def sts)
  moreover have "opens (as @ cs) = opens as + opens cs" for as cs
    by (induction as rule: opens.induct) auto
  ultimately have opens: "opens as = conns" using sts(2) by simp
  from conv obtain prt p w x where tw: "t = w @ x @ [Exited p 0]"
    and w: "broker_up exe conns ignore args prt p w" and x: "script prt [] (as @ Silent j # bs) x"
    unfolding conversation_def some_def cat_def exactly_def sts(1) by blast
  from script_cut [OF x] obtain u v where uv: "x = u @ v" and u: "script prt [] as u"
    and "script prt (opened u) (Silent j # bs) v" by auto
  then obtain q v' where v: "v = q @ v'" "quiet (opened u ! j) q" and v': "script prt (opened u) bs v'"
    by (auto simp: cat_def)
  from w have w0: "opened w = []" "sent s w = []" "received s w = []" for s by (auto simp: broker_up_def)
  from v(2) obtain y where q: "q = [TimeoutSet (opened u ! j) 50, y, TimeoutSet (opened u ! j) 5000]"
    "y \<in> {Eof (opened u ! j), Failed (Recv (opened u ! j) 1) SocketTimeout}" by (auto simp: quiet_def)
  then have q0: "opened q = []" by auto
  from script_opens [OF v'] sts(2) have "opened v' = []" by simp
  with tw uv v(1) w0 q0 have op: "opened t = opened u" by simp
  have "sent (opened u ! i) u = outbox i as \<and> inbox i as (received (opened u ! i) u) \<and>
     sent (opened u ! i) v' = outbox i bs \<and> inbox i bs (received (opened u ! i) v')" if "i < conns" for i
    using script_streams [OF _ u, of i] script_streams [OF _ v', of i] refs distinct that opens
      script_opens [OF u] \<open>opened v' = []\<close> by (simp add: op refs_append)
  with q show ?thesis unfolding op
    by (intro exI [of _ "w @ u"] exI [of _ y] exI [of _ "v' @ [Exited p 0]"]) (auto simp: tw uv v(1) w0)
qed

text \<open>The whole transcript of a passing run, connection by connection.\<close>

lemma conversation_streams:
  assumes "conversation exe conns ignore args sts t" "well_formed conns sts" "distinct (opened t)" "i < conns"
  shows "sent (opened t ! i) t = outbox i sts \<and> inbox i sts (received (opened t ! i) t)"
proof -
  from conversation_split [OF assms(1,2) _ assms(3), of "length sts"] obtain u v where "t = u @ v"
    "\<forall>i < conns. sent (opened t ! i) u = outbox i sts \<and> inbox i sts (received (opened t ! i) u) \<and>
     sent (opened t ! i) v = [] \<and> received (opened t ! i) v = []" by auto
  with assms(4) show ?thesis by simp
qed

text \<open>A connection that the broker must drop: the end of stream or the reset is in the transcript.\<close>

lemma script_dropped:
  "refs (length env) sts \<Longrightarrow> script prt env sts t \<Longrightarrow> Gone i \<in> set sts \<Longrightarrow>
     \<exists>x \<in> set t. dropped ((env @ opened t) ! i) [x]"
proof (induction prt env sts arbitrary: t rule: script.induct)
  case (2 prt env sts)
  then obtain s v where t: "t = [Connected s prt, TimeoutSet s 5000] @ v"
    and v: "script prt (env @ [s]) sts v" by (auto simp: some_def cat_def exactly_def)
  from 2(1) [OF _ v] 2(2,4) show ?case by (simp add: t)
next
  case (10 prt env j sts)
  then obtain x v where t: "t = x # v" "dropped (env ! j) [x]" and v: "script prt env sts v"
    by (auto simp: cat_def dropped_def)
  then have "opened t = opened v" using opened_langs(6) [of "env ! j" "[x]"] by (simp split: obs.splits)
  with 10(1) [OF _ v] 10(2,4) t show ?case by (auto simp: nth_append)
qed (simp, (simp only: script.simps refs.simps list.set insert_iff step.simps cat_def simp_thms, elim exE conjE,
    frule opened_langs, fastforce)+)

lemma conversation_dropped:
  assumes "conversation exe conns ignore args sts t" "well_formed conns sts" "Gone i \<in> set sts"
  shows "\<exists>x \<in> set t. dropped (opened t ! i) [x]"
proof -
  from assms(1) obtain prt p w x where t: "t = w @ x @ [Exited p 0]"
    and w: "broker_up exe conns ignore args prt p w" and x: "script prt [] sts x"
    unfolding conversation_def some_def cat_def exactly_def by blast
  from w have "opened w = []" by (auto simp: broker_up_def)
  moreover from valid_refs [of conns 0 "[]" sts] assms(2) have "refs 0 sts" by (simp add: well_formed_def)
  ultimately show ?thesis using script_dropped [OF _ x assms(3)] by (auto simp: t)
qed

section \<open>The order of connections and pauses\<close>

fun timeline :: "obs list \<Rightarrow> (sock + nat) list" where
  "timeline [] = []"
| "timeline (x # t) = (case x of Connected s _ \<Rightarrow> Inl s # timeline t | Slept ms \<Rightarrow> Inr ms # timeline t
     | _ \<Rightarrow> timeline t)"

fun plan :: "nat \<Rightarrow> step list \<Rightarrow> (nat + nat) list" where
  "plan n [] = []"
| "plan n (Open # sts) = Inl n # plan (Suc n) sts"
| "plan n (Pause ms # sts) = Inr ms # plan n sts"
| "plan n (_ # sts) = plan n sts"

lemma timeline_append [simp]: "timeline (t @ u) = timeline t @ timeline u"
  by (induction t) (auto split: obs.splits)

lemma timeline_bytes [simp]: "timeline (map (Tx s) bs) = []" "timeline (map (Rx s) bs) = []"
  by (induction bs) auto

lemma timeline_langs:
  "tx s bs u \<Longrightarrow> opened u = [] \<and> timeline u = []" "rx s bs u \<Longrightarrow> opened u = [] \<and> timeline u = []"
  "rx_where s P u \<Longrightarrow> opened u = [] \<and> timeline u = []" "rx_perm s ps u \<Longrightarrow> opened u = [] \<and> timeline u = []"
  "quiet s u \<Longrightarrow> opened u = [] \<and> timeline u = []" "dropped s u \<Longrightarrow> opened u = [] \<and> timeline u = []"
  "exactly [Eof s] u \<Longrightarrow> opened u = [] \<and> timeline u = []"
  "exactly [Closed s] u \<Longrightarrow> opened u = [] \<and> timeline u = []"
  by (auto simp: tx_def rx_def rx_where_def rx_perm_def quiet_def dropped_def exactly_def onlyif_def some_def)

lemma cat_timelineE:
  assumes "cat L S t" "\<And>u. L u \<Longrightarrow> opened u = [] \<and> timeline u = []"
    "\<And>v. S v \<Longrightarrow> opened t = opened v \<Longrightarrow> timeline t = timeline v \<Longrightarrow> P"
  shows P
  using assms unfolding cat_def by fastforce

lemma script_timeline:
  "script prt env sts t \<Longrightarrow> timeline t = map (map_sum ((!) (env @ opened t)) id) (plan (length env) sts)"
proof (induction prt env sts arbitrary: t rule: script.induct)
  case (2 prt env sts)
  from 2(2) obtain s v where t: "t = [Connected s prt, TimeoutSet s 5000] @ v"
    and v: "script prt (env @ [s]) sts v" by (auto simp: some_def cat_def exactly_def)
  from 2(1) [OF v] show ?case by (simp add: t)
next
  case (11 prt env ms sts)
  then show ?case by (auto simp: cat_def exactly_def)
qed (simp add: eps_def, (simp only: script.simps plan.simps, erule cat_timelineE, erule timeline_langs, simp)+)

lemma conversation_timeline:
  assumes "conversation exe conns ignore args sts t"
  shows "timeline t = map (map_sum ((!) (opened t)) id) (plan 0 sts)"
proof -
  from assms obtain prt p w x where t: "t = w @ x @ [Exited p 0]"
    and w: "broker_up exe conns ignore args prt p w" and x: "script prt [] sts x"
    unfolding conversation_def some_def cat_def exactly_def by blast
  from w have "opened w = []" "timeline w = []" by (auto simp: broker_up_def)
  with script_timeline [OF x] t show ?thesis by simp
qed

text \<open>For a scenario \<open>m\<close> whose passing transcripts are those of a conversation.\<close>

lemma passing_iff: "ok m u = L \<Longrightarrow> exec m t (Inr u) \<longleftrightarrow> L t"
  by (simp add: ok_def fun_eq_iff)

lemma passing_streams:
  assumes "exec m t (Inr u)" "ok m u = conversation exe conns ignore args sts" "well_formed conns sts"
    "distinct (opened t)" "i < conns"
  shows "sent (opened t ! i) t = outbox i sts" "inbox i sts (received (opened t ! i) t)"
  using conversation_streams [OF _ assms(3-5), of exe ignore args] assms(1,2) by (simp_all add: ok_def fun_eq_iff)

lemma passing_window:
  assumes "exec m t (Inr y)" "ok m y = conversation exe conns ignore args sts" "well_formed conns sts"
    "distinct (opened t)" "opened t = cs" "n < length sts" "sts ! n = Silent j" "opens (drop (Suc n) sts) = 0"
  obtains u x v where "t = u @ [TimeoutSet (cs ! j) 50, x, TimeoutSet (cs ! j) 5000] @ v"
    "x \<in> {Eof (cs ! j), Failed (Recv (cs ! j) 1) SocketTimeout}"
    "\<And>i. i < conns \<Longrightarrow> sent (cs ! i) u = outbox i (take n sts)"
    "\<And>i. i < conns \<Longrightarrow> inbox i (take n sts) (received (cs ! i) u)"
    "\<And>i. i < conns \<Longrightarrow> sent (cs ! i) v = outbox i (drop (Suc n) sts)"
    "\<And>i. i < conns \<Longrightarrow> inbox i (drop (Suc n) sts) (received (cs ! i) v)"
proof -
  from assms(6,7) have "sts = take n sts @ Silent j # drop (Suc n) sts" using id_take_nth_drop by metis
  from conversation_window [OF _ assms(3) this assms(8,4), of exe ignore args] assms(1,2) that show thesis
    by (auto simp: ok_def fun_eq_iff assms(5))
qed

lemma passing_dropped:
  assumes "exec m t (Inr u)" "ok m u = conversation exe conns ignore args sts" "well_formed conns sts"
    "Gone i \<in> set sts"
  shows "\<exists>x \<in> set t. dropped (opened t ! i) [x]"
  using conversation_dropped [OF _ assms(3,4), of exe ignore args] assms(1,2) by (simp add: ok_def fun_eq_iff)

lemma passing_timeline:
  assumes "exec m t (Inr u)" "ok m u = conversation exe conns ignore args sts"
  shows "timeline t = map (map_sum ((!) (opened t)) id) (plan 0 sts)"
  using conversation_timeline [of exe conns ignore args sts t] assms by (simp add: ok_def fun_eq_iff)

lemma passing_opened:
  assumes "exec m t (Inr u)" "ok m u = conversation exe conns ignore args sts" "well_formed conns sts"
  shows "length (opened t) = conns"
  using conversation_opened [OF _ assms(3), of exe ignore args t] assms(1,2) by (simp add: ok_def fun_eq_iff)

section \<open>Conversations that can be held\<close>

text \<open>Every expected packet is a frame and every condition on a packet can be met; then the
  conversation has a transcript.\<close>

fun realizable :: "step list \<Rightarrow> bool" where
  "realizable [] \<longleftrightarrow> True"
| "realizable (Expect i p # sts) \<longleftrightarrow> frame p \<and> realizable sts"
| "realizable (Await i P # sts) \<longleftrightarrow> (\<exists>p. frame p \<and> P p) \<and> realizable sts"
| "realizable (ExpectPerm i ps # sts) \<longleftrightarrow> list_all frame ps \<and> realizable sts"
| "realizable (_ # sts) \<longleftrightarrow> realizable sts"

lemma cat_inhabited: "Ex A \<Longrightarrow> Ex B \<Longrightarrow> Ex (cat A B)"
  unfolding cat_def by blast

lemma langs_inhabited:
  "Ex (tx s bs)" "frame p \<Longrightarrow> Ex (rx s p)" "\<exists>p. frame p \<and> P p \<Longrightarrow> Ex (rx_where s P)"
  "list_all frame ps \<Longrightarrow> Ex (rx_perm s ps)" "Ex (quiet s)" "Ex (dropped s)" "Ex (exactly w)" "Ex eps"
  by (auto simp: tx_def rx_def rx_where_def rx_perm_def quiet_def dropped_def exactly_def onlyif_def
      some_def eps_def list_all_iff)

text \<open>The transcript can be chosen with the connections numbered in the order they are opened.\<close>

lemma cat_inhabited_opened:
  assumes "Ex L" "\<And>u. L u \<Longrightarrow> opened u = []" "\<exists>t. S t \<and> opened t = xs"
  shows "\<exists>t. cat L S t \<and> opened t = xs"
  using assms unfolding cat_def by fastforce

lemma script_inhabited:
  "realizable sts \<Longrightarrow> \<exists>t. script prt env sts t \<and> opened t = [length env..<length env + opens sts]"
proof (induction prt env sts rule: script.induct)
  case (2 prt env sts)
  let ?s = "length env"
  from 2(1) [of ?s] 2(2) obtain t where t: "script prt (env @ [?s]) sts t"
    "opened t = [Suc ?s..<Suc ?s + opens sts]" by auto
  then have "script prt env (Open # sts) ([Connected ?s prt, TimeoutSet ?s 5000] @ t)"
    by (auto simp: some_def cat_def exactly_def)
  moreover have "opened ([Connected ?s prt, TimeoutSet ?s 5000] @ t) = [?s..<?s + opens (Open # sts)]"
    using t(2) by (simp add: upt_conv_Cons)
  ultimately show ?case by blast
qed (simp add: eps_def,
  (simp only: script.simps opens.simps realizable.simps,
   rule cat_inhabited_opened, (rule langs_inhabited; simp; fail), erule opened_langs, simp)+)

lemma conversation_inhabited:
  assumes "realizable sts"
  shows "\<exists>t. conversation exe conns ignore args sts t \<and> opened t = [0..<opens sts]"
proof -
  have "contains ''listening'' ''listening''" by (simp add: startswith_def)
  then obtain u where u: "broker_up exe conns ignore args 1883 0 u"
    unfolding broker_up_def by blast
  then have "opened u = []" by (auto simp: broker_up_def)
  moreover from script_inhabited [OF assms, of 1883 "[]"] obtain v
    where "script 1883 [] sts v" "opened v = [0..<opens sts]" by auto
  ultimately have "opened (u @ v @ [Exited 0 0]) = [0..<opens sts]"
    and "cat (script 1883 [] sts) (exactly [Exited 0 0]) (v @ [Exited 0 0])"
    unfolding cat_def exactly_def by auto
  with u have "conversation exe conns ignore args sts (u @ v @ [Exited 0 0])"
    unfolding conversation_def some_def cat_def [of "broker_up _ _ _ _ _ _"] by blast
  with \<open>opened (u @ v @ [Exited 0 0]) = _\<close> show ?thesis by blast
qed

lemma passing_run:
  assumes "ok m u = conversation exe conns ignore args sts" "realizable sts"
  shows "\<exists>t. exec m t (Inr u) \<and> opened t = [0..<opens sts]"
  using conversation_inhabited [OF assms(2), of exe conns ignore args] assms(1) by (auto simp: ok_def fun_eq_iff)

lemma conversation_held: "realizable sts \<Longrightarrow> Ex (conversation exe conns ignore args sts)"
  using conversation_inhabited by blast

end
