(* ===== verification/Passable.thy ===== *)
theory Passable
  imports Harness Streams
begin

text \<open>
  The scenarios ask for nothing impossible: if the generators produce MQTT packets, then for every
  scenario there are answers of the operating system and of the broker with which it passes.
\<close>

text \<open>What the harness relies on in the generators: each packet it expects is a complete MQTT packet.\<close>

definition framed :: "mqtt_packets \<Rightarrow> bool" where
  "framed mp \<longleftrightarrow>
     (\<forall>a. frame (gen_connack mp a)) \<and> (\<forall>t a. frame (gen_publish mp t a)) \<and>
     (\<forall>m a. frame (gen_puback mp m a)) \<and> (\<forall>m a. frame (gen_pubrec mp m a)) \<and>
     (\<forall>m a. frame (gen_pubrel mp m a)) \<and> (\<forall>m a. frame (gen_pubcomp mp m a)) \<and>
     (\<forall>m q a. frame (gen_suback mp m q a)) \<and> (\<forall>m a. frame (gen_unsuback mp m a)) \<and>
     frame (gen_pingresp mp) \<and> (\<forall>a. frame (gen_disconnect mp a))"

lemma framed_simps:
  assumes "framed mp"
  shows "frame (gen_connack mp a)" "frame (gen_publish mp t a)" "frame (gen_puback mp m a)"
    "frame (gen_pubrec mp m a)" "frame (gen_pubrel mp m a)" "frame (gen_pubcomp mp m a)"
    "frame (gen_suback mp m q a)" "frame (gen_unsuback mp m a)" "frame (gen_pingresp mp)"
    "frame (gen_disconnect mp a)" "frame (expected_connack mp pr c)"
  using assms by (simp_all add: framed_def expected_connack_def)

lemma frame_short: "b AND 0x80 = 0 \<Longrightarrow> frame (f # b # pl) \<longleftrightarrow> length pl = unat (b AND 0x7F)"
  by (simp add: frame_def eval_nat_numeral)

lemma frame_sample: "frame [0x20, 3, x, 0, 0]"
  by (simp add: frame_short)

lemma connacks_exist:
  "\<exists>p. frame p \<and> connack_ok v p" "\<exists>p. frame p \<and> persistent_ok b p" "\<exists>p. frame p \<and> accepted_ok p"
  "\<exists>p. frame p \<and> fresh_ok p"
proof -
  show "\<exists>p. frame p \<and> connack_ok v p" "\<exists>p. frame p \<and> accepted_ok p" "\<exists>p. frame p \<and> fresh_ok p"
    by (rule exI [of _ "[0x20, 3, 0, 0, 0]"],
        simp add: frame_sample connack_ok_def accepted_ok_def fresh_ok_def slice_def)+
  show "\<exists>p. frame p \<and> persistent_ok b p"
    by (rule exI [of _ "[0x20, 3, if b then 1 else 0, 0, 0]"]) (simp add: frame_sample persistent_ok_def)
qed

text \<open>A Remaining Length below 128 is its own single-byte encoding.\<close>

lemma rl_single_all:
  "list_all (\<lambda>k. (of_nat k :: byte) AND 0x80 = 0 \<and> unat ((of_nat k :: byte) AND 0x7F) = k) [0..<128]"
  by code_simp

lemma rl_single:
  "k < 128 \<Longrightarrow> (of_nat k :: byte) AND 0x80 = 0" "k < 128 \<Longrightarrow> unat ((of_nat k :: byte) AND 0x7F) = k"
  using rl_single_all by (auto simp: list_all_iff)

lemma assigned_exists:
  assumes "length (expected_connack mp pr connack_defaults) \<le> 85" "ASSIGNED_CLIENT_IDENTIFIER pr < 256"
    and uuid: "netz_uuid cid"
  shows "\<exists>p. frame p \<and> assigned_connack mp pr cid p"
proof -
  define base where "base = drop 5 (expected_connack mp pr connack_defaults)"
  define n where "n = length base"
  define body :: bytes where "body = [0, 0, of_nat (44 + n), of_nat (ASSIGNED_CLIENT_IDENTIFIER pr), 0, 41] @
    encode_ascii cid @ base"
  have n: "n \<le> 80" using assms(1) by (simp add: n_def base_def)
  have len: "length body = 47 + n" by (simp add: body_def encode_ascii_def length_netz_uuid [OF uuid] n_def)
  have small: "unat (of_nat k :: byte) = k" if "k < 256" for k using that by (simp add: unat_of_nat)
  have rl: "(of_nat (47 + n) :: byte) AND 0x80 = 0" "unat ((of_nat (47 + n) :: byte) AND 0x7F) = 47 + n"
    using rl_single [of "47 + n"] n by simp_all
  have "frame (0x20 # of_nat (47 + n) # body)"
    using rl len by (simp add: frame_short del: of_nat_add)
  moreover have "assigned_connack mp pr cid (0x20 # of_nat (47 + n) # body)"
  proof -
    have "unat (of_nat (44 + n) :: byte) = 44 + n" "unat (of_nat (ASSIGNED_CLIENT_IDENTIFIER pr) :: byte) =
        ASSIGNED_CLIENT_IDENTIFIER pr"
      using n assms(2) by (intro small; simp)+
    with uuid len show ?thesis
      unfolding assigned_connack_def base_def [symmetric]
      by (intro conjI exI [of _ "of_nat (47 + n)"] exI [of _ "of_nat (44 + n)"]
          exI [of _ "of_nat (ASSIGNED_CLIENT_IDENTIFIER pr)"]) (simp_all add: body_def del: of_nat_add)
  qed
  ultimately show ?thesis by blast
qed


section \<open>Every scenario\<close>

lemma passable_basic:
  assumes "framed mp"
  shows "Ex (ok (no_matching_subscribers exe mp rc) ())"
    "Ex (ok (subscription_identifiers exe mp pr) ())"
    "Ex (ok (multiple_subscription_identifiers exe mp pr op) ())"
    "Ex (ok (hostile_initial_packets exe mp) ())"
  unfolding no_matching_subscribers_conv subscription_identifiers_conv
    multiple_subscription_identifiers_conv hostile_initial_packets_conv basic_steps Let_def
  by (rule conversation_held; simp add: step_lists framed_simps [OF assms] connacks_exist upt_rec)+

lemma passable_limits:
  assumes "framed mp"
  shows "Ex (ok (publish_capability_disconnects exe mp pr rc) ())"
    "Ex (ok (maximum_packet_size_disconnect exe mp pr rc) ())"
    "Ex (ok (topic_alias_disconnect exe mp pr rc) ())"
    "Ex (ok (receive_maximum_disconnect exe mp rc) ())"
    "Ex (ok (subscription_capability_disconnects exe mp pr rc) ())"
  unfolding publish_capability_disconnects_conv maximum_packet_size_disconnect_conv
    topic_alias_disconnect_conv receive_maximum_disconnect_conv
    subscription_capability_disconnects_conv limits_steps Let_def
  by (intro cat_inhabited conversation_held; simp add: step_lists framed_simps [OF assms] connacks_exist)+

lemma passable_qos:
  assumes "framed mp"
  shows "Ex (ok (qos2_routes_at_pubrel exe mp) ())"
    "Ex (ok (mixed_version_qos1 exe mp) ())"
    "Ex (ok (persistent_no_local exe mp) ())"
    "Ex (ok (qos2_receive_maximum_one exe mp pr) ())"
    "Ex (ok (maximum_packet_size_qos1 exe mp pr) ())"
    "Ex (ok (maximum_packet_size_qos2 exe mp pr) ())"
    "Ex (ok (qos2_duplicate_publish exe mp) ())"
    "Ex (ok (qos2_repeated_pubrel exe mp) ())"
  unfolding qos2_routes_at_pubrel_conv mixed_version_qos1_conv persistent_no_local_conv
    qos2_receive_maximum_one_conv maximum_packet_size_qos1_conv maximum_packet_size_qos2_conv
    qos2_duplicate_publish_conv qos2_repeated_pubrel_conv qos_steps Let_def
  by (rule conversation_held; simp add: step_lists framed_simps [OF assms] connacks_exist)+

lemma passable_forwarding:
  assumes "framed mp"
  shows "Ex (ok (retained_subscription_handling exe mp op) ())"
    "Ex (ok (incoming_topic_alias exe mp pr) ())"
    "Ex (ok (outgoing_topic_alias exe mp pr) ())"
    "Ex (ok (request_response_properties exe mp pr) ())"
    "Ex (ok (disconnect_with_will_properties exe mp pr) ())"
    "Ex (ok (shared_subscription_rotation exe mp) ())"
    "Ex (ok (reject_publish_subscription_identifier exe mp pr) ())"
    "Ex (ok (unsubscribe_reason_codes exe mp) ())"
  unfolding retained_subscription_handling_conv incoming_topic_alias_conv outgoing_topic_alias_conv
    request_response_properties_conv disconnect_with_will_properties_conv
    shared_subscription_rotation_conv reject_publish_subscription_identifier_conv
    unsubscribe_reason_codes_conv forwarding_steps Let_def
  by (rule conversation_held;
      simp add: step_lists framed_simps [OF assms] connacks_exist upt_rec numeral_eq_Suc)+

lemma passable_retained:
  assumes "framed mp"
  shows "Ex (ok (retained_message_expiry exe mp pr rc) ())"
    "Ex (ok (retained_repeated_lifecycle exe mp) ())"
    "Ex (ok (retained_multilevel_clear exe mp) ())"
    "Ex (ok (retain_as_published_live exe mp op) ())"
    "Ex (ok (retained_replacement exe mp pr) ())"
    "Ex (ok (retained_publish_property_bundle exe mp pr) ())"
    "Ex (ok (retained_tombstone_properties exe mp pr) ())"
  unfolding retained_message_expiry_conv retained_repeated_lifecycle_conv
    retained_multilevel_clear_conv retain_as_published_live_conv retained_replacement_conv
    retained_publish_property_bundle_conv retained_tombstone_properties_conv retained_steps Let_def
  by (rule conversation_held; simp add: step_lists framed_simps [OF assms] connacks_exist;
      (use framed_simps [OF assms] in blast)?)+

lemma passable_session:
  assumes "framed mp"
  shows "Ex (ok (server_keep_alive exe mp pr) ())"
    "Ex (ok (duplicate_client_takeover exe mp pr rc) ())"
    "Ex (ok (disconnect_session_expiry exe mp pr) ())"
  unfolding server_keep_alive_conv duplicate_client_takeover_conv disconnect_session_expiry_conv session_steps Let_def
  by (rule conversation_held; simp add: step_lists framed_simps [OF assms] connacks_exist)+

lemma passable_assigned:
  assumes "framed mp" "length (expected_connack mp pr connack_defaults) \<le> 85"
    "ASSIGNED_CLIENT_IDENTIFIER pr < 256"
  shows "Ex (ok (assigned_client_identifier exe mp pr) ())"
proof -
  define a b where "a = ''netz-00000000-0000-0000-0000-000000000000''"
    and "b = ''netz-00000000-0000-0000-0000-000000000001''"
  have "netz_uuid a" "netz_uuid b" "a \<noteq> b"
    unfolding netz_uuid_iff a_def b_def by (simp_all add: removeprefix_def startswith_def hex_digits_def)
  with assigned_exists [OF assms(2,3)] have "\<exists>p. frame p \<and> assigned_connack mp pr a p"
    "\<exists>p. frame p \<and> assigned_connack mp pr b p" by blast+
  then have "Ex (conversation exe 2 False []
       ([Open, Open, Send 0 h, Await 0 (assigned_connack mp pr a), Send 1 h, Await 1 (assigned_connack mp pr b)] @
        Ping mp 0 @ [Bye mp 0, Bye mp 1, Shut 1, Shut 0]))" for h
    by (intro conversation_held) (simp add: step_lists framed_simps [OF assms(1)])
  with \<open>a \<noteq> b\<close> show ?thesis
    unfolding assigned_client_identifier_conv Let_def some_def onlyif_def by blast
qed

lemmas passable_all = passable_basic passable_limits passable_qos passable_forwarding passable_retained
  passable_session

lemma seq_inhabited: "list_all (\<lambda>m. Ex (ok m ())) ms \<Longrightarrow> Ex (ok (seq ms) ())"
  by (induction ms) (auto simp: ok_seq intro: langs_inhabited cat_inhabited)

lemma scenarios_passable:
  assumes "framed mp" "length (expected_connack mp pr connack_defaults) \<le> 85"
    "ASSIGNED_CLIENT_IDENTIFIER pr < 256"
  shows "Ex (ok (seq (scenarios exe mp pr rc op)) ())"
  by (rule seq_inhabited) (simp add: scenarios_def passable_all [OF assms(1)] passable_assigned [OF assms])

section \<open>Sample generators\<close>

text \<open>Generators with which the statements about arbitrary generators can be tried: every packet is
  empty but for its type, and a CONNACK accepts the connection.\<close>

definition sample_packets :: mqtt_packets where
  "sample_packets = \<lparr>gen_connect = (\<lambda>_ _. [0x10, 0]), gen_connack = (\<lambda>_. [0x20, 3, 0, 0, 0]),
     gen_publish = (\<lambda>_ _. [0x30, 0]), gen_puback = (\<lambda>_ _. [0x40, 0]), gen_pubrec = (\<lambda>_ _. [0x50, 0]),
     gen_pubrel = (\<lambda>_ _. [0x62, 0]), gen_pubcomp = (\<lambda>_ _. [0x70, 0]), gen_subscribe = (\<lambda>_ _ _ _. [0x82, 0]),
     gen_suback = (\<lambda>_ _ _. [0x90, 0]), gen_unsubscribe = (\<lambda>_ _ _. [0xA2, 0]),
     gen_unsubscribe_multiple = (\<lambda>_ _ _. [0xA2, 0]), gen_unsuback = (\<lambda>_ _. [0xB0, 0]),
     gen_pingreq = [0xC0, 0], gen_pingresp = [0xD0, 0], gen_disconnect = (\<lambda>_. [0xE0, 0])\<rparr>"

definition sample_props :: mqtt5_props where
  "sample_props = \<lparr>gen_byte_prop = (\<lambda>i v. [of_nat i, of_nat v]), gen_uint16_prop = (\<lambda>i v. [of_nat i, 0, of_nat v]),
     gen_uint32_prop = (\<lambda>i v. [of_nat i, 0, 0, 0, of_nat v]), gen_varint_prop = (\<lambda>i v. [of_nat i, of_nat v]),
     gen_string_prop = (\<lambda>i s. [of_nat i]), gen_string_pair_prop = (\<lambda>i k v. [of_nat i]),
     PAYLOAD_FORMAT_INDICATOR = 1, MESSAGE_EXPIRY_INTERVAL = 2, CONTENT_TYPE = 3, RESPONSE_TOPIC = 8,
     CORRELATION_DATA = 9, SUBSCRIPTION_IDENTIFIER = 11, SESSION_EXPIRY_INTERVAL = 17,
     ASSIGNED_CLIENT_IDENTIFIER = 18, SERVER_KEEP_ALIVE = 19, WILL_DELAY_INTERVAL = 24,
     RECEIVE_MAXIMUM = 33, TOPIC_ALIAS_MAXIMUM = 34, TOPIC_ALIAS = 35, MAXIMUM_QOS = 36,
     RETAIN_AVAILABLE = 37, USER_PROPERTY = 38, MAXIMUM_PACKET_SIZE = 39, WILDCARD_SUB_AVAILABLE = 40,
     SUBSCRIPTION_ID_AVAILABLE = 41, SHARED_SUB_AVAILABLE = 42\<rparr>"

definition sample_rc :: mqtt5_rc where
  "sample_rc = \<lparr>NO_MATCHING_SUBSCRIBERS = 0x10, SESSION_TAKEN_OVER = 0x8E, RECEIVE_MAXIMUM_EXCEEDED = 0x93,
     TOPIC_ALIAS_INVALID = 0x94, PACKET_TOO_LARGE = 0x95, RETAIN_NOT_SUPPORTED = 0x9A,
     QOS_NOT_SUPPORTED = 0x9B, SHARED_SUBS_NOT_SUPPORTED = 0x9E, SUBSCRIPTION_IDS_NOT_SUPPORTED = 0xA1,
     WILDCARD_SUBS_NOT_SUPPORTED = 0xA2\<rparr>"

definition sample_opts :: mqtt5_opts where
  "sample_opts = \<lparr>MQTT_SUB_OPT_RETAIN_AS_PUBLISHED = 8, MQTT_SUB_OPT_SEND_RETAIN_ALWAYS = 0,
     MQTT_SUB_OPT_SEND_RETAIN_NEW = 16, MQTT_SUB_OPT_SEND_RETAIN_NEVER = 32\<rparr>"

lemma framed_sample: "framed sample_packets"
  by (simp add: framed_def sample_packets_def frame_short)

lemma sample_connack: "length (expected_connack sample_packets sample_props connack_defaults) \<le> 85"
  by (simp add: expected_connack_def sample_packets_def)

lemma sample_assigned: "ASSIGNED_CLIENT_IDENTIFIER sample_props < 256"
  by (simp add: sample_props_def)

lemma sample_main: "\<exists>t. exec (main exe sample_packets sample_props rc op) t (Inr ())"
  using scenarios_passable [OF framed_sample sample_connack sample_assigned]
  unfolding exec_main_ok ok_def by blast

end
