(* ===== verification/Remaining_Length.thy ===== *)
theory Remaining_Length
  imports Wire
begin

text \<open>
  The other end of the wire: the Remaining Length codec of the broker
  (\<^verbatim>\<open>encodeRemainingLength\<close>, \<^verbatim>\<open>decodeRemainingLength\<close> and
  \<^verbatim>\<open>remainingLengthEncodedLen\<close> of \<^verbatim>\<open>src/mqtt/mod.zig\<close>). The lemmas relate it to the
  reader of the harness: what the broker writes the harness reads, and what the broker accepts the
  harness splits in the same way. A \<^verbatim>\<open>usize\<close> is a \<^typ>\<open>nat\<close>: the encoder refuses values
  above 268435455 and the decoder stops after four bytes, so no value comes near \<open>2 ^ 32\<close>.
  Running out of memory in \<^verbatim>\<open>list.append\<close> is not modelled.
\<close>

section \<open>The code\<close>

text \<open>The members of the error set \<^verbatim>\<open>Error\<close> that the modelled functions return.\<close>

datatype zig_error = BufferTooShort | MalformedRemainingLength | RemainingLengthTooLarge
  | InvalidPacketType | InvalidFlags

fun encode_loop :: "nat \<Rightarrow> bytes" where
  "encode_loop x =
     (let encoded = of_nat (x mod 128); x' = x div 128;
          encoded' = (if x' > 0 then encoded OR 128 else encoded)
      in encoded' # (if x' = 0 then [] else encode_loop x'))"

declare encode_loop.simps [simp del]

definition encodeRemainingLength :: "nat \<Rightarrow> zig_error + bytes" where
  "encodeRemainingLength v = (if v > 268435455 then Inl RemainingLengthTooLarge else Inr (encode_loop v))"

definition remainingLengthEncodedLen :: "nat \<Rightarrow> nat" where
  "remainingLengthEncodedLen v =
     (if v < 128 then 1 else if v < 128 * 128 then 2 else if v < 128 * 128 * 128 then 3 else 4)"

fun decode_loop :: "bytes \<Rightarrow> nat \<Rightarrow> nat \<Rightarrow> nat \<Rightarrow> zig_error + (nat \<times> nat)" where
  "decode_loop [] i multiplier v = Inl BufferTooShort"
| "decode_loop (byte # bytes) i multiplier v =
     (let v' = v + unat (byte AND 127) * multiplier in
      if byte AND 128 = 0 then
        (let len = i + 1 in
         if remainingLengthEncodedLen v' \<noteq> len then Inl MalformedRemainingLength else Inr (v', len))
      else
        (let multiplier' = multiplier * 128 in
         if multiplier' > 128 * 128 * 128 then Inl MalformedRemainingLength
         else decode_loop bytes (i + 1) multiplier' v'))"

definition decodeRemainingLength :: "bytes \<Rightarrow> zig_error + (nat \<times> nat)" where
  "decodeRemainingLength bs = decode_loop bs 0 1 0"

section \<open>The encoder\<close>

lemma low_digits_all:
  "list_all (\<lambda>k. (of_nat k :: byte) AND 128 = 0 \<and> unat ((of_nat k :: byte) AND 127) = k \<and>
     (of_nat k OR 128 :: byte) AND 128 \<noteq> 0 \<and> unat ((of_nat k OR 128 :: byte) AND 127) = k) [0..<128]"
  by code_simp

lemma low_digits:
  assumes "k < 128"
  shows "(of_nat k :: byte) AND 128 = 0" "unat ((of_nat k :: byte) AND 127) = k"
    "(of_nat k OR 128 :: byte) AND 128 \<noteq> 0" "unat ((of_nat k OR 128 :: byte) AND 127) = k"
  using low_digits_all assms by (simp_all add: list_all_iff)

lemma split_encode: "n < 128 ^ Suc m \<Longrightarrow> split_rl (Suc m) (encode_loop n @ rest) = Some (encode_loop n, rest)"
proof (induction m arbitrary: n)
  case 0
  then show ?case using low_digits [of n] by (subst (1 2) encode_loop.simps) simp
next
  case (Suc m)
  have d: "n mod 128 < 128" by simp
  show ?case
  proof (cases "n div 128 = 0")
    case True
    then show ?thesis using low_digits [OF d] by (subst (1 2) encode_loop.simps) simp
  next
    case False
    moreover have "n div 128 < 128 ^ Suc m" using Suc.prems by (simp add: less_mult_imp_div_less mult.commute)
    ultimately show ?thesis
      using low_digits [OF d] Suc.IH [of "n div 128"] by (subst (1 2) encode_loop.simps) simp
  qed
qed

lemma rl_val_encode: "rl_val (encode_loop n) = n"
proof (induction n rule: encode_loop.induct)
  case (1 x)
  have d: "x mod 128 < 128" by simp
  have IH: "rl_val (encode_loop (x div 128)) = x div 128" if "x div 128 \<noteq> 0"
    using 1 that by auto
  show ?case
  proof (cases "x div 128 = 0")
    case True
    then show ?thesis using low_digits [OF d] by (subst encode_loop.simps) simp
  next
    case False
    then show ?thesis using low_digits [OF d] IH by (subst encode_loop.simps) simp
  qed
qed

lemma length_encode: "n \<le> 268435455 \<Longrightarrow> length (encode_loop n) = remainingLengthEncodedLen n"
proof -
  assume n: "n \<le> 268435455"
  have step: "length (encode_loop x) = Suc (if x < 128 then 0 else length (encode_loop (x div 128)))" for x
    by (subst encode_loop.simps) (simp add: Let_def div_eq_0_iff)
  have div2: "n div 128 div 128 = n div 16384" and div3: "n div 16384 div 128 = n div 2097152"
    by (simp_all add: div_mult2_eq [symmetric])
  show ?thesis
    unfolding remainingLengthEncodedLen_def step [of n] step [of "n div 128"] div2
      step [of "n div 16384"] div3 step [of "n div 2097152"]
    using n by (auto simp: div_less_iff_less_mult)
qed

section \<open>The decoder\<close>

lemma decode_loop_Inr:
  "i < 4 \<Longrightarrow> decode_loop bs i (128 ^ i) v = Inr (w, k) \<longleftrightarrow>
     (\<exists>rl pl. split_rl (4 - i) bs = Some (rl, pl) \<and> w = v + 128 ^ i * rl_val rl \<and> k = i + length rl \<and>
        remainingLengthEncodedLen w = k)"
proof (induction bs arbitrary: i v)
  case Nil
  then have "4 - i = Suc (3 - i)" by simp
  then show ?case by simp
next
  case (Cons b bs)
  from Cons.prems have four: "4 - i = Suc (3 - i)" by simp
  show ?case
  proof (cases "b AND 128 = 0")
    case True
    then show ?thesis by (auto simp: four Let_def mult.commute)
  next
    case False
    show ?thesis
    proof (cases "i = 3")
      case True
      with False show ?thesis by (simp add: Let_def)
    next
      case i: False
      with Cons.prems have "Suc i < 4" "3 - i = 4 - Suc i" by simp_all
      moreover have "\<not> (128 :: nat) ^ i * 128 > 128 * 128 * 128"
        using multiplier_bound [of i] Cons.prems i by (simp add: not_less)
      ultimately have "decode_loop (b # bs) i (128 ^ i) v =
          decode_loop bs (Suc i) (128 ^ Suc i) (v + unat (b AND 127) * 128 ^ i)"
        and "split_rl (4 - i) (b # bs) = map_option (\<lambda>(rl, rest). (b # rl, rest)) (split_rl (4 - Suc i) bs)"
        using False by (simp_all add: four Let_def mult.commute)
      then show ?thesis
        by (simp only: Cons.IH [OF \<open>Suc i < 4\<close>]) (force simp: algebra_simps)
    qed
  qed
qed

lemma decode_iff:
  "decodeRemainingLength bs = Inr (v, k) \<longleftrightarrow>
     (\<exists>rl pl. split_rl 4 bs = Some (rl, pl) \<and> v = rl_val rl \<and> k = length rl \<and> remainingLengthEncodedLen v = k)"
  using decode_loop_Inr [of 0 bs 0 v k] by (simp add: decodeRemainingLength_def)

text \<open>Remaining Lengths of the same number of bytes and the same value are equal.\<close>

lemma high_bit_all:
  "list_all (\<lambda>k. (of_nat k :: byte) AND 128 = 0 \<or> (of_nat k :: byte) AND 128 = 128) [0..<256]"
  by code_simp

lemma byte_digit_unique:
  assumes "(b :: byte) AND 127 = c AND 127" "b AND 128 = 0 \<longleftrightarrow> c AND 128 = 0"
  shows "b = c"
proof -
  have all: "(127 OR 128 :: byte) = - 1" by simp
  have split: "(x AND 127) OR (x AND 128) = x" for x :: byte
    unfolding bit.conj_disj_distrib [symmetric] all by (rule bit.conj_one_right)
  have "x AND 128 = 0 \<or> x AND 128 = 128" for x :: byte
  proof -
    have "unat x \<in> set [0..<256]" using unsigned_less [of x, where ?'a = nat] by simp
    with high_bit_all have "(of_nat (unat x) :: byte) AND 128 = 0 \<or> (of_nat (unat x) :: byte) AND 128 = 128"
      unfolding list_all_iff by blast
    then show ?thesis by simp
  qed
  with assms(2) have "b AND 128 = c AND 128" by metis
  with assms(1) split [of b] split [of c] show ?thesis by metis
qed

lemma rl_unique:
  "rl_bytes n rl \<Longrightarrow> rl_bytes m rl' \<Longrightarrow> length rl = length rl' \<Longrightarrow> rl_val rl = rl_val rl' \<Longrightarrow> rl = rl'"
proof (induction n rl arbitrary: m rl' rule: rl_bytes.induct)
  case (3 n b bs)
  then obtain c cs k where rl': "rl' = c # cs" "m = Suc k" by (cases rl'; cases m) auto
  have small: "unat (x AND 127) < 128" for x :: byte
    using word_and_le1 [of x 127] by (simp add: word_le_nat_alt)
  from 3(5) rl' have "unat (b AND 127) + 128 * rl_val bs = unat (c AND 127) + 128 * rl_val cs" by simp
  from arg_cong [OF this, of "\<lambda>x. x mod 128"] arg_cong [OF this, of "\<lambda>x. x div 128"]
  have low: "unat (b AND 127) = unat (c AND 127)" and high: "rl_val bs = rl_val cs"
    using small [of b] small [of c] by simp_all
  from low have "b AND 127 = c AND 127" by (simp only: word_unat_eq_iff)
  moreover have flag: "b AND 128 = 0 \<longleftrightarrow> c AND 128 = 0"
    using 3(2,3,4) rl' by (auto split: if_splits)
  ultimately have "b = c" by (rule byte_digit_unique)
  moreover have "bs = cs"
  proof (cases "b AND 128 = 0")
    case True
    with flag 3(2,3) rl' show ?thesis by simp
  next
    case False
    with flag 3(1) [of k cs] 3(2,3,4) rl' high show ?thesis by simp
  qed
  ultimately show ?case by (simp add: rl')
qed auto

section \<open>Both ends\<close>

lemma split_encode4: "n \<le> 268435455 \<Longrightarrow> split_rl 4 (encode_loop n @ rest) = Some (encode_loop n, rest)"
  using split_encode [of n 3 rest] by simp

lemma rl_bytes_encode: "n \<le> 268435455 \<Longrightarrow> rl_bytes 4 (encode_loop n)"
  using split_encode4 [of n "[]"] by (simp only: split_rl_iff)

lemma rl_val_bound: "rl_bytes n rl \<Longrightarrow> rl_val rl < 128 ^ n"
proof (induction n rl rule: rl_bytes.induct)
  case (3 n b bs)
  have small: "unat (b AND 127) < 128" using word_and_le1 [of b 127] by (simp add: word_le_nat_alt)
  show ?case
  proof (cases "bs = []")
    case True
    have "unat (b AND 127) < 128 * 128 ^ n" using small by (rule less_le_trans) simp
    with True show ?thesis by simp
  next
    case False
    with 3 have "rl_val bs < 128 ^ n" by (auto split: if_splits)
    with small show ?thesis by simp
  qed
qed auto

lemma decode_encode:
  "n \<le> 268435455 \<Longrightarrow> decodeRemainingLength (encode_loop n @ rest) = Inr (n, length (encode_loop n))"
  unfolding decode_iff by (simp add: split_encode4 rl_val_encode length_encode)

lemma decode_canonical:
  assumes "decodeRemainingLength bs = Inr (v, k)"
  shows "v \<le> 268435455 \<and> k = length (encode_loop v) \<and> bs = encode_loop v @ drop k bs"
proof -
  from assms obtain rl pl where rl: "split_rl 4 bs = Some (rl, pl)" "v = rl_val rl" "k = length rl"
    "remainingLengthEncodedLen v = k" unfolding decode_iff by blast
  then have bs: "bs = rl @ pl" "rl_bytes 4 rl" by (auto simp: split_rl_iff)
  have "rl_val rl < 128 ^ 4" using bs(2) by (rule rl_val_bound)
  then have v: "v \<le> 268435455" unfolding rl(2) by simp
  have "length rl = length (encode_loop v)" "rl_val rl = rl_val (encode_loop v)"
    using rl(2,3,4) length_encode [OF v] rl_val_encode [of v] by metis+
  then have "rl = encode_loop v" by (rule rl_unique [OF bs(2) rl_bytes_encode [OF v]])
  with v bs(1) rl(3) show ?thesis by simp
qed

lemma frame_encode: "n \<le> 268435455 \<Longrightarrow> frame (f # encode_loop n @ pl) \<longleftrightarrow> length pl = n"
  by (simp add: frame_def split_encode4 rl_val_encode)

text \<open>The harness also reads a length that takes more bytes than it needs.\<close>

lemma frame_overlong: "frame [f, 0x80, 0]"
proof -
  have four: "(4 :: nat) = Suc (Suc (Suc (Suc 0)))" by simp
  show ?thesis unfolding frame_def four by simp
qed

lemma frame_bound: "frame p \<Longrightarrow> length p \<le> 5 + 268435455"
proof -
  assume "frame p"
  then obtain f rl pl where "p = f # rl @ pl" "rl_bytes 4 rl" "length pl = rl_val rl" by (auto simp: frame_iff)
  moreover have len: "rl_bytes n xs \<Longrightarrow> length xs \<le> n" for n xs
    by (induction n xs rule: rl_bytes.induct) (auto split: if_splits)
  from calculation have "rl_val rl < 128 ^ 4" "length rl \<le> 4" using rl_val_bound len by blast+
  ultimately show ?thesis by simp
qed

end
