(* ===== verification/Bounded.thy ===== *)
theory Bounded
  imports Remaining_Length
begin

text \<open>
  How many calls a piece of the harness makes before it ends, against every environment that keeps to
  the contract of the calls: the loops of \<^verbatim>\<open>recv_exact\<close> and \<^verbatim>\<open>read_packet\<close> end because
  every \<^verbatim>\<open>recv\<close> that does not end them brings at least one byte nearer to the bytes wanted.
\<close>

primrec bounded :: "'a prog \<Rightarrow> nat \<Rightarrow> bool" where
  "bounded (Ret x) n = True"
| "bounded (Raise e) n = True"
| "bounded (Call p k) n = (0 < n \<and> (\<forall>a. answers p a \<longrightarrow> bounded (k a) (n - 1)))"

lemma bounded_mono: "bounded m j \<Longrightarrow> j \<le> k \<Longrightarrow> bounded m k"
proof (induction m arbitrary: j k)
  case (Call p f)
  then show ?case by (auto intro: Call.IH [OF rangeI, of _ "j - 1" "k - 1"])
qed auto

text \<open>Only the values that the first part can return matter for the second.\<close>

lemma bounded_bind:
  "bounded m j \<Longrightarrow> (\<And>t x. exec m t (Inr x) \<Longrightarrow> bounded (f x) k) \<Longrightarrow> bounded (bind m f) (j + k)"
proof (induction m arbitrary: j)
  case (Ret x)
  then show ?case by (auto intro: bounded_mono [of _ k])
next
  case (Call p g)
  have "bounded (bind (g a) f) (j - 1 + k)" if "answers p a" for a
  proof (rule Call.IH [OF rangeI])
    show "bounded (g a) (j - 1)" using Call.prems(1) that by simp
    show "bounded (f x) k" if "exec (g a) t (Inr x)" for t x
      by (rule Call.prems(2), rule exec_call [where k = g, OF \<open>answers p a\<close> that])
  qed
  with Call.prems(1) show ?case by (auto simp: add.commute)
qed simp

lemma bounded_recv: "bounded (recv s n) 1"
  by (simp add: recv_def bytes_call_def split: answer.splits)

lemma bounded_item: "bounded (item xs i) 0"
  by (simp add: item_def)

lemma bounded_recv_loop: "bounded (recv_loop s wanted res) (wanted - length res)"
proof (induction s wanted res rule: recv_loop.induct)
  case (1 s wanted res)
  show ?case
  proof (cases "length res < wanted")
    case True
    have "bounded (if part = [] then Raise (AssertionError ''broker closed before complete packet'')
          else recv_loop s wanted (res @ part)) (wanted - length res - 1)" for part
    proof (cases "part = []")
      case False
      from 1 [OF True False] show ?thesis
        using False by (auto elim!: bounded_mono simp: neq_Nil_conv)
    qed simp
    then have "bounded (recv_loop s wanted res) (1 + (wanted - length res - 1))"
      using True by (subst recv_loop.simps) (simp only: if_True, rule bounded_bind [OF bounded_recv])
    then show ?thesis by (rule bounded_mono) (insert True, simp)
  qed (subst recv_loop.simps, simp)
qed

lemma bounded_recv_exact: "bounded (recv_exact s n) n"
  using bounded_recv_loop [of s n "[]"] by (simp add: recv_exact_def)

lemma bounded_read_remaining: "k < 4 \<Longrightarrow> bounded (read_remaining s k rb rem) (4 - k)"
proof (induction s k rb rem rule: read_remaining.induct)
  case (1 s k rb rem)
  have "bounded (read_remaining s (Suc k) (rb @ [b]) (rem + unat (b AND 0x7F) * 128 ^ k)) (3 - k)"
    if "b AND 0x80 \<noteq> 0" "\<not> 128 ^ Suc k > (128 * 128 * 128 :: nat)" for b
  proof -
    from that(2) have "Suc k < 4" by (simp add: not_less multiplier_bound)
    with 1(1) [OF refl refl that] show ?thesis by simp
  qed
  then have "bounded (bind (item c 0) (\<lambda>b. let rb' = rb @ [b]; rem' = rem + unat (b AND 0x7F) * 128 ^ k
       in if b AND 0x80 = 0 then Ret (rb', rem')
          else if 128 ^ Suc k > (128 * 128 * 128 :: nat)
            then Raise (AssertionError ''malformed MQTT Remaining Length'')
          else read_remaining s (Suc k) rb' rem')) (0 + (3 - k))" for c
    by (intro bounded_bind [OF bounded_item]) (simp only: Let_def bounded.simps split: if_split, blast)
  then have "bounded (read_remaining s k rb rem) (1 + (3 - k))"
    unfolding read_remaining.simps [of s k rb rem] add_0 by (rule bounded_bind [OF bounded_recv_exact])
  then show ?case by (rule bounded_mono) (insert 1(2), simp)
qed

lemma bounded_read_packet: "bounded (read_packet s) (1 + (4 + 268435455))"
proof -
  have "bounded (bind (recv_exact s remaining) (\<lambda>payload. Ret (fixed @ rb @ payload))) 268435455"
    if "exec (read_remaining s 0 [] 0) t (Inr (rb, remaining))" for fixed rb remaining t
  proof -
    from that obtain rl where "rl_bytes 4 rl" "remaining = rl_val rl"
      by (auto simp: exec_read_remaining_ok)
    with rl_val_bound [of 4 rl] have "remaining \<le> 268435455" by simp
    moreover have "bounded (bind (recv_exact s remaining) (\<lambda>payload. Ret (fixed @ rb @ payload))) (remaining + 0)"
      by (intro bounded_bind bounded_recv_exact) simp
    ultimately show ?thesis by (auto intro: bounded_mono)
  qed
  then have "bounded (bind (read_remaining s 0 [] 0) (\<lambda>(rb, remaining).
     bind (recv_exact s remaining) (\<lambda>payload. Ret (fixed @ rb @ payload)))) (4 + 268435455)" for fixed
    using bounded_read_remaining [of 0 s "[]" 0] by (intro bounded_bind) auto
  then show ?thesis unfolding read_packet_def by (rule bounded_bind [OF bounded_recv_exact])
qed

end
