(* ===== verification/Fixed_Header.thy ===== *)
theory Fixed_Header
  imports Remaining_Length
begin

text \<open>
  The fixed header of the broker's packets (\<^verbatim>\<open>PacketType\<close>, \<^verbatim>\<open>FixedHeader.parse\<close>,
  \<^verbatim>\<open>FixedHeader.write\<close>, \<^verbatim>\<open>validateControlFlags\<close>, \<^verbatim>\<open>validatePacketBounds\<close> of
  \<^verbatim>\<open>src/mqtt/mod.zig\<close>). A header that is written is parsed again as it was; where the broker
  parses a header, its check of the packet's bounds and the harness's reader agree on where the packet ends.
  A \<^verbatim>\<open>u4\<close> is a word of four bits. \<^verbatim>\<open>usize\<close> is a \<^typ>\<open>nat\<close>; the checked addition in
  \<^verbatim>\<open>validatePacketBounds\<close> is written for 64 bits.
\<close>

section \<open>The code\<close>

type_synonym nibble = "4 word"

datatype packet_type = pt_connect | pt_connack | pt_publish | pt_puback | pt_pubrec | pt_pubrel | pt_pubcomp
  | pt_subscribe | pt_suback | pt_unsubscribe | pt_unsuback | pt_pingreq | pt_pingresp | pt_disconnect | pt_auth

primrec intFromEnum :: "packet_type \<Rightarrow> nibble" where
  "intFromEnum pt_connect = 1"
| "intFromEnum pt_connack = 2"
| "intFromEnum pt_publish = 3"
| "intFromEnum pt_puback = 4"
| "intFromEnum pt_pubrec = 5"
| "intFromEnum pt_pubrel = 6"
| "intFromEnum pt_pubcomp = 7"
| "intFromEnum pt_subscribe = 8"
| "intFromEnum pt_suback = 9"
| "intFromEnum pt_unsubscribe = 10"
| "intFromEnum pt_unsuback = 11"
| "intFromEnum pt_pingreq = 12"
| "intFromEnum pt_pingresp = 13"
| "intFromEnum pt_disconnect = 14"
| "intFromEnum pt_auth = 15"

text \<open>\<^verbatim>\<open>std.enums.fromInt\<close>: the constructor with the given number, if there is one.\<close>

definition fromInt :: "nibble \<Rightarrow> packet_type option" where
  "fromInt n = List.find (\<lambda>p. intFromEnum p = n)
     [pt_connect, pt_connack, pt_publish, pt_puback, pt_pubrec, pt_pubrel, pt_pubcomp, pt_subscribe, pt_suback,
      pt_unsubscribe, pt_unsuback, pt_pingreq, pt_pingresp, pt_disconnect, pt_auth]"

definition defaultFlags :: "packet_type \<Rightarrow> nibble" where
  "defaultFlags p = (case p of pt_publish \<Rightarrow> 0
     | pt_pubrel \<Rightarrow> 2 | pt_subscribe \<Rightarrow> 2 | pt_unsubscribe \<Rightarrow> 2 | _ \<Rightarrow> 0)"

record fixed_header =
  packet_type :: packet_type
  flags :: nibble
  remaining_len :: nat
  header_len :: nat

definition parse :: "bytes \<Rightarrow> zig_error + fixed_header" where
  "parse bytes =
     (if length bytes < 2 then Inl BufferTooShort
      else let packet_nibble = (ucast (drop_bit 4 (bytes ! 0)) :: nibble) in
      if packet_nibble = 0 then Inl InvalidPacketType
      else case fromInt packet_nibble of None \<Rightarrow> Inl InvalidPacketType | Some ptype \<Rightarrow>
        (case decodeRemainingLength (drop 1 bytes) of Inl e \<Rightarrow> Inl e | Inr (v, len) \<Rightarrow>
          Inr \<lparr>packet_type = ptype, flags = ucast (bytes ! 0 AND 0x0F), remaining_len = v,
            header_len = 1 + len\<rparr>))"

text \<open>\<^verbatim>\<open>write\<close> appends to a list: the first byte is appended even where the length is then refused.\<close>

definition write_header :: "fixed_header \<Rightarrow> bytes \<Rightarrow> bytes \<times> (zig_error + unit)" where
  "write_header self list =
     (let list = list @ [push_bit 4 (ucast (intFromEnum (packet_type self))) OR ucast (flags self)] in
      case encodeRemainingLength (remaining_len self) of
        Inl e \<Rightarrow> (list, Inl e) | Inr encoded \<Rightarrow> (list @ encoded, Inr ()))"

definition validateControlFlags :: "fixed_header \<Rightarrow> zig_error + unit" where
  "validateControlFlags fixed =
     (if packet_type fixed \<noteq> pt_publish \<and> flags fixed \<noteq> defaultFlags (packet_type fixed)
      then Inl InvalidFlags else Inr ())"

definition validatePacketBounds :: "bytes \<Rightarrow> fixed_header \<Rightarrow> zig_error + unit" where
  "validatePacketBounds packet fixed =
     (if header_len fixed + remaining_len fixed \<ge> 2 ^ 64 then Inl RemainingLengthTooLarge
      else let total = header_len fixed + remaining_len fixed in
      if length packet < total then Inl BufferTooShort
      else if length packet \<noteq> total then Inl InvalidPacketType
      else Inr ())"

section \<open>The first byte\<close>

lemma fromInt_intFromEnum [simp]: "fromInt (intFromEnum p) = Some p"
  by (cases p) (simp_all add: fromInt_def)

lemma intFromEnum_not_0 [simp]: "intFromEnum p \<noteq> 0"
  by (cases p) simp_all

lemma first_byte_all:
  "list_all (\<lambda>k. list_all (\<lambda>f.
     ucast (drop_bit 4 (push_bit 4 (ucast (of_nat k :: nibble)) OR ucast (of_nat f :: nibble) :: byte)) = (of_nat k :: nibble) \<and>
     ucast ((push_bit 4 (ucast (of_nat k :: nibble)) OR ucast (of_nat f :: nibble) :: byte) AND 0x0F) = (of_nat f :: nibble))
     [0..<16]) [0..<16]"
  by code_simp

lemma first_byte:
  "ucast (drop_bit 4 (push_bit 4 (ucast k) OR ucast f :: byte)) = (k :: nibble)"
  "ucast ((push_bit 4 (ucast k) OR ucast f :: byte) AND 0x0F) = (f :: nibble)"
proof -
  have "unat k \<in> set [0..<16]" "unat f \<in> set [0..<16]"
    using unsigned_less [of k, where ?'a = nat] unsigned_less [of f, where ?'a = nat] by simp_all
  with first_byte_all have
    "ucast (drop_bit 4 (push_bit 4 (ucast (of_nat (unat k) :: nibble)) OR ucast (of_nat (unat f) :: nibble) :: byte))
       = (of_nat (unat k) :: nibble) \<and>
     ucast ((push_bit 4 (ucast (of_nat (unat k) :: nibble)) OR ucast (of_nat (unat f) :: nibble) :: byte) AND 0x0F)
       = (of_nat (unat f) :: nibble)"
    unfolding list_all_iff by blast
  then show "ucast (drop_bit 4 (push_bit 4 (ucast k) OR ucast f :: byte)) = (k :: nibble)"
    "ucast ((push_bit 4 (ucast k) OR ucast f :: byte) AND 0x0F) = (f :: nibble)" by simp_all
qed

text \<open>Every number but 0 is that of a packet type, so the second test of the type never fails.\<close>

lemma fromInt_total_all: "list_all (\<lambda>n. fromInt (of_nat n) \<noteq> None) [1..<16]"
  by code_simp

lemma fromInt_total: "n \<noteq> 0 \<Longrightarrow> \<exists>p. fromInt n = Some p"
proof -
  assume "n \<noteq> 0"
  then have "unat n \<in> set [1..<16]"
    using unsigned_less [of n, where ?'a = nat] by (simp add: unat_gt_0 Suc_le_eq)
  with fromInt_total_all have "fromInt (of_nat (unat n)) \<noteq> None" unfolding list_all_iff by blast
  then show ?thesis by simp
qed

section \<open>Parsing and writing\<close>

lemma parse_Inr:
  "parse bs = Inr h \<longleftrightarrow> (\<exists>f rest v k. bs = f # rest \<and> ucast (drop_bit 4 f) \<noteq> (0 :: nibble) \<and>
     decodeRemainingLength rest = Inr (v, k) \<and> fromInt (ucast (drop_bit 4 f)) = Some (packet_type h) \<and>
     flags h = ucast (f AND 0x0F) \<and> remaining_len h = v \<and> header_len h = 1 + k)"
proof (cases bs)
  case (Cons f rest)
  have "rest \<noteq> []" if "decodeRemainingLength rest = Inr r" for r
    using that by (auto simp: decodeRemainingLength_def)
  then show ?thesis
    using fromInt_total [of "ucast (drop_bit 4 f)"]
    by (cases h) (auto simp: Cons parse_def Let_def less_2_cases_iff split: sum.splits option.splits)
qed (simp add: parse_def)

lemma parse_type_error:
  "parse bs = Inl InvalidPacketType \<longleftrightarrow> 2 \<le> length bs \<and> ucast (drop_bit 4 (bs ! 0)) = (0 :: nibble)"
proof -
  have "decode_loop xs i m v \<noteq> Inl InvalidPacketType" for xs i m v
    by (induction xs i m v rule: decode_loop.induct) (auto simp: Let_def)
  then have "decodeRemainingLength xs \<noteq> Inl InvalidPacketType" for xs
    by (simp add: decodeRemainingLength_def)
  then show ?thesis
    using fromInt_total [of "ucast (drop_bit 4 (bs ! 0))"]
    by (auto simp: parse_def Let_def split: sum.splits option.splits)
qed

lemma parse_write:
  assumes "remaining_len h \<le> 268435455"
  shows "\<exists>hb. write_header h list = (list @ hb, Inr ()) \<and> parse (hb @ rest) = Inr (h\<lparr>header_len := length hb\<rparr>)"
proof -
  define f :: byte where "f = push_bit 4 (ucast (intFromEnum (packet_type h))) OR ucast (flags h)"
  have f: "ucast (drop_bit 4 f) = intFromEnum (packet_type h)" "ucast (f AND 0x0F) = flags h"
    unfolding f_def by (rule first_byte)+
  let ?hb = "f # encode_loop (remaining_len h)"
  have "write_header h list = (list @ ?hb, Inr ())"
    using assms by (simp add: write_header_def Let_def encodeRemainingLength_def f_def)
  moreover have "parse (?hb @ rest) = Inr (h\<lparr>header_len := length ?hb\<rparr>)"
    unfolding parse_Inr using decode_encode [OF assms, of rest] by (simp add: f)
  ultimately show ?thesis by blast
qed

lemma parse_wf:
  assumes "parse bs = Inr h"
  shows "remaining_len h \<le> 268435455" "header_len h = 1 + remainingLengthEncodedLen (remaining_len h)"
    "header_len h \<le> length bs"
proof -
  from assms obtain f rest v k where bs: "bs = f # rest" "decodeRemainingLength rest = Inr (v, k)"
    "remaining_len h = v" "header_len h = 1 + k" unfolding parse_Inr by blast
  from decode_canonical [OF bs(2)] have v: "v \<le> 268435455" "k = length (encode_loop v)"
    "rest = encode_loop v @ drop k rest" by blast+
  from v(3) have "k \<le> length rest" using v(2) by (metis le_add1 length_append)
  with v length_encode [OF v(1)] bs show "remaining_len h \<le> 268435455"
    "header_len h = 1 + remainingLengthEncodedLen (remaining_len h)" "header_len h \<le> length bs" by simp_all
qed

section \<open>The end of a packet\<close>

lemma bounds_frame:
  assumes "parse p = Inr h"
  shows "validatePacketBounds p h = Inr () \<longleftrightarrow> frame p"
    "validatePacketBounds p h = Inl BufferTooShort \<longleftrightarrow> incomplete p"
    "validatePacketBounds p h \<noteq> Inl RemainingLengthTooLarge"
proof -
  from assms obtain f rest v k where p: "p = f # rest" "decodeRemainingLength rest = Inr (v, k)"
    "remaining_len h = v" "header_len h = 1 + k" unfolding parse_Inr by blast
  from decode_canonical [OF p(2)] obtain pl where v: "v \<le> 268435455" "k = length (encode_loop v)"
    "rest = encode_loop v @ pl" by metis
  have "length (encode_loop v) \<le> 4" using length_encode [OF v(1)] by (simp add: remainingLengthEncodedLen_def)
  with v have small: "\<not> 2 ^ 64 \<le> header_len h + remaining_len h" by (simp add: p)
  with v show "validatePacketBounds p h = Inr () \<longleftrightarrow> frame p"
    "validatePacketBounds p h \<noteq> Inl RemainingLengthTooLarge"
    by (auto simp: validatePacketBounds_def Let_def p frame_encode)
  have "incomplete p \<longleftrightarrow> length pl < v"
    using split_encode4 [OF v(1), of pl] by (simp add: incomplete_def p v(3) rl_val_encode)
  with v small show "validatePacketBounds p h = Inl BufferTooShort \<longleftrightarrow> incomplete p"
    by (auto simp: validatePacketBounds_def Let_def p)
qed

section \<open>Packets that the harness reads\<close>

text \<open>Where the Remaining Length is complete, the broker refuses it only for being too long.\<close>

lemma decode_loop_Inl:
  "i < 4 \<Longrightarrow> split_rl (4 - i) bs = Some x \<Longrightarrow> decode_loop bs i (128 ^ i) v = Inl e \<Longrightarrow>
     e = MalformedRemainingLength"
proof (induction bs arbitrary: i v x)
  case Nil
  then have "4 - i = Suc (3 - i)" by simp
  with Nil show ?case by simp
next
  case (Cons b bs)
  from Cons.prems(1) have four: "4 - i = Suc (3 - i)" by simp
  show ?case
  proof (cases "b AND 128 = 0 \<or> 128 ^ i * 128 > (128 * 128 * 128 :: nat)")
    case True
    with Cons.prems(3) show ?thesis by (auto simp: Let_def split: if_splits)
  next
    case False
    with Cons.prems(3) have "decode_loop bs (Suc i) (128 ^ Suc i) (v + unat (b AND 127) * 128 ^ i) = Inl e"
      by (simp add: Let_def mult.commute)
    moreover from False have "Suc i < 4" using multiplier_bound [of i] by (simp add: not_less)
    moreover from False Cons.prems(2) obtain y where "split_rl (4 - Suc i) bs = Some y"
      by (auto simp: four)
    ultimately show ?thesis using Cons.IH by blast
  qed
qed

lemma decode_frame:
  assumes "frame (f # bs)"
  shows "decodeRemainingLength bs = Inl MalformedRemainingLength \<or> (\<exists>r. decodeRemainingLength bs = Inr r)"
proof (cases "decodeRemainingLength bs")
  case (Inl e)
  from assms obtain x where "split_rl 4 bs = Some x" by (auto simp: frame_def split: option.splits)
  with decode_loop_Inl [of 0 bs x 0 e] Inl show ?thesis by (simp add: decodeRemainingLength_def)
qed blast

lemma parse_connack:
  assumes "frame p" "p ! 0 = 0x20"
  shows "parse p = Inl MalformedRemainingLength \<or> (\<exists>h. parse p = Inr h \<and> packet_type h = pt_connack \<and>
     validateControlFlags h = Inr () \<and> validatePacketBounds p h = Inr ())"
proof -
  from assms frame_length [OF assms(1)] obtain bs where p: "p = 0x20 # bs" "bs \<noteq> []" by (cases p) (auto simp: Suc_le_length_iff)
  have nibble: "ucast (drop_bit 4 (0x20 :: byte)) = (2 :: nibble)" "ucast (0x20 AND 0x0F :: byte) = (0 :: nibble)"
    by code_simp+
  have type: "fromInt 2 = Some pt_connack" by (simp add: fromInt_def)
  from decode_frame [of "0x20" bs] assms(1) p consider
    "decodeRemainingLength bs = Inl MalformedRemainingLength" |
    v k where "decodeRemainingLength bs = Inr (v, k)" by auto
  then show ?thesis
  proof cases
    case 1
    with p nibble type have "parse p = Inl MalformedRemainingLength" by (simp add: parse_def Let_def)
    then show ?thesis by blast
  next
    case 2
    let ?h = "\<lparr>packet_type = pt_connack, flags = 0, remaining_len = v, header_len = 1 + k\<rparr>"
    from 2 nibble type have h: "parse p = Inr ?h" unfolding parse_Inr p by simp
    with bounds_frame(1) [OF h] assms(1) show ?thesis
      by (auto simp: validateControlFlags_def defaultFlags_def)
  qed
qed

end
