(* ===== verification/Suite.thy ===== *)
theory Suite
  imports Harness
begin

text \<open>
  The specification of the whole run: the 39 conversations, in order. \<^verbatim>\<open>main\<close> passes on exactly the
  transcripts of these sessions in a row, followed by the success line.
\<close>

text \<open>A client that uses a capability which the CONNACK has announced as missing, and is refused.\<close>

definition refused_steps :: "mqtt_packets \<Rightarrow> mqtt5_props \<Rightarrow> string \<Rightarrow> bytes \<Rightarrow> bytes \<Rightarrow> nat \<Rightarrow> step list" where
  "refused_steps mp pr cid announced packet reason =
     [Open, Send 0 (gen_connect mp (Some cid) v5),
      Expect 0 (expected_connack mp pr (connack_defaults\<lparr>extra_properties := announced\<rparr>)),
      Send 0 packet, Expect 0 (gen_disconnect mp (v5\<lparr>k_reason_code := Some (Code reason)\<rparr>)), Shut 0]"

definition assigned_client_identifier_steps ::
  "mqtt_packets \<Rightarrow> mqtt5_props \<Rightarrow> string \<Rightarrow> string \<Rightarrow> step list" where
  "assigned_client_identifier_steps mp pr id0 id1 =
     (let hello = gen_connect mp None (v5\<lparr>k_clean_session := Some True\<rparr>) in
      [Open, Open, Send 0 hello, Await 0 (assigned_connack mp pr id0),
       Send 1 hello, Await 1 (assigned_connack mp pr id1)] @ Ping mp 0 @ [Bye mp 0, Bye mp 1, Shut 1, Shut 0])"

definition suite ::
  "mqtt_packets \<Rightarrow> mqtt5_props \<Rightarrow> mqtt5_rc \<Rightarrow> mqtt5_opts \<Rightarrow> string \<Rightarrow> string \<Rightarrow> session list" where
  "suite mp pr rc op id0 id1 = [
     (1, False, [], no_matching_subscribers_steps mp rc),
     (1, False, [], subscription_identifiers_steps mp pr),
     (1, False, [], multiple_subscription_identifiers_steps mp pr op),
     (15, True, [], hostile_initial_packets_steps mp),
     (1, False, [''--maximum-qos=1''], refused_steps mp pr ''publish-capability'' (gen_byte_prop pr (MAXIMUM_QOS pr) 1)
        (gen_publish mp ''test/topic'' (v5\<lparr>k_qos := Some 2, k_mid := Some 1\<rparr>)) (QOS_NOT_SUPPORTED rc)),
     (1, False, [''--no-retain''], refused_steps mp pr ''publish-capability'' (gen_byte_prop pr (RETAIN_AVAILABLE pr) 0)
        (gen_publish mp ''test/topic'' (v5\<lparr>k_qos := Some 0, k_payload := Some (Some ''a''), k_retain := Some True\<rparr>))
        (RETAIN_NOT_SUPPORTED rc)),
     (1, False, [''--max-packet-size=50''], maximum_packet_size_disconnect_steps mp pr rc),
     (1, False, [''--topic-alias-maximum=1''], topic_alias_disconnect_steps mp pr rc),
     (1, False, [''--max-outgoing-inflight=1''], receive_maximum_disconnect_steps mp rc),
     (1, True, [''--no-wildcard-subscriptions''], refused_steps mp pr ''subscription-capability'' (gen_byte_prop pr (WILDCARD_SUB_AVAILABLE pr) 0)
        (gen_subscribe mp 1 ''wildcard/+'' 0 (v5\<lparr>k_properties := Some []\<rparr>)) (WILDCARD_SUBS_NOT_SUPPORTED rc)),
     (1, True, [''--no-shared-subscriptions''], refused_steps mp pr ''subscription-capability'' (gen_byte_prop pr (SHARED_SUB_AVAILABLE pr) 0)
        (gen_subscribe mp 1 ''$share/workers/shared/topic'' 0 (v5\<lparr>k_properties := Some []\<rparr>)) (SHARED_SUBS_NOT_SUPPORTED rc)),
     (1, True, [''--no-subscription-identifiers''], refused_steps mp pr ''subscription-capability'' (gen_byte_prop pr (SUBSCRIPTION_ID_AVAILABLE pr) 0)
        (gen_subscribe mp 1 ''identifier/topic'' 0 (v5\<lparr>k_properties := Some (gen_varint_prop pr (SUBSCRIPTION_IDENTIFIER pr) 7)\<rparr>)) (SUBSCRIPTION_IDS_NOT_SUPPORTED rc)),
     (2, False, [], qos2_routes_at_pubrel_steps mp),
     (2, False, [], mixed_version_qos1_steps mp),
     (2, False, [], persistent_no_local_steps mp),
     (1, False, [], retained_subscription_handling_steps mp op),
     (2, False, [], incoming_topic_alias_steps mp pr),
     (2, False, [], outgoing_topic_alias_steps mp pr),
     (2, False, [], request_response_properties_steps mp pr),
     (2, False, [], disconnect_with_will_properties_steps mp pr),
     (3, False, [], retained_message_expiry_steps mp pr rc),
     (2, False, [], qos2_receive_maximum_one_steps mp pr),
     (1, False, [], maximum_packet_size_qos1_steps mp pr),
     (1, False, [], maximum_packet_size_qos2_steps mp pr),
     (1, False, [], retained_repeated_lifecycle_steps mp),
     (1, False, [], retained_multilevel_clear_steps mp),
     (5, False, [], shared_subscription_rotation_steps mp),
     (2, False, [], qos2_duplicate_publish_steps mp),
     (2, False, [], qos2_repeated_pubrel_steps mp),
     (2, True, [], reject_publish_subscription_identifier_steps mp pr),
     (2, False, [], unsubscribe_reason_codes_steps mp),
     (3, False, [], retain_as_published_live_steps mp op),
     (2, False, [], retained_replacement_steps mp pr),
     (1, False, [], retained_publish_property_bundle_steps mp pr),
     (1, False, [], retained_tombstone_properties_steps mp pr),
     (2, False, [], assigned_client_identifier_steps mp pr id0 id1),
     (1, False, [''--server-keep-alive='' @ decimal 60], server_keep_alive_steps mp pr),
     (2, False, [], duplicate_client_takeover_steps mp pr rc),
     (4, False, [], disconnect_session_expiry_steps mp pr)]"

text \<open>All scenarios in a row; the two identifiers are the ones that the broker assigns.\<close>

lemma ok_scenarios:
  "ok (seq (scenarios exe mp pr rc op)) u =
     some (\<lambda>id0. some (\<lambda>id1. onlyif (id0 \<noteq> id1) (sessions exe (suite mp pr rc op id0 id1))))"
  unfolding scenarios_def suite_def refused_steps_def assigned_client_identifier_steps_def ok_seq Let_def
    no_matching_subscribers_conv subscription_identifiers_conv multiple_subscription_identifiers_conv
    hostile_initial_packets_conv publish_capability_disconnects_conv maximum_packet_size_disconnect_conv
    topic_alias_disconnect_conv receive_maximum_disconnect_conv subscription_capability_disconnects_conv
    qos2_routes_at_pubrel_conv mixed_version_qos1_conv persistent_no_local_conv
    retained_subscription_handling_conv incoming_topic_alias_conv outgoing_topic_alias_conv
    request_response_properties_conv disconnect_with_will_properties_conv retained_message_expiry_conv
    qos2_receive_maximum_one_conv maximum_packet_size_qos1_conv maximum_packet_size_qos2_conv
    retained_repeated_lifecycle_conv retained_multilevel_clear_conv shared_subscription_rotation_conv
    qos2_duplicate_publish_conv qos2_repeated_pubrel_conv reject_publish_subscription_identifier_conv
    unsubscribe_reason_codes_conv retain_as_published_live_conv retained_replacement_conv
    retained_publish_property_bundle_conv retained_tombstone_properties_conv
    assigned_client_identifier_conv server_keep_alive_conv duplicate_client_takeover_conv
    disconnect_session_expiry_conv
  by (simp only: sessions.simps lang_simps cat_some_right Let_def)

end
