(* ===== verification/Tcp_Stream.thy ===== *)
theory Tcp_Stream
  imports Wire
begin

text \<open>
  Reading from a connection whose peer has sent a given string of bytes and then closed its end. The
  operating system \<open>tcp chunk\<close> holds the bytes not yet received and answers \<^verbatim>\<open>recv(n)\<close> with one to
  \<open>n\<close> of them, as many as the function \<open>chunk\<close> likes, and with an end of stream once there are none;
  it keeps to the contract of the calls. The lemmas say what \<^verbatim>\<open>read_packet\<close> makes of every string,
  whatever \<open>chunk\<close> is.
\<close>

definition tcp :: "(bytes \<Rightarrow> nat \<Rightarrow> nat) \<Rightarrow> bytes os" where
  "tcp chunk p pending = (case p of
     Recv s n \<Rightarrow> (let k = min n (max 1 (chunk pending n)) in (ABytes (take k pending), drop k pending))
   | _ \<Rightarrow> (default_answer p, pending))"

interpretation tcp: os_contract "tcp chunk" for chunk
  by unfold_locales (auto simp: tcp_def Let_def answers_default split: op.split)

lemma run_recv:
  assumes "0 < n" "pending \<noteq> []"
  obtains part rest where "pending = part @ rest" "part \<noteq> []" "length part \<le> n"
    "run (tcp chunk) (recv s n) pending = (Inr part, map (Rx s) part, rest)"
proof
  let ?k = "min n (max 1 (chunk pending n))"
  show "pending = take ?k pending @ drop ?k pending" by simp
  from assms have "0 < ?k" by simp
  with assms(2) show part: "take ?k pending \<noteq> []" by simp
  show "length (take ?k pending) \<le> n" by simp
  from part show "run (tcp chunk) (recv s n) pending = (Inr (take ?k pending), map (Rx s) (take ?k pending), drop ?k pending)"
    unfolding recv_def bytes_call_def tcp_def by (simp add: Let_def log_call_def)
qed

lemma run_recv_end: "run (tcp chunk) (recv s n) [] = (Inr [], [Eof s], [])"
  by (simp add: recv_def bytes_call_def tcp_def Let_def log_call_def)

lemma run_recv_loop:
  "run (tcp chunk) (recv_loop s wanted res) pending =
     (let n = wanted - length res in
      if n \<le> length pending then (Inr (res @ take n pending), map (Rx s) (take n pending), drop n pending)
      else (Inl closed_early, map (Rx s) pending @ [Eof s], []))"
proof (induction s wanted res arbitrary: pending rule: recv_loop.induct)
  case (1 s wanted res)
  show ?case
  proof (cases "length res < wanted \<and> pending \<noteq> []")
    case True
    then obtain part rest where part: "pending = part @ rest" "part \<noteq> []" "length part \<le> wanted - length res"
      and recv: "run (tcp chunk) (recv s (wanted - length res)) pending = (Inr part, map (Rx s) part, rest)"
      using run_recv [of "wanted - length res" pending chunk s] by auto
    have "run (tcp chunk) (recv_loop s wanted res) pending =
        (case run (tcp chunk) (recv_loop s wanted (res @ part)) rest of (r, u, e) \<Rightarrow> (r, map (Rx s) part @ u, e))"
      using True part(2) by (subst recv_loop.simps) (simp add: run_bind recv)
    with 1 [of part rest] True part show ?thesis by (auto simp: Let_def)
  next
    case False
    then show ?thesis by (subst recv_loop.simps) (auto simp: run_bind run_recv_end)
  qed
qed

lemma run_recv_exact:
  "n \<le> length pending \<Longrightarrow>
     run (tcp chunk) (recv_exact s n) pending = (Inr (take n pending), map (Rx s) (take n pending), drop n pending)"
  "length pending < n \<Longrightarrow>
     run (tcp chunk) (recv_exact s n) pending = (Inl closed_early, map (Rx s) pending @ [Eof s], [])"
  by (simp_all add: recv_exact_def run_recv_loop)

section \<open>The Remaining Length\<close>

lemma run_read_remaining_Nil:
  "run (tcp chunk) (read_remaining s k rb rem) [] = (Inl closed_early, [Eof s], [])"
  by (subst read_remaining.simps) (simp add: run_bind run_recv_exact)

lemma run_read_remaining_Cons:
  "run (tcp chunk) (read_remaining s k rb rem) (b # bs) =
     (if b AND 0x80 = 0 then (Inr (rb @ [b], rem + unat (b AND 0x7F) * 128 ^ k), [Rx s b], bs)
      else if 3 \<le> k then (Inl malformed_length, [Rx s b], bs)
      else case run (tcp chunk) (read_remaining s (Suc k) (rb @ [b]) (rem + unat (b AND 0x7F) * 128 ^ k)) bs of
        (r, u, e) \<Rightarrow> (r, Rx s b # u, e))"
  using multiplier_bound [of k]
  by (subst read_remaining.simps) (auto simp: run_bind run_recv_exact item_def Let_def not_less split: prod.split)

lemma run_read_remaining:
  "k < 4 \<Longrightarrow> split_rl (4 - k) pending = Some (rl, pl) \<Longrightarrow>
     run (tcp chunk) (read_remaining s k rb rem) pending = (Inr (rb @ rl, rem + rl_val rl * 128 ^ k), map (Rx s) rl, pl)"
proof (induction pending arbitrary: k rb rem rl)
  case Nil
  then have "4 - k = Suc (3 - k)" by simp
  with Nil show ?case by simp
next
  case (Cons b bs)
  from Cons.prems(1) have four: "4 - k = Suc (3 - k)" by simp
  show ?case
  proof (cases "b AND 0x80 = 0")
    case True
    with Cons.prems(2) four show ?thesis by (auto simp: run_read_remaining_Cons)
  next
    case False
    with Cons.prems(2) four obtain rl' where rl: "split_rl (3 - k) bs = Some (rl', pl)" "rl = b # rl'" by auto
    from rl(1) have "k < 3" by (cases "3 - k") auto
    with rl Cons.IH [of "Suc k" rl' "rb @ [b]" "rem + unat (b AND 0x7F) * 128 ^ k"] False show ?thesis
      by (simp add: run_read_remaining_Cons algebra_simps)
  qed
qed

lemma run_read_remaining_short:
  "length bs + k < 4 \<Longrightarrow> conts bs \<Longrightarrow>
     run (tcp chunk) (read_remaining s k rb rem) bs = (Inl closed_early, map (Rx s) bs @ [Eof s], [])"
  by (induction bs arbitrary: k rb rem) (simp_all add: run_read_remaining_Nil run_read_remaining_Cons conts_def)

lemma run_read_remaining_long:
  "length bs + k = 4 \<Longrightarrow> bs \<noteq> [] \<Longrightarrow> conts bs \<Longrightarrow>
     run (tcp chunk) (read_remaining s k rb rem) (bs @ rest) = (Inl malformed_length, map (Rx s) bs, rest)"
proof (induction bs arbitrary: k rb rem)
  case (Cons b bs)
  show ?case
  proof (cases "bs = []")
    case True
    with Cons.prems show ?thesis by (simp add: run_read_remaining_Cons conts_def)
  next
    case False
    then have "0 < length bs" by simp
    moreover have "length bs + k = 3" using Cons.prems(1) by simp
    ultimately have "\<not> 3 \<le> k" by linarith
    with False Cons show ?thesis by (simp add: run_read_remaining_Cons conts_def)
  qed
qed simp

section \<open>Packets\<close>

lemma run_read_packet:
  assumes "frame p"
  shows "run (tcp chunk) (read_packet s) (p @ rest) = (Inr p, map (Rx s) p, rest)"
proof -
  from assms obtain f rl pl where p: "p = f # rl @ pl" "rl_bytes 4 rl" "length pl = rl_val rl"
    unfolding frame_iff by blast
  then have "split_rl 4 (rl @ pl @ rest) = Some (rl, pl @ rest)" by (simp add: split_rl_iff)
  from run_read_remaining [of 0, simplified, OF this] show ?thesis
    by (simp add: p(1) read_packet_def run_bind run_recv_exact p(3))
qed

lemma run_read_packets:
  "list_all frame ps \<Longrightarrow>
     run (tcp chunk) (collect ps (\<lambda>_. read_packet s)) (concat ps @ rest) = (Inr ps, map (Rx s) (concat ps), rest)"
  by (induction ps) (simp_all add: collect.simps run_bind run_read_packet)

lemma run_read_packet_short:
  assumes "incomplete q"
  shows "run (tcp chunk) (read_packet s) q = (Inl closed_early, map (Rx s) q @ [Eof s], [])"
proof (cases q)
  case Nil
  then show ?thesis by (simp add: read_packet_def run_bind run_recv_exact)
next
  case (Cons f bs)
  show ?thesis
  proof (cases "split_rl 4 bs")
    case None
    with assms Cons have "conts bs" "length bs < 4" by (simp_all add: incomplete_def)
    with run_read_remaining_short [of bs 0] show ?thesis
      by (simp add: Cons read_packet_def run_bind run_recv_exact)
  next
    case (Some z)
    obtain rl pl where z: "z = (rl, pl)" by (cases z)
    with Some have bs: "bs = rl @ pl" by (simp add: split_rl_iff)
    from assms Cons Some z have "length pl < rl_val rl" by (simp add: incomplete_def)
    with run_read_remaining [of 0, simplified, OF Some [unfolded z]] show ?thesis
      by (simp add: Cons bs read_packet_def run_bind run_recv_exact)
  qed
qed

lemma run_read_packet_long:
  assumes "conts bs" "length bs = 4"
  shows "run (tcp chunk) (read_packet s) (f # bs @ rest) = (Inl malformed_length, map (Rx s) (f # bs), rest)"
proof -
  from assms have "run (tcp chunk) (read_remaining s 0 [] 0) (bs @ rest) = (Inl malformed_length, map (Rx s) bs, rest)"
    by (intro run_read_remaining_long) auto
  then show ?thesis by (simp add: read_packet_def run_bind run_recv_exact)
qed

end
