(* ===== verification/Spec2Isabelle.thy ===== *)
theory Spec2Isabelle
  imports Discipline Passable Bounded Fixed_Header Suite Tcp_Stream
begin

text \<open>
  \<^bold>\<open>The program.\<close> The repository is a network protocol toolkit whose broker is tested against the
  wire vectors of Mosquitto by one Python program, \<^verbatim>\<open>src/tools/interop/mqtt_mosquitto_vectors.py\<close>.
  This development models that program from \<^verbatim>\<open>free_port\<close> to \<^verbatim>\<open>main\<close>, and of the broker the
  Remaining Length codec and fixed header (\<^verbatim>\<open>src/src/mqtt/mod.zig\<close>), where the two programs meet on the wire.
  The harness starts a broker process for each scenario (a \<^verbatim>\<open>with NetzBroker(...)\<close> statement),
  opens client connections to it, sends packets that Mosquitto's generators make, compares byte for byte
  what comes back, and waits for the process. A failure is an exception; \<^verbatim>\<open>main\<close> prints its one line
  when every scenario has passed.

  \<^bold>\<open>How it is modelled.\<close> A piece of the harness is a \<open>prog\<close> (theory \<open>Py_IO\<close>): a value, an
  exception, or a call of the operating system with a continuation for each answer. The operating system,
  the network and the broker process are the answers, restricted by \<open>answers\<close> to what the Python
  library documents. \<open>exec m t r\<close> is the inductive relation that some environment takes \<open>m\<close> to
  the outcome \<open>r\<close> (\<open>Inl\<close> an exception, \<open>Inr\<close> a value) with the transcript \<open>t\<close> of what was
  sent, received, opened, closed, started and waited for. \<open>run\<close> executes a program against an operating
  system with a state; \<open>exec_iff_replayed\<close> shows that both agree.

  \<^bold>\<open>The theories,\<close> and what of the program each models:

  \<^item> \<open>Prelude\<close>: bytes, the rule collections, Python's \<^verbatim>\<open>str\<close>, \<^verbatim>\<open>bytes\<close> and
    \<^verbatim>\<open>list\<close> operations that the harness uses.
  \<^item> \<open>Py_IO\<close>: calls, answers, programs, \<^verbatim>\<open>try\<close>, \<^verbatim>\<open>finally\<close>, \<^verbatim>\<open>with\<close>,
    \<^verbatim>\<open>for\<close>; \<open>exec\<close> and its rules; the locale \<open>os_contract\<close> of an operating system that
    keeps to \<open>answers\<close>, interpreted by the one that replays recorded answers and by the one of \<open>Tcp_Stream\<close>; languages of
    transcripts.
  \<^item> \<open>Wire\<close>: \<^verbatim>\<open>recv_exact\<close>, \<^verbatim>\<open>read_packet\<close>, \<^verbatim>\<open>expect_packet\<close>,
    \<^verbatim>\<open>expect_packets_unordered\<close>. The reference notion is \<open>frame\<close>.
  \<^item> \<open>Tcp_Stream\<close>: the same reader executed against a stream of given bytes that TCP cuts anyhow.
  \<^item> \<open>Mosquitto\<close>: the imported modules \<^verbatim>\<open>mqtt_packets\<close>, \<^verbatim>\<open>mqtt5_props\<close>,
    \<^verbatim>\<open>mqtt5_rc\<close>, \<^verbatim>\<open>mqtt5_opts\<close> as records of parameters, and \<^verbatim>\<open>expected_connack\<close>.
  \<^item> \<open>Broker_Process\<close>: \<^verbatim>\<open>free_port\<close> and the class \<^verbatim>\<open>NetzBroker\<close> (a record; its methods
    \<open>NetzBroker\<close>, \<open>broker_enter\<close>, \<open>broker_connect\<close>, \<open>broker_exit\<close>). The locale
    \<open>context_manager\<close> states what a \<^verbatim>\<open>with\<close> statement needs of enter and exit to release what was
    acquired; it is interpreted by the port probe, the connections and the broker.
  \<^item> \<open>Leaks\<close>: how a run goes on after a failed start, and after a connection that fails while a list of
    connections is being made.
  \<^item> \<open>Clients\<close>: \<^verbatim>\<open>connect_client\<close>, \<^verbatim>\<open>connect_v5\<close>, \<^verbatim>\<open>connect_persistent_v5\<close>,
    and the code that several scenarios repeat inline (silence window, dropped connection, CONNECT with
    properties).
  \<^item> \<open>Conversation\<close>: the abstract specification. A conversation is a list of steps on numbered
    connections; its meaning is a set of transcripts. A conversation is \<open>well_formed\<close> when every
    connection is opened before it is used and shut after, and their number is the broker's budget.
  \<^item> \<open>Scenarios_Basic\<close>, \<open>Scenarios_Session\<close>, \<open>Scenarios_Limits\<close>, \<open>Scenarios_QoS\<close>,
    \<open>Scenarios_Forwarding\<close>, \<open>Scenarios_Retained\<close>: the thirty-six scenario functions, each with the
    lemma that it passes on exactly the transcripts of its conversation.
  \<^item> \<open>Harness\<close>: \<^verbatim>\<open>main\<close>; a passing run is a sequence of 39 sessions.
  \<^item> \<open>Suite\<close>: the specification of the whole run, the 39 conversations in order.
  \<^item> \<open>Policy\<close>, \<open>Discipline\<close>: the calls a scenario can make at all, the sockets it closes and the
    processes it can leave behind, on every path.
  \<^item> \<open>Streams\<close>: a conversation seen from one connection (the bytes sent and received on it), cut at a step
    or at a silence window, and the order of its connections and pauses.
  \<^item> \<open>Passable\<close>: every scenario can pass; sample generators for the examples.
  \<^item> \<open>Remaining_Length\<close>: the broker's codec against the harness's reader.
  \<^item> \<open>Fixed_Header\<close>: the broker's fixed header (\<^verbatim>\<open>FixedHeader\<close>, \<^verbatim>\<open>PacketType\<close>,
    \<^verbatim>\<open>validatePacketBounds\<close>, \<^verbatim>\<open>validateControlFlags\<close>) against the harness's reader.
  \<^item> \<open>Bounded\<close>: how many calls the reader makes.

  \<^bold>\<open>What is shown.\<close> C1 to C5 are about \<^verbatim>\<open>main\<close>: a passing run is 39 sessions and releases
  everything, a failing run stops in its first failing scenario and leaves at most one process behind, the
  success line is printed once and on success only, and the passing runs are exactly those of \<open>Suite\<close>.
  C6 to C13 are about the wire helpers: what they make of a stream of bytes, exactly which
  transcripts make them return, which make them raise what, and that they end. C14 to C20 relate the broker's
  length codec and header parser to themselves and to the harness's reader. C21 to C28 are about processes,
  sockets, the calls made, and the client helpers; C23 and C25 show two leaks. C29 to C40 are about
  scenarios. Most of them have two parts: the scenario passes on exactly the transcripts of a conversation, which
  the statement writes out; and, read off it, what each client has sent and received in a passing run, which is
  the promise of the protocol that the scenario tests. The second part assumes that the sockets of a run are
  distinct objects. \<open>sent\<close> and \<open>received\<close> count the bytes that the harness sent and those that it
  read; that nothing more was to be read is known only where the conversation has a silence window
  (\<open>Silent\<close>) or an end of the connection (\<open>Ended\<close>, \<open>Gone\<close>). \<open>timeline\<close> orders connections and
  pauses only; the order of all steps is that of the conversation.

  \<^bold>\<open>Termination.\<close> No fuel is used. \<open>prog\<close> is a datatype, so every program is a finite-depth tree;
  the two loops that depend on received data are \<^theory_text>\<open>function\<close>s with a termination proof, and C11
  bounds the number of their calls.

  \<^bold>\<open>Integers.\<close> Bytes are 8-bit words. Python's integers are unbounded and are natural numbers here, none of
  them being negative except a process's return code, an \<open>int\<close>. The broker's \<^verbatim>\<open>usize\<close> values stay
  below \<open>2 ^ 28\<close> in the codec. Timeouts and sleeps are in milliseconds.

  \<^bold>\<open>Not modelled.\<close> \<^verbatim>\<open>parse_args\<close> and the imports (\<^verbatim>\<open>argparse\<close>, \<^verbatim>\<open>sys.path\<close>): their
  results are the arguments of \<open>main\<close>. Mosquitto's generators, which are not in the repository: they are
  arguments, and only C38 (the Will Delay property takes five bytes) assumes anything of them. Errors of
  \<^verbatim>\<open>close\<close>, \<^verbatim>\<open>settimeout\<close>, \<^verbatim>\<open>getsockname\<close> and \<^verbatim>\<open>print\<close>: Python allows an
  \<^verbatim>\<open>OSError\<close> of any socket operation, but \<open>answers\<close> lets these four succeed always. So C21, C24 and
  the other statements on released sockets say nothing of a run in which one of them fails; a failing
  \<^verbatim>\<open>settimeout\<close> in \<^verbatim>\<open>NetzBroker.connect\<close> would leave the new socket open. A line of the
  broker's output that is not valid text, interrupts of the harness, time, and what the
  broker answers: a transcript is about what the harness saw. Allocation failure in the
  broker's codec. The rest of the broker and the other protocols (QUIC, HTTP, TLS, WebSocket, gRPC, WebRTC)
  are written in Zig and are not part of the Python program.
\<close>


text \<open>
  C1. A passing run of main is the concatenation of exactly 39 broker sessions, each the
  transcript of a well-formed conversation (every connection opened, used while open, shut; as
  many connections as the broker was told to serve), followed by the success line and nothing
  else.
\<close>

theorem main_runs_39_sessions:
  assumes "exec (main exe mp pr rc op) t (Inr ())"
  shows "\<exists>cs v. t = v @ [Printed passed_line] \<and> length cs = 39 \<and>
     list_all (\<lambda>(conns, ignore, args, sts). well_formed conns sts) cs \<and> sessions exe cs v"
  using assms by (rule main_sessions)

theorem main_runs_39_sessions_witness:
  "\<exists>t cs v. exec (main ''netz'' sample_packets sample_props sample_rc sample_opts) t (Inr ()) \<and>
     t = v @ [Printed passed_line] \<and> length cs = 39 \<and>
     list_all (\<lambda>(conns, ignore, args, sts). well_formed conns sts) cs \<and> sessions ''netz'' cs v"
proof -
  obtain t where t: "exec (main ''netz'' sample_packets sample_props sample_rc sample_opts) t (Inr ())"
    using sample_main by blast
  from main_runs_39_sessions [OF t] t show ?thesis by blast
qed

text \<open>
  C2. A passing run of main starts 39 broker processes, waits for every one of them, and closes
  every socket it opened.
\<close>

theorem main_releases_everything:
  assumes "exec (main exe mp pr rc op) t (Inr ())"
  shows "size (procs_started t) = 39 \<and> procs_started t = procs_reaped t \<and> socks_opened t = socks_closed t"
proof -
  from main_sessions [OF assms] obtain cs v where v: "t = v @ [Printed passed_line]" "length cs = 39"
    "list_all (\<lambda>(conns, ignore, args, sts). well_formed conns sts) cs" "sessions exe cs v" by blast
  with sessions_effect [of cs exe v] show ?thesis by (auto simp: effect_def list_all_iff)
qed

theorem main_releases_everything_witness:
  "\<exists>t. exec (main ''netz'' sample_packets sample_props sample_rc sample_opts) t (Inr ()) \<and>
     size (procs_started t) = 39 \<and> procs_started t = procs_reaped t \<and> socks_opened t = socks_closed t"
  using sample_main main_releases_everything by blast



text \<open>
  C4. When every scenario passes, main prints the success line once, as its last action, and
  nothing else; when a scenario fails it prints nothing at all.
\<close>

theorem main_reports_only_success:
  assumes "exec (main exe mp pr rc op) t r"
  shows "filter is_printed t = (if r = Inr () then [Printed passed_line] else []) \<and>
     (r = Inr () \<longrightarrow> last t = Printed passed_line)"
proof (cases r)
  case (Inl e)
  with assms scenarios_prints show ?thesis by (auto simp: exec_main_err)
next
  case (Inr u)
  with assms obtain v where "t = v @ [Printed passed_line]" "exec (seq (scenarios exe mp pr rc op)) v (Inr ())"
    by (auto simp: exec_main_ok)
  with scenarios_prints Inr show ?thesis by auto
qed

theorem main_reports_only_success_witness:
  "\<exists>t. exec (main ''netz'' sample_packets sample_props sample_rc sample_opts) t (Inr ()) \<and>
     filter is_printed t = [Printed passed_line] \<and> last t = Printed passed_line"
proof -
  obtain t where t: "exec (main ''netz'' sample_packets sample_props sample_rc sample_opts) t (Inr ())"
    using sample_main by blast
  from main_reports_only_success [OF t] t show ?thesis by auto
qed

text \<open>
  C5. main passes on exactly the transcripts of its specification: the 39 broker sessions of
  suite in that order, each with its connection count, its arguments and its conversation step
  by step (with two different client identifiers that the broker assigned), then the success
  line.
\<close>

theorem main_passes_exactly:
  "exec (main exe mp pr rc op) t (Inr ()) \<longleftrightarrow>
     (\<exists>id0 id1 v. id0 \<noteq> id1 \<and> sessions exe (suite mp pr rc op id0 id1) v \<and> t = v @ [Printed passed_line])"
  unfolding exec_main_ok passing_iff [OF ok_scenarios] some_def onlyif_def by auto



text \<open>
  C7. read_packet returns p exactly when p is one complete MQTT frame and its bytes, and no
  others, have been consumed, however TCP cuts the stream.
\<close>

theorem read_packet_exact:
  "exec (read_packet s) t (Inr p) \<longleftrightarrow> frame p \<and> t = map (Rx s) p"
  by (rule exec_read_packet_ok)

text \<open>
  C8. read_packet fails in two ways only: four continuation bytes in the Remaining Length, or a
  stream that ends or breaks inside a frame; in either case exactly the bytes so far have been
  consumed.
\<close>

theorem read_packet_failures:
  "exec (read_packet s) t (Inl e) \<longleftrightarrow>
     (\<exists>f bs. conts bs \<and> length bs = 4 \<and> e = malformed_length \<and> t = map (Rx s) (f # bs)) \<or>
     (\<exists>q x. incomplete q \<and> read_fails s (want q) e x \<and> t = map (Rx s) q @ [x])"
  by (rule exec_read_packet_err)

text \<open>
  C9. The packets read from a connection are determined by the bytes received: two ways of
  reading the same bytes into packets give the same packets.
\<close>

theorem packets_determined:
  assumes "exec (collect ks (\<lambda>_. read_packet s)) t (Inr ps)" "exec (collect ns (\<lambda>_. read_packet s)) t (Inr qs)"
  shows "ps = qs"
proof -
  have "list_all frame rs \<and> t = map (Rx s) (concat rs)"
    if "exec (collect ms (\<lambda>_. read_packet s)) t (Inr rs)" for ms :: "'x list" and rs t
    using that
    by (induction ms arbitrary: rs t) (auto simp: collect.simps exec_bind_iff exec_read_packet_ok)
  from this [OF assms(1)] this [OF assms(2)] have "list_all frame ps" "list_all frame qs"
    "map (Rx s) (concat ps) = map (Rx s) (concat qs)" by auto
  moreover have "inj (Rx s)" by (rule injI) simp
  ultimately show ?thesis by (auto intro!: frames_unique simp: list_all_iff inj_map_eq_map)
qed

theorem packets_determined_witness:
  "exec (collect [0, 1 :: nat] (\<lambda>_. read_packet 3)) (map (Rx 3) [0xC0, 0, 0xD0, 0]) (Inr [[0xC0, 0], [0xD0, 0]]) \<and>
   [[0xC0, 0], [0xD0, 0]] = [[0xC0, 0], [0xD0, 0 :: byte]]"
proof -
  have frames: "frame [0xC0, 0]" "frame [0xD0, 0]" by (simp_all add: frame_short)
  then have "exec (read_packet 3) [Rx 3 0xC0, Rx 3 0] (Inr [0xC0, 0])"
    "exec (read_packet 3) [Rx 3 0xD0, Rx 3 0] (Inr [0xD0, 0])" by (simp_all add: exec_read_packet_ok)
  note reads = this
  have "exec (bind (read_packet 3) (\<lambda>y. Ret [x, y])) ([Rx 3 0xD0, Rx 3 0] @ []) (Inr [x, [0xD0, 0]])" for x
    using reads(2) by (rule exec_bindI) simp
  from exec_bindI [OF reads(1), of "\<lambda>x. bind (read_packet 3) (\<lambda>y. Ret [x, y])", OF this]
  have "exec (collect [0, 1 :: nat] (\<lambda>_. read_packet 3)) ([Rx 3 0xC0, Rx 3 0] @ [Rx 3 0xD0, Rx 3 0] @ [])
      (Inr [[0xC0, 0], [0xD0, 0]])" by (simp add: collect.simps bind_assoc)
  then have run: "exec (collect [0, 1 :: nat] (\<lambda>_. read_packet 3)) (map (Rx 3) [0xC0, 0, 0xD0, 0])
      (Inr [[0xC0, 0], [0xD0, 0]])" by simp
  from packets_determined [OF run run] run show ?thesis by blast
qed

text \<open>
  C10. recv_exact(n) returns exactly the next n bytes, in one recv or in many; it fails exactly
  when the stream ends or a recv raises before they have arrived, with the bytes so far
  consumed.
\<close>

theorem recv_exact_outcomes:
  "exec (recv_exact s n) t r \<longleftrightarrow>
     (\<exists>bs. length bs = n \<and> t = map (Rx s) bs \<and> r = Inr bs) \<or>
     (\<exists>ps x e. length ps < n \<and> read_fails s (n - length ps) e x \<and> t = map (Rx s) ps @ [x] \<and> r = Inl e)"
  by (cases r) (auto simp: exec_recv_exact_ok exec_recv_exact_err)

text \<open>
  C11. read_packet ends after at most 1 + 4 + 268435455 calls of recv and recv_exact(n) after at
  most n, against every peer: a recv that does not end the loop with an exception brings at
  least one byte of those wanted.
\<close>

theorem read_packet_terminates:
  "bounded (read_packet s) (1 + (4 + 268435455)) \<and> bounded (recv_exact s n) n"
  by (simp only: bounded_read_packet bounded_recv_exact simp_thms)

text \<open>
  C12. expect_packet succeeds exactly on the expected bytes; on another complete packet it
  raises an AssertionError that shows both packets in hexadecimal; otherwise it fails as
  read_packet does.
\<close>

theorem expect_packet_outcomes:
  "exec (expect_packet s expected label) t r \<longleftrightarrow>
     frame expected \<and> t = map (Rx s) expected \<and> r = Inr () \<or>
     (\<exists>p. frame p \<and> p \<noteq> expected \<and> t = map (Rx s) p \<and>
        r = Inl (AssertionError (label @ '': expected '' @ hex expected @ '', received '' @ hex p))) \<or>
     (\<exists>e. r = Inl e \<and> exec (read_packet s) t (Inl e))"
  by (cases r) (auto simp: exec_expect_packet_ok exec_expect_packet_err)

text \<open>
  C13. expect_packets_unordered succeeds exactly when the packets received are the expected ones
  in some order, each as often as it is expected.
\<close>

theorem unordered_is_permutation:
  "exec (expect_packets_unordered s expected label) t (Inr ()) \<longleftrightarrow>
     (\<exists>ps. mset ps = mset expected \<and> list_all frame ps \<and> t = map (Rx s) (concat ps))"
  unfolding exec_expect_unordered_ok list_all_iff ..

text \<open>
  C14. The broker's Remaining Length encoder and decoder are inverse: every value up to
  268435455 is encoded, and decoding the encoding, whatever follows it, gives the value and the
  number of bytes.
\<close>

theorem remaining_length_roundtrip:
  assumes "v \<le> 268435455"
  shows "\<exists>rl. encodeRemainingLength v = Inr rl \<and> decodeRemainingLength (rl @ rest) = Inr (v, length rl)"
  using decode_encode [OF assms] assms by (simp add: encodeRemainingLength_def)

theorem remaining_length_roundtrip_witness:
  "\<exists>rl. encodeRemainingLength 16384 = Inr rl \<and> decodeRemainingLength (rl @ [7]) = Inr (16384, length rl)"
  using remaining_length_roundtrip [of 16384 "[7]"] by simp

text \<open>
  C15. The broker's decoder accepts exactly the encoder's output: a decoded value is at most
  268435455 and the bytes consumed are its unique shortest encoding.
\<close>

theorem decoder_accepts_only_canonical:
  "decodeRemainingLength bs = Inr (v, k) \<longleftrightarrow>
     v \<le> 268435455 \<and> k = length (encode_loop v) \<and> bs = encode_loop v @ drop k bs"
proof
  assume "decodeRemainingLength bs = Inr (v, k)"
  then show "v \<le> 268435455 \<and> k = length (encode_loop v) \<and> bs = encode_loop v @ drop k bs"
    by (rule decode_canonical)
next
  assume "v \<le> 268435455 \<and> k = length (encode_loop v) \<and> bs = encode_loop v @ drop k bs"
  with decode_encode [of v "drop k bs"] show "decodeRemainingLength bs = Inr (v, k)" by metis
qed

text \<open>
  C16. A fixed header that FixedHeader.write has written, whatever was in the list before and
  whatever follows, is parsed again with the same type, flags and remaining length, and with the
  number of bytes written as its header length.
\<close>

theorem header_roundtrip:
  assumes "remaining_len h \<le> 268435455"
  shows "\<exists>hb. write_header h list = (list @ hb, Inr ()) \<and> parse (hb @ rest) = Inr (h\<lparr>header_len := length hb\<rparr>)"
  using assms by (rule parse_write)

theorem header_roundtrip_witness:
  "\<exists>hb. write_header \<lparr>packet_type = pt_pubrel, flags = 2, remaining_len = 300, header_len = 0\<rparr> [1] = ([1] @ hb, Inr ()) \<and>
     parse (hb @ [7]) = Inr \<lparr>packet_type = pt_pubrel, flags = 2, remaining_len = 300, header_len = length hb\<rparr>"
  using header_roundtrip [of "\<lparr>packet_type = pt_pubrel, flags = 2, remaining_len = 300, header_len = 0\<rparr>" "[1]" "[7]"]
  by simp

text \<open>
  C17. The harness and the broker split a Remaining Length alike wherever the broker accepts it;
  the harness also accepts overlong encodings, such as 80 00, that the broker rejects.
\<close>

theorem harness_reader_is_laxer:
  "(decodeRemainingLength bs = Inr (v, k) \<longrightarrow>
      (exec (read_packet s) (map (Rx s) (f # bs)) (Inr (f # bs)) \<longleftrightarrow> length bs = k + v)) \<and>
   exec (read_packet s) (map (Rx s) [f, 0x80, 0]) (Inr [f, 0x80, 0]) \<and>
   decodeRemainingLength [0x80, 0] = Inl MalformedRemainingLength"
proof -
  have "exec (read_packet s) (map (Rx s) (f # bs)) (Inr (f # bs)) \<longleftrightarrow> length bs = k + v"
    if "decodeRemainingLength bs = Inr (v, k)"
  proof -
    from decode_canonical [OF that] obtain pl where bs: "bs = encode_loop v @ pl" "k = length (encode_loop v)"
      "v \<le> 268435455" by metis
    then show ?thesis by (auto simp: exec_read_packet_ok frame_encode)
  qed
  moreover note frame_overlong [of f]
  moreover have "decodeRemainingLength [0x80, 0] = Inl MalformedRemainingLength"
    by (simp add: decodeRemainingLength_def remainingLengthEncodedLen_def)
  ultimately show ?thesis by (simp add: exec_read_packet_ok)
qed

theorem harness_reader_is_laxer_witness:
  "decodeRemainingLength [2, 0, 7] = Inr (2, 1) \<and>
   exec (read_packet 3) (map (Rx 3) [0x40, 2, 0, 7]) (Inr [0x40, 2, 0, 7])"
proof -
  have "decodeRemainingLength [2, 0, 7] = Inr (2, 1)"
    by (simp add: decodeRemainingLength_def remainingLengthEncodedLen_def)
  with harness_reader_is_laxer [of "[2, 0, 7]" 2 1 3 "0x40"] show ?thesis by simp
qed

text \<open>
  C18. A header that FixedHeader.parse returns announces at most 268435455 bytes, is as long as
  the type byte and the shortest encoding of that number, and lies within the buffer; parse
  refuses the type nibble 0 and no other.
\<close>

theorem parsed_header_bounds:
  "(parse bs = Inr h \<longrightarrow> remaining_len h \<le> 268435455 \<and>
      header_len h = 1 + remainingLengthEncodedLen (remaining_len h) \<and> header_len h \<le> length bs) \<and>
   (parse bs = Inl InvalidPacketType \<longleftrightarrow> 2 \<le> length bs \<and> ucast (drop_bit 4 (bs ! 0)) = (0 :: nibble))"
  using parse_wf [of bs h] parse_type_error [of bs] by blast

theorem parsed_header_bounds_witness:
  "\<exists>h. parse [0xD0, 0] = Inr h \<and> remaining_len h = 0 \<and> header_len h \<le> length [0xD0, 0 :: byte]"
proof -
  let ?h = "\<lparr>packet_type = pt_pingresp, flags = 0, remaining_len = 0, header_len = 2\<rparr>"
  have "ucast (drop_bit 4 (0xD0 :: byte)) = (13 :: nibble)" by code_simp
  then have h: "parse [0xD0, 0] = Inr ?h"
    by (simp add: parse_def Let_def fromInt_def decodeRemainingLength_def remainingLengthEncodedLen_def)
  from parsed_header_bounds [of "[0xD0, 0]" ?h] h show ?thesis by (intro exI [of _ ?h]) simp
qed

text \<open>
  C19. Where the broker parses the header of a packet, its check of the packet's bounds passes
  exactly when the harness reads these bytes as one packet, reports a short buffer exactly when
  the harness still waits for more bytes, and never overflows.
\<close>

theorem bounds_check_matches_reader:
  assumes "parse p = Inr h"
  shows "(validatePacketBounds p h = Inr () \<longleftrightarrow> exec (read_packet s) (map (Rx s) p) (Inr p)) \<and>
     (validatePacketBounds p h = Inl BufferTooShort \<longleftrightarrow> incomplete p) \<and>
     validatePacketBounds p h \<noteq> Inl RemainingLengthTooLarge"
  using bounds_frame [OF assms] by (simp add: exec_read_packet_ok)

theorem bounds_check_matches_reader_witness:
  "\<exists>h. parse [0x40, 2, 0] = Inr h \<and> (validatePacketBounds [0x40, 2, 0] h = Inl BufferTooShort \<longleftrightarrow> incomplete [0x40, 2, 0])"
proof -
  let ?h = "\<lparr>packet_type = pt_puback, flags = 0, remaining_len = 2, header_len = 2\<rparr>"
  have "ucast (drop_bit 4 (0x40 :: byte)) = (4 :: nibble)" by code_simp
  then have "parse [0x40, 2, 0] = Inr ?h"
    by (simp add: parse_def Let_def fromInt_def decodeRemainingLength_def remainingLengthEncodedLen_def)
  from bounds_check_matches_reader [OF this] this show ?thesis by blast
qed

text \<open>
  C20. The packet on which connect_client succeeds is, to the broker's own parser, a CONNACK
  with valid control flags that ends where the packet ends, unless its Remaining Length takes
  more bytes than it needs.
\<close>

theorem accepted_connack_parses:
  assumes "exec (connect_client s mp cid ver) t (Inr ())"
  shows "\<exists>p. received s t = p \<and> (parse p = Inl MalformedRemainingLength \<or>
     (\<exists>h. parse p = Inr h \<and> packet_type h = pt_connack \<and>
        validateControlFlags h = Inr () \<and> validatePacketBounds p h = Inr ()))"
proof -
  from assms obtain p where p: "frame p" "p ! 0 = 0x20"
    "t = map (Tx s) (gen_connect mp (Some cid) (no_kwargs\<lparr>k_proto_ver := Some ver\<rparr>)) @ map (Rx s) p"
    unfolding exec_connect_client_ok connack_ok_def by blast
  from p(3) have "received s t = p" by simp
  with parse_connack [OF p(1,2)] show ?thesis by blast
qed

theorem accepted_connack_parses_witness:
  "\<exists>t. exec (connect_client 3 sample_packets ''netz'' 5) t (Inr ()) \<and> received 3 t = [0x20, 3, 0, 0, 0] \<and>
     (\<exists>h. parse [0x20, 3, 0, 0, 0] = Inr h \<and> packet_type h = pt_connack)"
proof -
  let ?p = "[0x20, 3, 0, 0, 0 :: byte]"
  let ?t = "map (Tx 3) (gen_connect sample_packets (Some ''netz'') (no_kwargs\<lparr>k_proto_ver := Some 5\<rparr>)) @ map (Rx 3) ?p"
  have "frame ?p" using framed_simps(1) [OF framed_sample] by (simp add: sample_packets_def)
  then have run: "exec (connect_client 3 sample_packets ''netz'' 5) ?t (Inr ())"
    unfolding exec_connect_client_ok by (intro exI [of _ ?p]) (simp add: connack_ok_def)
  have "received 3 ?t = ?p" by simp
  moreover have "parse ?p \<noteq> Inl MalformedRemainingLength"
    by (auto simp: parse_def Let_def decodeRemainingLength_def remainingLengthEncodedLen_def split: option.splits)
  ultimately show ?thesis using accepted_connack_parses [OF run] run by (intro exI [of _ ?t]) auto
qed

text \<open>
  C21. Entering a NetzBroker fails only when the port probe or the process cannot be created, or
  when the first line of the broker does not contain 'listening'; each failure with its exact
  transcript.
\<close>

theorem broker_start_failures:
  "exec (bind (NetzBroker exe conns ignore args) broker_enter) t (Inl e) \<longleftrightarrow>
     is_os_error e \<and>
       (t = [Failed NewSocket e] \<or> (\<exists>s. t = [Created s, Failed (Bind s ''127.0.0.1'' 0) e, Closed s]) \<or>
        (\<exists>s prt. t = probed s prt @ [Failed (Popen (command (configured exe conns ignore args prt))) e])) \<or>
     (\<exists>s prt p line. \<not> contains ''listening'' line \<and>
        t = probed s prt @ [Spawned p (command (configured exe conns ignore args prt)), Line p line] \<and>
        e = RuntimeError (''netz broker failed to start: '' @ strip line))"
  by (rule exec_start_err)

text \<open>
  C22. A with NetzBroker statement either fails to start, or runs its body and passes the body's
  outcome on, except that after a passing body a broker that does not exit cleanly within five
  seconds is an error, and a process that survives terminate raises TimeoutExpired.
\<close>

theorem with_broker_outcomes:
  "exec (with_broker exe conns ignore args body) t r \<longleftrightarrow>
     (\<exists>e. r = Inl e \<and> exec (bind (NetzBroker exe conns ignore args) broker_enter) t (Inl e)) \<or>
     (\<exists>prt p u v w r'. t = u @ v @ w \<and> broker_up exe conns ignore args prt p u \<and>
        exec (body (started exe conns ignore args prt p)) v r' \<and>
        (case r' of Inl e \<Rightarrow> after_error p e w r | Inr x \<Rightarrow> after_success p x w r))"
  by (rule exec_with_broker)

text \<open>
  C23. When the first line that a started broker prints lacks 'listening', the with statement
  makes no further call, whatever its body: it raises the RuntimeError at once, and the process
  it started has been neither terminated nor waited for.
\<close>

theorem failed_start_leaks_process:
  assumes "\<not> contains ''listening'' line"
  shows "let t = [Created s, Bound s ''127.0.0.1'' 0, Port s prt, Closed s,
        Spawned p (command (configured exe conns ignore args prt)), Line p line] in
     (\<forall>v r. exec (with_broker exe conns ignore args body) (t @ v) r \<longleftrightarrow>
        v = [] \<and> r = Inl (RuntimeError (''netz broker failed to start: '' @ strip line))) \<and>
     procs_started t = {#p#} \<and> procs_reaped t = {#} \<and> Terminated p \<notin> set t"
  using failed_start [OF assms, of exe conns ignore args body s prt p] by (simp add: Let_def probed_def)

theorem failed_start_leaks_process_witness:
  "\<exists>t. exec (with_broker ''netz'' 1 False [] (\<lambda>_. skip)) t
           (Inl (RuntimeError (''netz broker failed to start: '' @ strip ''panic''))) \<and>
         procs_started t = {#7#} \<and> procs_reaped t = {#} \<and> Terminated 7 \<notin> set t"
proof -
  have "\<not> contains ''listening'' ''panic''" by (simp add: startswith_def)
  from failed_start_leaks_process [OF this, of 3 1883 7 "''netz''" 1 False "[]" "\<lambda>_. skip"]
  show ?thesis unfolding Let_def by (metis append_Nil2)
qed

text \<open>
  C24. Every scenario but shared_subscription_rotation closes every socket it opens, on every
  path: whatever the broker and the operating system answer, exceptions included.
\<close>

theorem scenarios_close_sockets:
  "list_all balanced (take 23 (scenarios exe mp pr rc op) @ drop 24 (scenarios exe mp pr rc op)) \<and>
   scenarios exe mp pr rc op ! 23 = shared_subscription_rotation exe mp"
  by (simp add: scenarios_def balanced_all)

text \<open>
  C25. shared_subscription_rotation opens its five sockets in a list comprehension before its
  try block: when the broker is up, some of the connections (fewer than five) have been made and
  the next one fails, the run goes on with the end of the broker process only, and exactly the
  sockets of the connections made stay open.
\<close>

theorem shared_rotation_leaks_socket:
  assumes "broker_up exe 5 False [] prt p up" "length ss < 5" "is_os_error e"
  shows "let t = up @ concat (map (\<lambda>s. [Connected s prt, TimeoutSet s 5000]) ss) @
        [Failed (CreateConnection ''127.0.0.1'' prt 5000) e] @ w in
     (exec (shared_subscription_rotation exe mp) t r \<longleftrightarrow> after_error p e w r) \<and>
     (exec (shared_subscription_rotation exe mp) t r \<longrightarrow> socks_opened t = socks_closed t + mset ss)"
proof -
  have run: "exec (shared_subscription_rotation exe mp)
      (up @ connected prt ss @ [Failed (CreateConnection ''127.0.0.1'' prt 5000) e] @ w) r \<longleftrightarrow> after_error p e w r"
    unfolding shared_subscription_rotation_def Let_def by (rule exec_connect_first [OF assms(1) _ assms(3)]) (simp add: assms(2))
  moreover have "socks_opened up = socks_closed up" using assms(1) by (auto simp: broker_up_def)
  moreover have "after_error p e w r \<Longrightarrow> socks_opened w = {#} \<and> socks_closed w = {#}"
    by (auto simp: after_error_def)
  ultimately show ?thesis
    unfolding Let_def connected_def [symmetric] by auto
qed

theorem shared_rotation_leaks_socket_witness:
  "\<exists>t. exec (shared_subscription_rotation ''netz'' sample_packets) t (Inl ConnectionResetError) \<and>
     socks_opened t = socks_closed t + {#8, 9#}"
proof -
  let ?up = "[Created 2, Bound 2 ''127.0.0.1'' 0, Port 2 1883, Closed 2,
    Spawned 7 (command (started ''netz'' 5 False [] 1883 7)), Line 7 ''listening'']"
  have "broker_up ''netz'' 5 False [] 1883 7 ?up"
    by (auto simp: broker_up_def startswith_def)
  from shared_rotation_leaks_socket [OF this, of "[8, 9]" ConnectionResetError "[Exited 7 0]" sample_packets
      "Inl ConnectionResetError"]
  show ?thesis by (auto simp: Let_def after_error_def add_mset_commute)
qed

text \<open>
  C26. No scenario can make a call outside the policy, whatever it is answered: loopback sockets
  only, receive timeouts of 5 s or 50 ms, never recv(0), only the broker under test is started
  and always with --no-restore, waits of 5 s, sleeps of at most 4 s, no output.
\<close>

theorem scenarios_keep_policy:
  "list_all (confined (harness_policy exe)) (scenarios exe mp pr rc op)"
  by (rule confined_scenarios)

text \<open>
  C27. connect_client sends one CONNECT and succeeds exactly when one packet comes back that is
  a CONNACK of the minimum length for the version with a reason code below 0x80.
\<close>

theorem connect_client_outcomes:
  "exec (connect_client s mp cid ver) t (Inr ()) \<longleftrightarrow>
     (\<exists>p. frame p \<and> p ! 0 = 0x20 \<and> (if ver = 5 then 5 else 4) \<le> length p \<and> p ! 3 < 0x80 \<and>
        t = map (Tx s) (gen_connect mp (Some cid) (no_kwargs\<lparr>k_proto_ver := Some ver\<rparr>)) @ map (Rx s) p)"
  unfolding exec_connect_client_ok connack_ok_def by auto

text \<open>
  C28. The 50 ms silence window passes exactly on silence or on an end of stream, fails on any
  byte, and restores the 5 s timeout on every path.
\<close>

theorem quiet_window_outcomes:
  "exec (expect_quiet s msg) t r \<longleftrightarrow> (\<exists>x. t = [TimeoutSet s 50, x, TimeoutSet s 5000] \<and>
     (x = Failed (Recv s 1) SocketTimeout \<and> r = Inr () \<or> x = Eof s \<and> r = Inr () \<or>
      (\<exists>b. x = Rx s b \<and> r = Inl (AssertionError (msg @ hex [b]))) \<or>
      (\<exists>e. is_os_error e \<and> e \<noteq> SocketTimeout \<and> x = Failed (Recv s 1) e \<and> r = Inl e)))"
  by (rule exec_expect_quiet)

text \<open>
  C29. qos2_routes_at_pubrel passes on exactly the transcripts of the conversation written out.
  In every passing run there is a 50 ms window on the subscriber's connection that ends with
  silence or an end of stream: before it the subscriber has read its SUBACK only, although the
  publisher has sent its QoS 2 PUBLISH and read the PUBREC; after it the publisher sends the
  PUBREL, and the subscriber reads the PUBLISH and its own PUBREL.
\<close>

theorem qos2_invisible_before_pubrel:
  "let topic = ''pub/qos2/reuse'' in
   (exec (qos2_routes_at_pubrel exe mp) t (Inr ()) \<longleftrightarrow> conversation exe 2 False []
     ([Open, Open] @ Hello mp 0 ''sub-qos2-test'' @ Subscribe mp 0 1 topic 2 2 @
      Hello mp 1 ''pub-qos2-test'' @
      [Send 1 (gen_publish mp topic (message 2 312 ''message'')), Expect 1 (gen_pubrec mp 312 v5),
      Silent 0] @
      Release mp 1 312 @
      [Expect 0 (gen_publish mp topic (message 2 1 ''message''))] @ Complete mp 0 1 @
      [Bye mp 1, Bye mp 0, Shut 1, Shut 0]) t) \<and>
   (exec (qos2_routes_at_pubrel exe mp) t (Inr ()) \<and> distinct (opened t) \<longrightarrow>
     (\<exists>sub pub before x after. opened t = [sub, pub] \<and>
        t = before @ [TimeoutSet sub 50, x, TimeoutSet sub 5000] @ after \<and>
        x \<in> {Eof sub, Failed (Recv sub 1) SocketTimeout} \<and>
        (\<exists>h. connack_ok 5 h \<and> received sub before = h @ gen_suback mp 1 2 v5) \<and>
        sent pub before = gen_connect mp (Some ''pub-qos2-test'') v5 @ gen_publish mp topic (message 2 312 ''message'') \<and>
        (\<exists>h. connack_ok 5 h \<and> received pub before = h @ gen_pubrec mp 312 v5) \<and>
        sent pub after = gen_pubrel mp 312 v5 @ gen_disconnect mp v5 \<and>
        received sub after = gen_publish mp topic (message 2 1 ''message'') @ gen_pubrel mp 1 v5))"
proof (unfold Let_def, rule conjI [OF _ impI], goal_cases)
  case 1
  show ?case by (rule passing_iff [OF qos2_routes_at_pubrel_conv, unfolded qos2_routes_at_pubrel_steps_def Let_def])
next
  case 2
  then have run: "exec (qos2_routes_at_pubrel exe mp) t (Inr ())" and distinct: "distinct (opened t)"  by auto
  have wf: "well_formed 2 (qos2_routes_at_pubrel_steps mp)"
    by (simp add: qos2_routes_at_pubrel_steps_def Let_def step_lists well_formed_def)
  from passing_opened [OF run qos2_routes_at_pubrel_conv wf] obtain sub pub where op: "opened t = [sub, pub]"
    by (auto simp: numeral_eq_Suc length_Suc_conv)
  have window: "10 < length (qos2_routes_at_pubrel_steps mp)" "(qos2_routes_at_pubrel_steps mp) ! 10 = Silent 0"
    "opens (drop (Suc 10) (qos2_routes_at_pubrel_steps mp)) = 0"
    by (simp_all add: qos2_routes_at_pubrel_steps_def Let_def step_lists)
  obtain u x v where t: "t = u @ [TimeoutSet ([sub, pub] ! 0) 50, x, TimeoutSet ([sub, pub] ! 0) 5000] @ v"
    "x \<in> {Eof ([sub, pub] ! 0), Failed (Recv ([sub, pub] ! 0) 1) SocketTimeout}"
    and streams: "\<And>i. i < 2 \<Longrightarrow> sent ([sub, pub] ! i) u = outbox i (take 10 (qos2_routes_at_pubrel_steps mp))"
      "\<And>i. i < 2 \<Longrightarrow> inbox i (take 10 (qos2_routes_at_pubrel_steps mp)) (received ([sub, pub] ! i) u)"
      "\<And>i. i < 2 \<Longrightarrow> sent ([sub, pub] ! i) v = outbox i (drop (Suc 10) (qos2_routes_at_pubrel_steps mp))"
      "\<And>i. i < 2 \<Longrightarrow> inbox i (drop (Suc 10) (qos2_routes_at_pubrel_steps mp)) (received ([sub, pub] ! i) v)"
    by (rule passing_window [OF run qos2_routes_at_pubrel_conv wf distinct op window]) (rule that)
  from t streams(2) [of 0] streams(4) [of 0] streams [of 1] show ?case
    by - (rule exI [of _ sub], rule exI [of _ pub], rule exI [of _ u], rule exI [of _ x], rule exI [of _ v],
      intro conjI, rule op, simp, simp, auto simp: qos2_routes_at_pubrel_steps_def Let_def step_lists)
qed

theorem qos2_invisible_before_pubrel_witness:
  "\<exists>t. exec (qos2_routes_at_pubrel ''netz'' sample_packets) t (Inr ()) \<and> (\<exists>before x after. t = before @ [TimeoutSet 0 50, x, TimeoutSet 0 5000] @ after \<and> sent 1 after = [0x62, 0, 0xE0, 0])"
proof -
  have "realizable (qos2_routes_at_pubrel_steps sample_packets)"
    by (simp add: qos2_routes_at_pubrel_steps_def Let_def step_lists expected_connack_def framed_simps [OF framed_sample] connacks_exist upt_rec)
  from passing_run [OF qos2_routes_at_pubrel_conv this] obtain t where
    run: "exec (qos2_routes_at_pubrel ''netz'' sample_packets) t (Inr ())" and "opened t = [0..<opens (qos2_routes_at_pubrel_steps sample_packets)]" by blast
  then have op: "opened t = [0, 1]" by (simp add: qos2_routes_at_pubrel_steps_def Let_def step_lists upt_rec)
  then have dist: "distinct (opened t)" by simp
  note streams = mp [OF conjunct2 [OF qos2_invisible_before_pubrel [where t = t and exe = "''netz''" and mp = sample_packets, unfolded Let_def]] conjI [OF run dist]]
  from streams op run show ?thesis by (fastforce simp: sample_packets_def nth_Cons')
qed

text \<open>
  C30. qos2_receive_maximum_one passes on exactly the transcripts of the conversation written
  out. In every passing run the subscriber's CONNECT has a Receive Maximum of 1, the publisher
  has completed two QoS 2 messages when the 50 ms window opens, and the subscriber, which has
  read the first message and acknowledged nothing, stays silent in the window; after it the
  second message follows the end of the first handshake.
\<close>

theorem receive_maximum_respected:
  "let topic = ''subpub/qos2/receive/maximum1'';
         msg = (\<lambda>mid. gen_publish mp topic (message 2 mid (''message'' @ decimal mid)));
         send = (\<lambda>mid. [Send 1 (msg mid), Expect 1 (gen_pubrec mp mid v5)] @ Release mp 1 mid) in
   (exec (qos2_receive_maximum_one exe mp pr) t (Inr ()) \<longleftrightarrow> conversation exe 2 False []
     ([Open, Open,
      Send 0 (gen_connect mp (Some ''subpub-qos2-receive-max1'')
      (v5\<lparr>k_properties := Some (gen_uint16_prop pr (RECEIVE_MAXIMUM pr) 1)\<rparr>)),
      Await 0 accepted_ok] @ Subscribe mp 0 1 topic 2 2 @
      Hello mp 1 ''subpub-qos2-recv-max1-helper'' @ send 1 @ send 2 @
      [Expect 0 (msg 1), Silent 0] @ Complete mp 0 1 @
      [Expect 0 (msg 2)] @ Complete mp 0 2 @
      [Bye mp 1, Bye mp 0, Shut 1, Shut 0]) t) \<and>
   (exec (qos2_receive_maximum_one exe mp pr) t (Inr ()) \<and> distinct (opened t) \<longrightarrow>
     (\<exists>sub pub before x after. opened t = [sub, pub] \<and>
        t = before @ [TimeoutSet sub 50, x, TimeoutSet sub 5000] @ after \<and>
        x \<in> {Eof sub, Failed (Recv sub 1) SocketTimeout} \<and>
        sent sub before = gen_connect mp (Some ''subpub-qos2-receive-max1'')
            (v5\<lparr>k_properties := Some (gen_uint16_prop pr (RECEIVE_MAXIMUM pr) 1)\<rparr>) @
          gen_subscribe mp 1 topic 2 v5 \<and>
        (\<exists>h. accepted_ok h \<and> received sub before = h @ gen_suback mp 1 2 v5 @ msg 1) \<and>
        sent pub before = gen_connect mp (Some ''subpub-qos2-recv-max1-helper'') v5 @
          msg 1 @ gen_pubrel mp 1 v5 @ msg 2 @ gen_pubrel mp 2 v5 \<and>
        sent sub after = gen_pubrec mp 1 v5 @ gen_pubcomp mp 1 v5 @ gen_pubrec mp 2 v5 @ gen_pubcomp mp 2 v5 @
          gen_disconnect mp v5 \<and>
        received sub after = gen_pubrel mp 1 v5 @ msg 2 @ gen_pubrel mp 2 v5))"
proof (unfold Let_def, rule conjI [OF _ impI], goal_cases)
  case 1
  show ?case by (rule passing_iff [OF qos2_receive_maximum_one_conv, unfolded qos2_receive_maximum_one_steps_def Let_def])
next
  case 2
  then have run: "exec (qos2_receive_maximum_one exe mp pr) t (Inr ())" and distinct: "distinct (opened t)"  by auto
  have wf: "well_formed 2 (qos2_receive_maximum_one_steps mp pr)"
    by (simp add: qos2_receive_maximum_one_steps_def Let_def step_lists well_formed_def)
  from passing_opened [OF run qos2_receive_maximum_one_conv wf] obtain sub pub where op: "opened t = [sub, pub]"
    by (auto simp: numeral_eq_Suc length_Suc_conv)
  let ?sts = "qos2_receive_maximum_one_steps mp pr"
  have window: "17 < length (qos2_receive_maximum_one_steps mp pr)" "(qos2_receive_maximum_one_steps mp pr) ! 17 = Silent 0"
    "opens (drop (Suc 17) (qos2_receive_maximum_one_steps mp pr)) = 0"
    by (simp_all add: qos2_receive_maximum_one_steps_def Let_def step_lists)
  obtain u x v where t: "t = u @ [TimeoutSet ([sub, pub] ! 0) 50, x, TimeoutSet ([sub, pub] ! 0) 5000] @ v"
    "x \<in> {Eof ([sub, pub] ! 0), Failed (Recv ([sub, pub] ! 0) 1) SocketTimeout}"
    and streams: "\<And>i. i < 2 \<Longrightarrow> sent ([sub, pub] ! i) u = outbox i (take 17 ?sts)"
      "\<And>i. i < 2 \<Longrightarrow> inbox i (take 17 ?sts) (received ([sub, pub] ! i) u)"
      "\<And>i. i < 2 \<Longrightarrow> sent ([sub, pub] ! i) v = outbox i (drop (Suc 17) ?sts)"
      "\<And>i. i < 2 \<Longrightarrow> inbox i (drop (Suc 17) ?sts) (received ([sub, pub] ! i) v)"
    by (rule passing_window [OF run qos2_receive_maximum_one_conv wf distinct op window]) (rule that)
  from t streams [of 0] streams(1) [of 1] show ?case
    by - (rule exI [of _ sub], rule exI [of _ pub], rule exI [of _ u], rule exI [of _ x], rule exI [of _ v],
      intro conjI, rule op, simp, simp, auto simp: qos2_receive_maximum_one_steps_def Let_def step_lists)
qed

theorem receive_maximum_respected_witness:
  "\<exists>t. exec (qos2_receive_maximum_one ''netz'' sample_packets sample_props) t (Inr ()) \<and> (\<exists>before x after. t = before @ [TimeoutSet 0 50, x, TimeoutSet 0 5000] @ after \<and> received 0 after = [0x62, 0, 0x30, 0, 0x62, 0])"
proof -
  have "realizable (qos2_receive_maximum_one_steps sample_packets sample_props)"
    by (simp add: qos2_receive_maximum_one_steps_def Let_def step_lists expected_connack_def framed_simps [OF framed_sample] connacks_exist upt_rec)
  from passing_run [OF qos2_receive_maximum_one_conv this] obtain t where
    run: "exec (qos2_receive_maximum_one ''netz'' sample_packets sample_props) t (Inr ())" and "opened t = [0..<opens (qos2_receive_maximum_one_steps sample_packets sample_props)]" by blast
  then have op: "opened t = [0, 1]" by (simp add: qos2_receive_maximum_one_steps_def Let_def step_lists upt_rec)
  then have dist: "distinct (opened t)" by simp
  note streams = mp [OF conjunct2 [OF receive_maximum_respected [where t = t and exe = "''netz''" and mp = sample_packets and pr = sample_props, unfolded Let_def]] conjI [OF run dist]]
  from streams op run show ?thesis by (fastforce simp: sample_packets_def nth_Cons')
qed

text \<open>
  C31. In every passing run of qos2_duplicate_publish, although the publisher sends the message
  twice, the subscriber receives it once: CONNACK, SUBACK, one PUBLISH, and the PUBREL of its
  handshake.
\<close>

theorem duplicate_publish_delivered_once:
  assumes run: "exec (qos2_duplicate_publish exe mp) t (Inr ())" and distinct: "distinct (opened t)"
  shows "\<exists>sub pub connack. opened t = [sub, pub] \<and> connack_ok 5 connack \<and>
     sent pub t = gen_connect mp (Some ''qos2-dup-publisher'') v5 @
       gen_publish mp ''03/c2b/qos2/duplicate/test'' (message 2 7 ''original''\<lparr>k_dup := Some False\<rparr>) @
       gen_publish mp ''03/c2b/qos2/duplicate/test'' (message 2 7 ''original''\<lparr>k_dup := Some True\<rparr>) @
       gen_pubrel mp 7 v5 @ gen_disconnect mp v5 \<and>
     received sub t = connack @ gen_suback mp 1 2 v5 @
       gen_publish mp ''03/c2b/qos2/duplicate/test'' (message 2 1 ''original'') @ gen_pubrel mp 1 v5"
proof -
  let ?sts = "qos2_duplicate_publish_steps mp"
  from run have conv: "conversation exe 2 False [] ?sts t"
    using qos2_duplicate_publish_conv [of exe mp "()"] by (simp add: ok_def fun_eq_iff)
  have wf: "well_formed 2 ?sts" "opens (drop 14 ?sts) = 0"
    by (simp_all add: qos2_duplicate_publish_steps_def Let_def step_lists well_formed_def)
  obtain sub pub u v where "opened t = [sub, pub]" "t = u @ v"
    "inbox 0 (take 14 ?sts) (received sub u)" "inbox 0 (drop 14 ?sts) (received sub v)"
    "sent pub u = outbox 1 (take 14 ?sts)" "sent pub v = outbox 1 (drop 14 ?sts)"
    by (rule conversation_split_two [OF conv wf distinct])
  then show ?thesis
    by (intro exI [of _ sub] exI [of _ pub]) (auto simp: qos2_duplicate_publish_steps_def Let_def step_lists)
qed

theorem duplicate_publish_delivered_once_witness:
  "\<exists>t connack. exec (qos2_duplicate_publish ''netz'' sample_packets) t (Inr ()) \<and>
     received 0 t = connack @ [0x90, 0, 0x30, 0, 0x62, 0]"
proof -
  let ?sts = "qos2_duplicate_publish_steps sample_packets"
  have "realizable ?sts"
    by (simp add: qos2_duplicate_publish_steps_def Let_def step_lists framed_simps [OF framed_sample] connacks_exist)
  from conversation_inhabited [OF this] obtain t where "conversation ''netz'' 2 False [] ?sts t"
    and op: "opened t = [0..<opens ?sts]" by blast
  then have run: "exec (qos2_duplicate_publish ''netz'' sample_packets) t (Inr ())"
    using qos2_duplicate_publish_conv [of "''netz''" sample_packets "()"] by (simp add: ok_def fun_eq_iff)
  have op2: "opened t = [0, 1]"
    by (simp add: op qos2_duplicate_publish_steps_def Let_def step_lists upt_rec)
  then have "distinct (opened t)" by simp
  from duplicate_publish_delivered_once [OF run this] op2 run show ?thesis
    by (fastforce simp: sample_packets_def)
qed

text \<open>
  C32. shared_subscription_rotation passes on exactly the transcripts of the conversation
  written out. In every passing run the first client has subscribed to the topic itself, the
  second and fifth to group one, the fourth to group two and the third to both groups; the first
  and the third client read each of the three messages once, the second, fourth and fifth the
  first, the second and the third message and no other.
\<close>

theorem shared_groups_take_turns:
  "let msg = (\<lambda>n. gen_publish mp ''02A/share/test'' (message0 (''message'' @ decimal n)));
         hello = (\<lambda>i. Hello mp i (''02-shared-client'' @ decimal (i + 1)));
         sub = (\<lambda>i topic. Subscribe mp i 1 topic 0 0);
         one = ''$share/one/02A/share/test''; two = ''$share/two/02A/share/test'';
         connect = (\<lambda>n. gen_connect mp (Some (''02-shared-client'' @ decimal n)) v5);
         subscribe = (\<lambda>topic. gen_subscribe mp 1 topic 0 v5); suback = gen_suback mp 1 0 v5;
         saw = (\<lambda>s bs. \<exists>h. connack_ok 5 h \<and> received s t = h @ bs) in
   (exec (shared_subscription_rotation exe mp) t (Inr ()) \<longleftrightarrow> conversation exe 5 False []
     (replicate 5 Open @ hello 0 @ hello 1 @ hello 2 @ hello 3 @ hello 4 @
      sub 0 ''02A/#'' @ sub 1 one @ sub 2 one @ sub 2 two @ sub 3 two @ sub 4 one @
      [Send 0 (msg 1), Expect 0 (msg 1), Expect 1 (msg 1), Expect 2 (msg 1),
      Send 0 (msg 2), Expect 0 (msg 2), Expect 2 (msg 2), Expect 3 (msg 2),
      Send 0 (msg 3), Expect 0 (msg 3), Expect 2 (msg 3), Expect 4 (msg 3)] @
      map (Bye mp) [0..<5] @ map Shut [0..<5]) t) \<and>
   (exec (shared_subscription_rotation exe mp) t (Inr ()) \<and> distinct (opened t) \<longrightarrow>
     (\<exists>a b c d e. opened t = [a, b, c, d, e] \<and>
        sent a t = connect 1 @ subscribe ''02A/#'' @ msg 1 @ msg 2 @ msg 3 @ gen_disconnect mp v5 \<and>
        saw a (suback @ msg 1 @ msg 2 @ msg 3) \<and>
        sent b t = connect 2 @ subscribe one @ gen_disconnect mp v5 \<and>
        saw b (suback @ msg 1) \<and>
        sent c t = connect 3 @ subscribe one @ subscribe two @ gen_disconnect mp v5 \<and>
        saw c (suback @ suback @ msg 1 @ msg 2 @ msg 3) \<and>
        sent d t = connect 4 @ subscribe two @ gen_disconnect mp v5 \<and>
        saw d (suback @ msg 2) \<and>
        sent e t = connect 5 @ subscribe one @ gen_disconnect mp v5 \<and>
        saw e (suback @ msg 3)))"
proof (unfold Let_def, rule conjI [OF _ impI], goal_cases)
  case 1
  show ?case by (rule passing_iff [OF shared_subscription_rotation_conv, unfolded shared_subscription_rotation_steps_def Let_def])
next
  case 2
  then have run: "exec (shared_subscription_rotation exe mp) t (Inr ())" and distinct: "distinct (opened t)"  by auto
  have wf: "well_formed 5 (shared_subscription_rotation_steps mp)"
    by (simp add: shared_subscription_rotation_steps_def Let_def step_lists well_formed_def five_connections numeral_2_eq_2 [symmetric])
  note streams = passing_streams [OF run shared_subscription_rotation_conv wf distinct]
  from passing_opened [OF run shared_subscription_rotation_conv wf] obtain a b c d e where op: "opened t = [a, b, c, d, e]"
    by (auto simp: numeral_eq_Suc length_Suc_conv)
  from streams [of 0] streams [of 1] streams [of 2] streams [of 3] streams [of 4] show ?case
    by - (rule exI [of _ a], rule exI [of _ b], rule exI [of _ c], rule exI [of _ d], rule exI [of _ e], auto simp: op shared_subscription_rotation_steps_def Let_def step_lists five_connections numeral_2_eq_2 [symmetric])
qed

theorem shared_groups_take_turns_witness:
  "\<exists>t. exec (shared_subscription_rotation ''netz'' sample_packets) t (Inr ()) \<and> (\<exists>h. connack_ok 5 h \<and> received 1 t = h @ [0x90, 0, 0x30, 0])"
proof -
  have "realizable (shared_subscription_rotation_steps sample_packets)"
    by (simp add: shared_subscription_rotation_steps_def Let_def step_lists expected_connack_def framed_simps [OF framed_sample] connacks_exist upt_rec five_connections numeral_2_eq_2 [symmetric])
  from passing_run [OF shared_subscription_rotation_conv this] obtain t where
    run: "exec (shared_subscription_rotation ''netz'' sample_packets) t (Inr ())" and "opened t = [0..<opens (shared_subscription_rotation_steps sample_packets)]" by blast
  then have op: "opened t = [0, 1, 2, 3, 4]" by (simp add: shared_subscription_rotation_steps_def Let_def step_lists five_connections numeral_2_eq_2 [symmetric] upt_rec)
  then have dist: "distinct (opened t)" by simp
  note streams = mp [OF conjunct2 [OF shared_groups_take_turns [where t = t and exe = "''netz''" and mp = sample_packets, unfolded Let_def]] conjI [OF run dist]]
  from streams op run show ?thesis by (fastforce simp: sample_packets_def nth_Cons')
qed

text \<open>
  C33. retained_message_expiry passes on exactly the transcripts of the conversation written
  out. In every passing run a client publishes two retained messages, one with an expiry of two
  seconds; a second client subscribes to both topics and reads the expiring message with one or
  two seconds left and the other one; after a pause of three seconds a third client sends the
  same two SUBSCRIBEs and reads the other message only.
\<close>

theorem expired_message_not_replayed:
  "let expired = ''subpub/expired''; kept = ''subpub/kept'';
         expiry = gen_uint32_prop pr (MESSAGE_EXPIRY_INTERVAL pr);
         no_match = v5\<lparr>k_reason_code := Some (Code (NO_MATCHING_SUBSCRIBERS rc))\<rparr>;
         replay1 = (\<lambda>secs. gen_publish mp expired
         (message0 ''message1''\<lparr>k_retain := Some True, k_properties := Some (expiry secs)\<rparr>));
         replay2 = gen_publish mp kept (message0 ''message2''\<lparr>k_retain := Some True\<rparr>);
         saw = (\<lambda>s bs. \<exists>h. connack_ok 5 h \<and> received s t = h @ bs) in
   (exec (retained_message_expiry exe mp pr rc) t (Inr ()) \<longleftrightarrow> conversation exe 3 False []
     ([Open] @ Hello mp 0 ''expiry-helper'' @
      [Send 0 (gen_publish mp expired
      (message 1 1 ''message1''\<lparr>k_retain := Some True, k_properties := Some (expiry 2)\<rparr>)),
      Expect 0 (gen_puback mp 1 no_match),
      Send 0 (gen_publish mp kept (message 1 2 ''message2''\<lparr>k_retain := Some True\<rparr>)),
      Expect 0 (gen_puback mp 2 no_match), Bye mp 0, Shut 0,
      Open] @ Hello mp 1 ''expiry-immediate'' @ Subscribe mp 1 1 expired 0 0 @
      [Await 1 (\<lambda>p. p \<in> set [replay1 2, replay1 1])] @ Subscribe mp 1 2 kept 0 0 @
      [Expect 1 replay2, Bye mp 1, Shut 1,
      Pause 3000,
      Open] @ Hello mp 2 ''expiry-late'' @ Subscribe mp 2 1 expired 0 0 @
      Subscribe mp 2 2 kept 0 0 @ [Expect 2 replay2, Bye mp 2, Shut 2]) t) \<and>
   (exec (retained_message_expiry exe mp pr rc) t (Inr ()) \<and> distinct (opened t) \<longrightarrow>
     (\<exists>a b c. timeline t = [Inl a, Inl b, Inr 3000, Inl c] \<and>
        sent a t = gen_connect mp (Some ''expiry-helper'') v5 @
          gen_publish mp expired (message 1 1 ''message1''\<lparr>k_retain := Some True, k_properties := Some (expiry 2)\<rparr>) @
          gen_publish mp kept (message 1 2 ''message2''\<lparr>k_retain := Some True\<rparr>) @ gen_disconnect mp v5 \<and>
        saw a (gen_puback mp 1 no_match @ gen_puback mp 2 no_match) \<and>
        sent b t = gen_connect mp (Some ''expiry-immediate'') v5 @ gen_subscribe mp 1 expired 0 v5 @
          gen_subscribe mp 2 kept 0 v5 @ gen_disconnect mp v5 \<and>
        (\<exists>secs \<in> {1, 2}. saw b (gen_suback mp 1 0 v5 @ replay1 secs @ gen_suback mp 2 0 v5 @ replay2)) \<and>
        sent c t = gen_connect mp (Some ''expiry-late'') v5 @ gen_subscribe mp 1 expired 0 v5 @
          gen_subscribe mp 2 kept 0 v5 @ gen_disconnect mp v5 \<and>
        saw c (gen_suback mp 1 0 v5 @ gen_suback mp 2 0 v5 @ replay2)))"
proof (unfold Let_def, rule conjI [OF _ impI], goal_cases)
  case 1
  show ?case by (rule passing_iff [OF retained_message_expiry_conv, unfolded retained_message_expiry_steps_def Let_def])
next
  case 2
  then have run: "exec (retained_message_expiry exe mp pr rc) t (Inr ())" and distinct: "distinct (opened t)"  by auto
  have wf: "well_formed 3 (retained_message_expiry_steps mp pr rc)"
    by (simp add: retained_message_expiry_steps_def Let_def step_lists well_formed_def)
  note streams = passing_streams [OF run retained_message_expiry_conv wf distinct]
  from passing_opened [OF run retained_message_expiry_conv wf] obtain a b c where op: "opened t = [a, b, c]"
    by (auto simp: numeral_eq_Suc length_Suc_conv)
  have "timeline t = [Inl a, Inl b, Inr 3000, Inl c]"
    using passing_timeline [OF run retained_message_expiry_conv] by (simp add: op retained_message_expiry_steps_def Let_def step_lists)
  with streams [of 0] streams [of 1] streams [of 2] show ?case
    by - (rule exI [of _ a], rule exI [of _ b], rule exI [of _ c], auto simp: op retained_message_expiry_steps_def Let_def step_lists)
qed

theorem expired_message_not_replayed_witness:
  "\<exists>t. exec (retained_message_expiry ''netz'' sample_packets sample_props sample_rc) t (Inr ()) \<and> (\<exists>c h. connack_ok 5 h \<and> received c t = h @ [0x90, 0, 0x90, 0, 0x30, 0])"
proof -
  have "realizable (retained_message_expiry_steps sample_packets sample_props sample_rc)"
    by (simp add: retained_message_expiry_steps_def Let_def step_lists expected_connack_def framed_simps [OF framed_sample] connacks_exist upt_rec)
      (blast intro: framed_simps [OF framed_sample])
  from passing_run [OF retained_message_expiry_conv this] obtain t where
    run: "exec (retained_message_expiry ''netz'' sample_packets sample_props sample_rc) t (Inr ())" and "opened t = [0..<opens (retained_message_expiry_steps sample_packets sample_props sample_rc)]" by blast
  then have op: "opened t = [0, 1, 2]" by (simp add: retained_message_expiry_steps_def Let_def step_lists upt_rec)
  then have dist: "distinct (opened t)" by simp
  note streams = mp [OF conjunct2 [OF expired_message_not_replayed [where t = t and exe = "''netz''" and mp = sample_packets and pr = sample_props and rc = sample_rc, unfolded Let_def]] conjI [OF run dist]]
  from streams op run show ?thesis by (fastforce simp: sample_packets_def nth_Cons')
qed

text \<open>
  C34. persistent_no_local passes on exactly the transcripts of the conversation written out. In
  every passing run the first connection subscribes with option 5 (QoS 1 with no-local); the
  second one resumes the session (session present), publishes to the topic and has read nothing
  but the PUBACK when the 50 ms window ends in silence or an end of stream; it then replaces the
  subscription by option 1 (no no-local), publishes again and reads the PUBACK and the PUBLISH
  in either order.
\<close>

theorem no_local_survives_reconnect:
  "let topic = ''subpub/nolocal'';
         hello = gen_connect mp (Some ''persistent-subscription-test'')
         (v5\<lparr>k_clean_session := Some False, k_session_expiry := Some 60\<rparr>) in
   (exec (persistent_no_local exe mp) t (Inr ()) \<longleftrightarrow> conversation exe 2 False []
     ([Open, Send 0 hello, Await 0 (persistent_ok False)] @ Subscribe mp 0 1 topic 5 1 @
      [Bye mp 0, Shut 0,
      Open, Send 1 hello, Await 1 (persistent_ok True),
      Send 1 (gen_publish mp topic (message 1 1 ''message'')), Expect 1 (gen_puback mp 1 v5), Silent 1] @
      Subscribe mp 1 2 topic 1 1 @
      [Send 1 (gen_publish mp topic (message 1 3 ''message'')),
      ExpectPerm 1 [gen_puback mp 3 v5, gen_publish mp topic (message 1 1 ''message'')],
      Send 1 (gen_puback mp 1 v5), Bye mp 1, Shut 1]) t) \<and>
   (exec (persistent_no_local exe mp) t (Inr ()) \<and> distinct (opened t) \<longrightarrow>
     (\<exists>a b before x after. opened t = [a, b] \<and>
        t = before @ [TimeoutSet b 50, x, TimeoutSet b 5000] @ after \<and>
        x \<in> {Eof b, Failed (Recv b 1) SocketTimeout} \<and>
        sent a before = hello @ gen_subscribe mp 1 topic 5 v5 @ gen_disconnect mp v5 \<and>
        (\<exists>h. persistent_ok False h \<and> received a before = h @ gen_suback mp 1 1 v5) \<and>
        sent b before = hello @ gen_publish mp topic (message 1 1 ''message'') \<and>
        (\<exists>h. persistent_ok True h \<and> received b before = h @ gen_puback mp 1 v5) \<and>
        sent b after = gen_subscribe mp 2 topic 1 v5 @ gen_publish mp topic (message 1 3 ''message'') @
          gen_puback mp 1 v5 @ gen_disconnect mp v5 \<and>
        (\<exists>q q'. received b after = gen_suback mp 2 1 v5 @ q @ q' \<and> {#q, q'#} = {#gen_puback mp 3 v5, gen_publish mp topic (message 1 1 ''message'')#})))"
proof (unfold Let_def, rule conjI [OF _ impI], goal_cases)
  case 1
  show ?case by (rule passing_iff [OF persistent_no_local_conv, unfolded persistent_no_local_steps_def Let_def])
next
  case 2
  then have run: "exec (persistent_no_local exe mp) t (Inr ())" and distinct: "distinct (opened t)"  by auto
  have wf: "well_formed 2 (persistent_no_local_steps mp)"
    by (simp add: persistent_no_local_steps_def Let_def step_lists well_formed_def)
  from passing_opened [OF run persistent_no_local_conv wf] obtain a b where op: "opened t = [a, b]"
    by (auto simp: numeral_eq_Suc length_Suc_conv)
  let ?sts = "persistent_no_local_steps mp"
  have window: "12 < length (persistent_no_local_steps mp)" "(persistent_no_local_steps mp) ! 12 = Silent 1"
    "opens (drop (Suc 12) (persistent_no_local_steps mp)) = 0"
    by (simp_all add: persistent_no_local_steps_def Let_def step_lists)
  obtain u x v where t: "t = u @ [TimeoutSet ([a, b] ! 1) 50, x, TimeoutSet ([a, b] ! 1) 5000] @ v"
    "x \<in> {Eof ([a, b] ! 1), Failed (Recv ([a, b] ! 1) 1) SocketTimeout}"
    and streams: "\<And>i. i < 2 \<Longrightarrow> sent ([a, b] ! i) u = outbox i (take 12 ?sts)"
      "\<And>i. i < 2 \<Longrightarrow> inbox i (take 12 ?sts) (received ([a, b] ! i) u)"
      "\<And>i. i < 2 \<Longrightarrow> sent ([a, b] ! i) v = outbox i (drop (Suc 12) ?sts)"
      "\<And>i. i < 2 \<Longrightarrow> inbox i (drop (Suc 12) ?sts) (received ([a, b] ! i) v)"
    by (rule passing_window [OF run persistent_no_local_conv wf distinct op window]) (rule that)
  from streams(4) [of 1] obtain ps where
    ps: "mset ps = {#gen_puback mp 3 v5, gen_publish mp ''subpub/nolocal'' (message 1 1 ''message'')#}"
    "received b v = gen_suback mp 2 1 v5 @ concat ps" by (auto simp: persistent_no_local_steps_def Let_def step_lists)
  from arg_cong [OF ps(1), of size] obtain q q' where "ps = [q, q']"
    by (auto simp: length_Suc_conv numeral_2_eq_2)
  with ps t streams(1,2) [of 0] streams(1-3) [of 1] show ?case
    by - (rule exI [of _ a], rule exI [of _ b], rule exI [of _ u], rule exI [of _ x], rule exI [of _ v],
      intro conjI, rule op, simp, simp, auto simp: persistent_no_local_steps_def Let_def step_lists)
qed

theorem no_local_survives_reconnect_witness:
  "\<exists>t. exec (persistent_no_local ''netz'' sample_packets) t (Inr ()) \<and> (\<exists>before x after. t = before @ [TimeoutSet 1 50, x, TimeoutSet 1 5000] @ after \<and> sent 1 before = [0x10, 0, 0x30, 0])"
proof -
  have "realizable (persistent_no_local_steps sample_packets)"
    by (simp add: persistent_no_local_steps_def Let_def step_lists expected_connack_def framed_simps [OF framed_sample] connacks_exist upt_rec)
  from passing_run [OF persistent_no_local_conv this] obtain t where
    run: "exec (persistent_no_local ''netz'' sample_packets) t (Inr ())" and "opened t = [0..<opens (persistent_no_local_steps sample_packets)]" by blast
  then have op: "opened t = [0, 1]" by (simp add: persistent_no_local_steps_def Let_def step_lists upt_rec)
  then have dist: "distinct (opened t)" by simp
  note streams = mp [OF conjunct2 [OF no_local_survives_reconnect [where t = t and exe = "''netz''" and mp = sample_packets, unfolded Let_def]] conjI [OF run dist]]
  from streams op run show ?thesis by (fastforce simp: sample_packets_def nth_Cons')
qed

text \<open>
  C35. disconnect_session_expiry passes on exactly the transcripts of the conversation written
  out, in which each pause comes after the DISCONNECT. In every passing run four connections
  with the same CONNECT are made, two seconds after the first and four seconds after the second;
  the first two end with a DISCONNECT that sets the expiry to three seconds, the third with an
  expiry of zero, and only the second finds its session present.
\<close>

theorem session_expiry_set_by_disconnect:
  "let hello = gen_connect mp (Some ''session-expiry'')
         (v5\<lparr>k_clean_session := Some False, k_session_expiry := Some 1\<rparr>);
         connack = (\<lambda>present. expected_connack mp pr (connack_defaults\<lparr>session_present := present\<rparr>));
         bye = (\<lambda>secs. gen_disconnect mp
         (v5\<lparr>k_properties := Some (gen_uint32_prop pr (SESSION_EXPIRY_INTERVAL pr) secs)\<rparr>)) in
   (exec (disconnect_session_expiry exe mp pr) t (Inr ()) \<longleftrightarrow> conversation exe 4 False []
     ([Open, Send 0 hello, Expect 0 (connack False), Send 0 (bye 3), Ended 0, Shut 0,
      Pause 2000,
      Open, Send 1 hello, Expect 1 (connack True), Send 1 (bye 3), Ended 1, Shut 1,
      Pause 4000,
      Open, Send 2 hello, Expect 2 (connack False), Send 2 (bye 0), Ended 2, Shut 2,
      Open, Send 3 hello, Expect 3 (connack False), Send 3 (gen_disconnect mp v5), Shut 3]) t) \<and>
   (exec (disconnect_session_expiry exe mp pr) t (Inr ()) \<and> distinct (opened t) \<longrightarrow>
     (\<exists>a b c d. timeline t = [Inl a, Inr 2000, Inl b, Inr 4000, Inl c, Inl d] \<and>
        sent a t = hello @ bye 3 \<and> received a t = connack False \<and>
        sent b t = hello @ bye 3 \<and> received b t = connack True \<and>
        sent c t = hello @ bye 0 \<and> received c t = connack False \<and>
        sent d t = hello @ gen_disconnect mp v5 \<and> received d t = connack False))"
proof (unfold Let_def, rule conjI [OF _ impI], goal_cases)
  case 1
  show ?case by (rule passing_iff [OF disconnect_session_expiry_conv, unfolded disconnect_session_expiry_steps_def Let_def])
next
  case 2
  then have run: "exec (disconnect_session_expiry exe mp pr) t (Inr ())" and distinct: "distinct (opened t)"  by auto
  have wf: "well_formed 4 (disconnect_session_expiry_steps mp pr)"
    by (simp add: disconnect_session_expiry_steps_def Let_def step_lists well_formed_def)
  note streams = passing_streams [OF run disconnect_session_expiry_conv wf distinct]
  from passing_opened [OF run disconnect_session_expiry_conv wf] obtain a b c d where op: "opened t = [a, b, c, d]"
    by (auto simp: numeral_eq_Suc length_Suc_conv)
  have "timeline t = [Inl a, Inr 2000, Inl b, Inr 4000, Inl c, Inl d]"
    using passing_timeline [OF run disconnect_session_expiry_conv] by (simp add: op disconnect_session_expiry_steps_def Let_def step_lists)
  with streams [of 0] streams [of 1] streams [of 2] streams [of 3] show ?case
    by - (rule exI [of _ a], rule exI [of _ b], rule exI [of _ c], rule exI [of _ d], simp add: op disconnect_session_expiry_steps_def Let_def step_lists)
qed

theorem session_expiry_set_by_disconnect_witness:
  "\<exists>t. exec (disconnect_session_expiry ''netz'' sample_packets sample_props) t (Inr ()) \<and> (\<exists>a. sent a t = [0x10, 0, 0xE0, 0])"
proof -
  have "realizable (disconnect_session_expiry_steps sample_packets sample_props)"
    by (simp add: disconnect_session_expiry_steps_def Let_def step_lists expected_connack_def framed_simps [OF framed_sample] connacks_exist upt_rec)
  from passing_run [OF disconnect_session_expiry_conv this] obtain t where
    run: "exec (disconnect_session_expiry ''netz'' sample_packets sample_props) t (Inr ())" and "opened t = [0..<opens (disconnect_session_expiry_steps sample_packets sample_props)]" by blast
  then have op: "opened t = [0, 1, 2, 3]" by (simp add: disconnect_session_expiry_steps_def Let_def step_lists upt_rec)
  then have dist: "distinct (opened t)" by simp
  note streams = mp [OF conjunct2 [OF session_expiry_set_by_disconnect [where t = t and exe = "''netz''" and mp = sample_packets and pr = sample_props, unfolded Let_def]] conjI [OF run dist]]
  from streams op run show ?thesis by (fastforce simp: sample_packets_def nth_Cons')
qed

text \<open>
  C36. hostile_initial_packets passes on exactly the transcripts of the conversation written
  out. In every passing run each of the fourteen connections whose first packet is of type 2 to
  15 and announces the length 0x80 0x80 0x80 0x74 receives no byte and ends with an end of
  stream or a reset that the harness observes, and the fifteenth connection is accepted.
\<close>

theorem hostile_packets_get_no_answer:
  "(exec (hostile_initial_packets exe mp) t (Inr ()) \<longleftrightarrow> conversation exe 15 True []
     (concat (map (\<lambda>i. [Open, Send i [push_bit 4 (of_nat (i + 2)), 0x80, 0x80, 0x80, 0x74], Gone i, Shut i])
      [0..<14]) @
      [Open] @ Hello mp 14 ''after-hostile-initial'' @ [Send 14 (gen_disconnect mp v5), Shut 14]) t) \<and>
   (exec (hostile_initial_packets exe mp) t (Inr ()) \<and> distinct (opened t) \<longrightarrow>
     length (opened t) = 15 \<and> connack_ok 5 (received (opened t ! 14) t) \<and>
     (\<forall>i < 14. sent (opened t ! i) t = [push_bit 4 (of_nat (i + 2)), 0x80, 0x80, 0x80, 0x74] \<and>
        received (opened t ! i) t = [] \<and>
        (\<exists>x \<in> set t. x \<in> {Eof (opened t ! i), Failed (Recv (opened t ! i) 1) ConnectionResetError,
          Failed (Recv (opened t ! i) 1) BrokenPipeError})))"
proof (rule conjI [OF _ impI], goal_cases)
  case 1
  show ?case by (rule passing_iff [OF hostile_initial_packets_conv, unfolded hostile_initial_packets_steps_def Let_def])
next
  case 2
  then have run: "exec (hostile_initial_packets exe mp) t (Inr ())" and distinct: "distinct (opened t)"  by auto
  have wf: "well_formed 15 (hostile_initial_packets_steps mp)"
    by (simp add: hostile_initial_packets_steps_def Let_def step_lists well_formed_def upt_rec)
  note streams = passing_streams [OF run hostile_initial_packets_conv wf distinct]
  have "sent (opened t ! i) t = [push_bit 4 (of_nat (i + 2)), 0x80, 0x80, 0x80, 0x74] \<and>
        received (opened t ! i) t = [] \<and> (\<exists>x \<in> set t. x \<in> {Eof (opened t ! i),
          Failed (Recv (opened t ! i) 1) ConnectionResetError, Failed (Recv (opened t ! i) 1) BrokenPipeError})"
    if "i < 14" for i
  proof -
    from that have "i \<in> set [0..<14]" by simp
    moreover have "\<forall>i \<in> set [0..<14]. outbox i (hostile_initial_packets_steps mp) =
        [push_bit 4 (of_nat (i + 2)), 0x80, 0x80, 0x80, 0x74]"
      "\<forall>i \<in> set [0..<14]. \<forall>bs. inbox i (hostile_initial_packets_steps mp) bs \<longrightarrow> bs = []"
      "\<forall>i \<in> set [0..<14]. Gone i \<in> set (hostile_initial_packets_steps mp)"
      by (simp_all add: hostile_initial_packets_steps_def Let_def step_lists upt_rec)
    ultimately show ?thesis using streams [of i] that passing_dropped [OF run hostile_initial_packets_conv wf, of i]
      by (simp add: dropped_def)
  qed
  moreover from streams(2) [of 14] have "connack_ok 5 (received (opened t ! 14) t)"
    by (auto simp: hostile_initial_packets_steps_def Let_def step_lists upt_rec)
  ultimately show ?case using passing_opened [OF run hostile_initial_packets_conv wf] by blast
qed

theorem hostile_packets_get_no_answer_witness:
  "\<exists>t. exec (hostile_initial_packets ''netz'' sample_packets) t (Inr ()) \<and> received (opened t ! 13) t = []"
proof -
  have "realizable (hostile_initial_packets_steps sample_packets)"
    by (simp add: hostile_initial_packets_steps_def Let_def step_lists expected_connack_def framed_simps [OF framed_sample] connacks_exist upt_rec upt_rec)
  from passing_run [OF hostile_initial_packets_conv this] obtain t where
    run: "exec (hostile_initial_packets ''netz'' sample_packets) t (Inr ())" and "opened t = [0..<opens (hostile_initial_packets_steps sample_packets)]" by blast
  then have op: "opened t = [0, 1, 2, 3, 4, 5, 6, 7, 8, 9, 10, 11, 12, 13, 14]" by (simp add: hostile_initial_packets_steps_def Let_def step_lists upt_rec upt_rec)
  then have dist: "distinct (opened t)" by simp
  from mp [OF conjunct2 [OF hostile_packets_get_no_answer [where t = t and exe = "''netz''" and mp = sample_packets]] conjI [OF run dist]]
  have "13 < (14 :: nat) \<longrightarrow> received (opened t ! 13) t = []" by blast
  with run show ?thesis by auto
qed

text \<open>
  C37. retained_subscription_handling passes on exactly the transcripts of the conversation
  written out. In every passing run the client subscribes twice with each retain handling option
  to a topic of its own: with never it reads no retained message (a silent window follows each
  SUBACK), with new it reads one after the first SUBACK and a silent window follows the second,
  with always it reads one after each.
\<close>

theorem retain_handling_options:
  "let always = ''02/subpub/send-retain/always''; new = ''02/subpub/send-retain/new'';
         never = ''02/subpub/send-retain/never'';
         retained = (\<lambda>topic. gen_publish mp topic (message0 ''message''\<lparr>k_retain := Some True\<rparr>));
         subscribe = (\<lambda>mid topic option. gen_subscribe mp mid topic (option op) v5);
         suback = (\<lambda>mid. gen_suback mp mid 0 v5) in
   (exec (retained_subscription_handling exe mp op) t (Inr ()) \<longleftrightarrow> conversation exe 1 False []
     ([Open] @ Hello mp 0 ''02-subpub-qos0-send-retain'' @
      [Send 0 (retained always), Send 0 (retained new), Send 0 (retained never)] @
      Subscribe mp 0 532 never (MQTT_SUB_OPT_SEND_RETAIN_NEVER op) 0 @ [Silent 0] @
      Subscribe mp 0 532 never (MQTT_SUB_OPT_SEND_RETAIN_NEVER op) 0 @ [Silent 0] @
      Subscribe mp 0 531 new (MQTT_SUB_OPT_SEND_RETAIN_NEW op) 0 @ [Expect 0 (retained new)] @
      Subscribe mp 0 531 new (MQTT_SUB_OPT_SEND_RETAIN_NEW op) 0 @ [Silent 0] @
      Subscribe mp 0 530 always (MQTT_SUB_OPT_SEND_RETAIN_ALWAYS op) 0 @ [Expect 0 (retained always)] @
      Subscribe mp 0 530 always (MQTT_SUB_OPT_SEND_RETAIN_ALWAYS op) 0 @ [Expect 0 (retained always)] @
      [Bye mp 0, Shut 0]) t) \<and>
   (exec (retained_subscription_handling exe mp op) t (Inr ()) \<and> distinct (opened t) \<longrightarrow>
     (\<exists>a h. opened t = [a] \<and> connack_ok 5 h \<and>
        sent a t = gen_connect mp (Some ''02-subpub-qos0-send-retain'') v5 @
          retained always @ retained new @ retained never @
          subscribe 532 never MQTT_SUB_OPT_SEND_RETAIN_NEVER @ subscribe 532 never MQTT_SUB_OPT_SEND_RETAIN_NEVER @
          subscribe 531 new MQTT_SUB_OPT_SEND_RETAIN_NEW @ subscribe 531 new MQTT_SUB_OPT_SEND_RETAIN_NEW @
          subscribe 530 always MQTT_SUB_OPT_SEND_RETAIN_ALWAYS @ subscribe 530 always MQTT_SUB_OPT_SEND_RETAIN_ALWAYS @
          gen_disconnect mp v5 \<and>
        received a t = h @ suback 532 @ suback 532 @ suback 531 @ retained new @ suback 531 @
          suback 530 @ retained always @ suback 530 @ retained always))"
proof (unfold Let_def, rule conjI [OF _ impI], goal_cases)
  case 1
  show ?case by (rule passing_iff [OF retained_subscription_handling_conv, unfolded retained_subscription_handling_steps_def Let_def])
next
  case 2
  then have run: "exec (retained_subscription_handling exe mp op) t (Inr ())" and distinct: "distinct (opened t)"  by auto
  have wf: "well_formed 1 (retained_subscription_handling_steps mp op)"
    by (simp add: retained_subscription_handling_steps_def Let_def step_lists well_formed_def)
  from passing_opened [OF run retained_subscription_handling_conv wf] obtain a where op: "opened t = [a]" by (auto simp: length_Suc_conv)
  note streams = passing_streams [OF run retained_subscription_handling_conv wf distinct]
  from streams [of 0] show ?case by (auto simp: op retained_subscription_handling_steps_def Let_def step_lists)
qed

theorem retain_handling_options_witness:
  "\<exists>t. exec (retained_subscription_handling ''netz'' sample_packets sample_opts) t (Inr ()) \<and> (\<exists>h. connack_ok 5 h \<and> received 0 t = h @ [0x90, 0, 0x90, 0, 0x90, 0, 0x30, 0, 0x90, 0, 0x90, 0, 0x30, 0, 0x90, 0, 0x30, 0])"
proof -
  have "realizable (retained_subscription_handling_steps sample_packets sample_opts)"
    by (simp add: retained_subscription_handling_steps_def Let_def step_lists expected_connack_def framed_simps [OF framed_sample] connacks_exist upt_rec)
  from passing_run [OF retained_subscription_handling_conv this] obtain t where
    run: "exec (retained_subscription_handling ''netz'' sample_packets sample_opts) t (Inr ())" and "opened t = [0..<opens (retained_subscription_handling_steps sample_packets sample_opts)]" by blast
  then have op: "opened t = [0]" by (simp add: retained_subscription_handling_steps_def Let_def step_lists upt_rec)
  then have dist: "distinct (opened t)" by simp
  note streams = mp [OF conjunct2 [OF retain_handling_options [where t = t and exe = "''netz''" and mp = sample_packets and op = sample_opts, unfolded Let_def]] conjI [OF run dist]]
  from streams op run show ?thesis by (fastforce simp: sample_packets_def nth_Cons')
qed

text \<open>
  C38. disconnect_with_will_properties passes on exactly the transcripts of the conversation
  written out. If the generated Will Delay property is five bytes long, then in every passing
  run the source's CONNECT carries the Will with all its properties and its DISCONNECT the
  reason code 4, and the subscriber reads the Will's topic and payload with the six other
  properties in order and without the Will Delay.
\<close>

theorem will_forwarded_without_delay:
  "let topic = ''will/properties'';
         properties =
         gen_uint32_prop pr (WILL_DELAY_INTERVAL pr) 0
         @ gen_string_pair_prop pr (USER_PROPERTY pr) ''key1'' ''value1''
         @ gen_string_prop pr (RESPONSE_TOPIC pr) ''response/topic''
         @ gen_string_prop pr (CORRELATION_DATA pr) ''correlation-data''
         @ gen_byte_prop pr (PAYLOAD_FORMAT_INDICATOR pr) 1
         @ gen_string_prop pr (CONTENT_TYPE pr) ''text/plain''
         @ gen_string_pair_prop pr (USER_PROPERTY pr) ''key2'' ''value2'' in
   (exec (disconnect_with_will_properties exe mp pr) t (Inr ()) \<longleftrightarrow> conversation exe 2 False []
     ([Open, Open] @ Hello mp 0 ''will-property-subscriber'' @ Subscribe mp 0 1 topic 0 0 @
      [Send 1 (gen_connect mp (Some ''will-property-source'')
      (v5\<lparr>k_will_topic := Some topic, k_will_payload := Some (encode_ascii ''will payload''),
      k_will_properties := Some properties\<rparr>)), Await 1 fresh_ok,
      Send 1 (gen_disconnect mp (v5\<lparr>k_reason_code := Some (Code 4)\<rparr>)),
      Expect 0 (gen_publish mp topic
      (message0 ''will payload''\<lparr>k_properties := Some (drop 5 properties)\<rparr>)),
      Bye mp 0, Shut 1, Shut 0]) t) \<and>
   (exec (disconnect_with_will_properties exe mp pr) t (Inr ()) \<and> distinct (opened t) \<and> length (gen_uint32_prop pr (WILL_DELAY_INTERVAL pr) 0) = 5 \<longrightarrow>
     (\<exists>a b h h'. opened t = [a, b] \<and> connack_ok 5 h \<and> fresh_ok h' \<and>
        sent b t = gen_connect mp (Some ''will-property-source'') (v5\<lparr>k_will_topic := Some topic,
            k_will_payload := Some (encode_ascii ''will payload''), k_will_properties := Some properties\<rparr>) @
          gen_disconnect mp (v5\<lparr>k_reason_code := Some (Code 4)\<rparr>) \<and>
        received b t = h' \<and>
        sent a t = gen_connect mp (Some ''will-property-subscriber'') v5 @ gen_subscribe mp 1 topic 0 v5 @
          gen_disconnect mp v5 \<and>
        received a t = h @ gen_suback mp 1 0 v5 @ gen_publish mp topic (message0 ''will payload''\<lparr>k_properties := Some
          (gen_string_pair_prop pr (USER_PROPERTY pr) ''key1'' ''value1'' @
           gen_string_prop pr (RESPONSE_TOPIC pr) ''response/topic'' @
           gen_string_prop pr (CORRELATION_DATA pr) ''correlation-data'' @
           gen_byte_prop pr (PAYLOAD_FORMAT_INDICATOR pr) 1 @
           gen_string_prop pr (CONTENT_TYPE pr) ''text/plain'' @
           gen_string_pair_prop pr (USER_PROPERTY pr) ''key2'' ''value2'')\<rparr>)))"
proof (unfold Let_def, rule conjI [OF _ impI], goal_cases)
  case 1
  show ?case by (rule passing_iff [OF disconnect_with_will_properties_conv, unfolded disconnect_with_will_properties_steps_def Let_def])
next
  case 2
  then have run: "exec (disconnect_with_will_properties exe mp pr) t (Inr ())" and distinct: "distinct (opened t)" and more: "length (gen_uint32_prop pr (WILL_DELAY_INTERVAL pr) 0) = 5" by auto
  have wf: "well_formed 2 (disconnect_with_will_properties_steps mp pr)"
    by (simp add: disconnect_with_will_properties_steps_def Let_def step_lists well_formed_def)
  note streams = passing_streams [OF run disconnect_with_will_properties_conv wf distinct]
  from passing_opened [OF run disconnect_with_will_properties_conv wf] obtain a b where op: "opened t = [a, b]"
    by (auto simp: numeral_eq_Suc length_Suc_conv)
  from streams [of 0] streams [of 1] show ?case by (auto simp: op more disconnect_with_will_properties_steps_def Let_def step_lists)
qed

theorem will_forwarded_without_delay_witness:
  "\<exists>t. exec (disconnect_with_will_properties ''netz'' sample_packets sample_props) t (Inr ()) \<and> (\<exists>h. connack_ok 5 h \<and> received 0 t = h @ [0x90, 0, 0x30, 0])"
proof -
  have sample_hyp: "length (gen_uint32_prop sample_props (WILL_DELAY_INTERVAL sample_props) 0) = 5"
    by (simp add: sample_props_def)
  have "realizable (disconnect_with_will_properties_steps sample_packets sample_props)"
    by (simp add: disconnect_with_will_properties_steps_def Let_def step_lists expected_connack_def framed_simps [OF framed_sample] connacks_exist upt_rec)
  from passing_run [OF disconnect_with_will_properties_conv this] obtain t where
    run: "exec (disconnect_with_will_properties ''netz'' sample_packets sample_props) t (Inr ())" and "opened t = [0..<opens (disconnect_with_will_properties_steps sample_packets sample_props)]" by blast
  then have op: "opened t = [0, 1]" by (simp add: disconnect_with_will_properties_steps_def Let_def step_lists upt_rec)
  then have dist: "distinct (opened t)" by simp
  note streams = mp [OF conjunct2 [OF will_forwarded_without_delay [where t = t and exe = "''netz''" and mp = sample_packets and pr = sample_props, unfolded Let_def]] conjI [OF run conjI [OF dist sample_hyp]]]
  from streams op run show ?thesis by (fastforce simp: sample_packets_def nth_Cons')
qed

text \<open>
  C39. assigned_client_identifier passes exactly when two anonymous clients are assigned two
  different identifiers of the form netz-xxxxxxxx-xxxx-xxxx-xxxx-xxxxxxxxxxxx in lower-case
  hexadecimal, each as the first property of an otherwise standard CONNACK, and the first
  connection stays live.
\<close>

theorem assigned_client_identifier_conversation:
  "exec (assigned_client_identifier exe mp pr) t (Inr ()) \<longleftrightarrow>
     (\<exists>id0 id1. id0 \<noteq> id1 \<and> conversation exe 2 False []
       ([Open, Open, Send 0 (gen_connect mp None (v5\<lparr>k_clean_session := Some True\<rparr>)),
         Await 0 (assigned_connack mp pr id0),
         Send 1 (gen_connect mp None (v5\<lparr>k_clean_session := Some True\<rparr>)),
         Await 1 (assigned_connack mp pr id1)] @ Ping mp 0 @ [Bye mp 0, Bye mp 1, Shut 1, Shut 0]) t)"
  using assigned_client_identifier_conv [of exe mp pr "()"]
  by (simp add: ok_def fun_eq_iff some_def onlyif_def Let_def)

text \<open>
  C40. subscription_capability_disconnects passes exactly when three brokers in a row, each with
  one capability switched off, announce this in the CONNACK and answer a SUBSCRIBE that needs it
  with the matching DISCONNECT.
\<close>

theorem subscription_capability_conversations:
  "exec (subscription_capability_disconnects exe mp pr rc) t (Inr ()) \<longleftrightarrow>
     sessions exe (map (\<lambda>(arg, topic, props, advertised, reason). (1, True, [arg],
       [Open, Send 0 (gen_connect mp (Some ''subscription-capability'') v5),
        Expect 0 (expected_connack mp pr (connack_defaults\<lparr>extra_properties := gen_byte_prop pr advertised 0\<rparr>)),
        Send 0 (gen_subscribe mp 1 topic 0 (v5\<lparr>k_properties := Some props\<rparr>)),
        Expect 0 (gen_disconnect mp (v5\<lparr>k_reason_code := Some (Code reason)\<rparr>)), Shut 0]))
      [(''--no-wildcard-subscriptions'', ''wildcard/+'', [], WILDCARD_SUB_AVAILABLE pr, WILDCARD_SUBS_NOT_SUPPORTED rc),
       (''--no-shared-subscriptions'', ''$share/workers/shared/topic'', [], SHARED_SUB_AVAILABLE pr,
        SHARED_SUBS_NOT_SUPPORTED rc),
       (''--no-subscription-identifiers'', ''identifier/topic'', gen_varint_prop pr (SUBSCRIPTION_IDENTIFIER pr) 7,
        SUBSCRIPTION_ID_AVAILABLE pr, SUBSCRIPTION_IDS_NOT_SUPPORTED rc)]) t"
  using subscription_capability_disconnects_conv [of exe mp pr rc "()"]
  by (simp add: ok_def fun_eq_iff Let_def eps_cat)

end
